(* ===== verification/Prelude.thy ===== *)
theory Prelude
  imports Main "HOL-Library.Word"
begin

unbundle bit_operations_syntax

section \<open>Shared vocabulary of the development\<close>

text \<open>
  What every component theory builds on: the C++ exceptions the modelled code throws and the
  result type they travel in, bytes and their character classes, the \<^verbatim>\<open>std::string\<close> searches the
  sources use, decimal printing and reading (\<^verbatim>\<open>std::to_string\<close>, \<^verbatim>\<open>std::from_chars\<close>), and two
  contracts as locales: a codec (encoder and decoder that invert each other) and a scanner
  (a lexical routine that always advances within its input).

  A \<^verbatim>\<open>std::byte\<close>, a \<^verbatim>\<open>char\<close> and an \<^verbatim>\<open>unsigned char\<close> are all the HOL type \<^typ>\<open>char\<close>, an 8-bit value:
  the sources cast freely between them. A \<^verbatim>\<open>std::string\<close>, a \<^verbatim>\<open>string_view\<close> and a vector of bytes
  are therefore all lists of \<^typ>\<open>char\<close>. \<^verbatim>\<open>std::size_t\<close> counts of things held in memory are
  \<^typ>\<open>nat\<close>; 16- and 32-bit protocol integers are words.
\<close>

named_theorems result_simps \<open>equations that compute with results\<close>
named_theorems wire_simps \<open>lengths and contents of encoded byte sequences\<close>

type_synonym byte = char
type_synonym bytes = "char list"

subsection \<open>Exceptions as values\<close>

datatype error =
    Runtime_error string
  | Invalid_argument string
  | Length_error string
  | Request_wire_limit_exceeded

type_synonym 'a result = "error + 'a"

definition bind_result :: "'e + 'a \<Rightarrow> ('a \<Rightarrow> 'e + 'b) \<Rightarrow> 'e + 'b" where
  "bind_result m f = (case m of Inl e \<Rightarrow> Inl e | Inr x \<Rightarrow> f x)"

lemma bind_result_Inl [simp, result_simps]: "bind_result (Inl e) f = Inl e"
  by (simp add: bind_result_def)

lemma bind_result_Inr [simp, result_simps]: "bind_result (Inr x) f = f x"
  by (simp add: bind_result_def)

lemma bind_result_eq_Inr [simp, result_simps]:
  "bind_result m f = Inr y \<longleftrightarrow> (\<exists>x. m = Inr x \<and> f x = Inr y)"
  by (cases m) auto

lemma bind_result_eq_Inl [result_simps]:
  "bind_result m f = Inl e \<longleftrightarrow> m = Inl e \<or> (\<exists>x. m = Inr x \<and> f x = Inl e)"
  by (cases m) auto

lemma bind_result_cong [fundef_cong]:
  "m = m' \<Longrightarrow> (\<And>x. m' = Inr x \<Longrightarrow> f x = f' x) \<Longrightarrow> bind_result m f = bind_result m' f'"
  by (cases m') auto

text \<open>A loop whose body may throw: a fold that stops at the first exception.\<close>

fun fold_result :: "('s \<Rightarrow> 'x \<Rightarrow> 'e + 's) \<Rightarrow> 's \<Rightarrow> 'x list \<Rightarrow> 'e + 's" where
  "fold_result f s [] = Inr s"
| "fold_result f s (x # xs) = bind_result (f s x) (\<lambda>s'. fold_result f s' xs)"

lemma fold_result_append [simp]:
  "fold_result f s (xs @ ys) = bind_result (fold_result f s xs) (\<lambda>s'. fold_result f s' ys)"
proof (induction xs arbitrary: s)
  case (Cons x xs)
  then show ?case by (cases "f s x") simp_all
qed simp

lemma fold_result_invariant:
  assumes "fold_result f s xs = Inr t" and "P s"
    and "\<And>s x s'. x \<in> set xs \<Longrightarrow> P s \<Longrightarrow> f s x = Inr s' \<Longrightarrow> P s'"
  shows "P t"
  using assms
proof (induction xs arbitrary: s)
  case (Cons x xs)
  from Cons.prems(1) obtain s' where s': "f s x = Inr s'" "fold_result f s' xs = Inr t"
    by auto
  show ?case
    by (rule Cons.IH [OF s'(2)]) (use Cons.prems s' in auto)
qed simp

subsection \<open>Bytes and the character classes of the C locale\<close>

abbreviation u8 :: "char \<Rightarrow> nat" where
  "u8 c \<equiv> of_char c"

abbreviation NUL_byte :: char where
  "NUL_byte \<equiv> CHR 0x00"

lemma u8_less [simp]: "u8 c < 256"
  by simp

lemma u8_le [simp]: "u8 c \<le> 255"
  using u8_less [of c] by linarith

lemma u8_char_of [simp]: "n < 256 \<Longrightarrow> u8 (char_of n) = n"
  by simp

lemma char_of_u8_eqI: "u8 c = n \<Longrightarrow> char_of n = c"
  by auto

definition is_space :: "char \<Rightarrow> bool" where
  "is_space c \<longleftrightarrow> u8 c = 32 \<or> (9 \<le> u8 c \<and> u8 c \<le> 13)"

definition is_digit :: "char \<Rightarrow> bool" where
  "is_digit c \<longleftrightarrow> 48 \<le> u8 c \<and> u8 c \<le> 57"

definition is_upper :: "char \<Rightarrow> bool" where
  "is_upper c \<longleftrightarrow> 65 \<le> u8 c \<and> u8 c \<le> 90"

definition is_lower :: "char \<Rightarrow> bool" where
  "is_lower c \<longleftrightarrow> 97 \<le> u8 c \<and> u8 c \<le> 122"

definition is_alpha :: "char \<Rightarrow> bool" where
  "is_alpha c \<longleftrightarrow> is_upper c \<or> is_lower c"

definition is_alnum :: "char \<Rightarrow> bool" where
  "is_alnum c \<longleftrightarrow> is_alpha c \<or> is_digit c"

definition to_upper_char :: "char \<Rightarrow> char" where
  "to_upper_char c = (if is_lower c then char_of (u8 c - 32) else c)"

definition to_lower_char :: "char \<Rightarrow> char" where
  "to_lower_char c = (if is_upper c then char_of (u8 c + 32) else c)"

lemmas ctype_defs = is_space_def is_digit_def is_upper_def is_lower_def is_alpha_def is_alnum_def

lemma to_upper_char_idem [simp]: "to_upper_char (to_upper_char c) = to_upper_char c"
proof (cases "is_lower c")
  case True
  then have "u8 (char_of (u8 c - 32)) = u8 c - 32"
    by (intro u8_char_of) (auto simp: is_lower_def)
  with True show ?thesis
    by (auto simp: to_upper_char_def is_lower_def)
qed (simp add: to_upper_char_def)

text \<open>The digit value \<^verbatim>\<open>c - '0'\<close> and its inverse.\<close>

definition digit_value :: "char \<Rightarrow> nat" where
  "digit_value c = u8 c - 48"

definition digit_char :: "nat \<Rightarrow> char" where
  "digit_char d = char_of (48 + d)"

lemma digit_char_digit [simp]: "d < 10 \<Longrightarrow> is_digit (digit_char d)"
  by (simp add: digit_char_def is_digit_def)

lemma digit_value_digit_char [simp]: "d < 10 \<Longrightarrow> digit_value (digit_char d) = d"
  by (simp add: digit_char_def digit_value_def)

lemma digit_value_less [simp]: "is_digit c \<Longrightarrow> digit_value c < 10"
  by (auto simp: is_digit_def digit_value_def)

lemma digit_char_digit_value [simp]: "is_digit c \<Longrightarrow> digit_char (digit_value c) = c"
  by (simp add: digit_char_def digit_value_def is_digit_def)


subsection \<open>Searches and slices of a string\<close>

text \<open>
  \<^verbatim>\<open>find\<close>, \<^verbatim>\<open>find_last_of\<close>, \<^verbatim>\<open>substr\<close> and \<^verbatim>\<open>starts_with\<close> of \<^verbatim>\<open>std::string_view\<close>; \<^verbatim>\<open>npos\<close> is \<open>None\<close>.
\<close>

definition find_from :: "('a \<Rightarrow> bool) \<Rightarrow> 'a list \<Rightarrow> nat \<Rightarrow> nat option" where
  "find_from P xs i =
     (let k = i + length (takeWhile (\<lambda>x. \<not> P x) (drop i xs))
      in if k < length xs then Some k else None)"

definition find_last :: "('a \<Rightarrow> bool) \<Rightarrow> 'a list \<Rightarrow> nat option" where
  "find_last P xs =
     (let k = length (takeWhile (\<lambda>x. \<not> P x) (rev xs))
      in if k < length xs then Some (length xs - 1 - k) else None)"

definition substr :: "nat \<Rightarrow> nat \<Rightarrow> 'a list \<Rightarrow> 'a list" where
  "substr i n xs = take n (drop i xs)"

definition starts_with :: "'a list \<Rightarrow> 'a list \<Rightarrow> bool" where
  "starts_with xs p \<longleftrightarrow> take (length p) xs = p"

lemma starts_with_append [simp]: "starts_with (p @ xs) p"
  by (simp add: starts_with_def)

lemma starts_withD: "starts_with xs p \<Longrightarrow> \<exists>ys. xs = p @ ys"
  unfolding starts_with_def by (metis append_take_drop_id)

lemma length_substr [simp]: "length (substr i n xs) = min n (length xs - i)"
  by (simp add: substr_def)

lemma find_from_bounds: "find_from P xs i = Some k \<Longrightarrow> i \<le> k \<and> k < length xs"
  by (auto simp: find_from_def Let_def split: if_splits)

lemma find_from_holds: "find_from P xs i = Some k \<Longrightarrow> P (xs ! k)"
proof -
  assume "find_from P xs i = Some k"
  then have k: "k = i + length (takeWhile (\<lambda>x. \<not> P x) (drop i xs))" and kl: "k < length xs"
    by (auto simp: find_from_def Let_def split: if_splits)
  from kl k have "length (takeWhile (\<lambda>x. \<not> P x) (drop i xs)) < length (drop i xs)"
    by simp
  from nth_length_takeWhile [OF this] show ?thesis
    using k kl by simp
qed

lemma find_from_before:
  assumes "find_from P xs i = Some k" "i \<le> j" "j < k"
  shows "\<not> P (xs ! j)"
proof -
  from assms(1) have k: "k = i + length (takeWhile (\<lambda>x. \<not> P x) (drop i xs))" and kl: "k < length xs"
    by (auto simp: find_from_def Let_def split: if_splits)
  let ?t = "takeWhile (\<lambda>x. \<not> P x) (drop i xs)"
  from assms k have "j - i < length ?t" by simp
  then have "?t ! (j - i) = drop i xs ! (j - i)" and "?t ! (j - i) \<in> set ?t"
    by (rule takeWhile_nth, rule nth_mem)
  with assms kl have "xs ! j \<in> set ?t" by simp
  then show ?thesis by (auto dest: set_takeWhileD)
qed

lemma find_from_None: "find_from P xs i = None \<Longrightarrow> i \<le> j \<Longrightarrow> j < length xs \<Longrightarrow> \<not> P (xs ! j)"
proof -
  assume none: "find_from P xs i = None" and j: "i \<le> j" "j < length xs"
  let ?t = "takeWhile (\<lambda>x. \<not> P x) (drop i xs)"
  from none have "length xs \<le> i + length ?t"
    by (auto simp: find_from_def Let_def split: if_splits)
  with j have "length (drop i xs) \<le> length ?t" by simp
  then have "?t = drop i xs"
    by (metis length_takeWhile_le le_antisym takeWhile_eq_all_conv takeWhile_eq_take take_all)
  then have "\<forall>x \<in> set (drop i xs). \<not> P x"
    by (metis set_takeWhileD)
  moreover have "xs ! j \<in> set (drop i xs)"
    using j by (auto simp: in_set_conv_nth intro: exI [of _ "j - i"])
  ultimately show ?thesis by blast
qed

subsection \<open>Decimal text\<close>

fun to_string :: "nat \<Rightarrow> string" where
  "to_string n = (if n < 10 then [digit_char n] else to_string (n div 10) @ [digit_char (n mod 10)])"

declare to_string.simps [simp del]

definition decimal_value :: "string \<Rightarrow> nat" where
  "decimal_value s = foldl (\<lambda>v c. 10 * v + digit_value c) 0 s"

lemma decimal_value_Nil [simp]: "decimal_value [] = 0"
  by (simp add: decimal_value_def)

lemma decimal_value_snoc [simp]: "decimal_value (s @ [c]) = 10 * decimal_value s + digit_value c"
  by (simp add: decimal_value_def)

lemma decimal_value_append:
  "decimal_value (s @ t) = decimal_value s * 10 ^ length t + decimal_value t"
proof (induction t rule: rev_induct)
  case (snoc c t)
  have "decimal_value (s @ t @ [c]) = 10 * decimal_value (s @ t) + digit_value c"
    using decimal_value_snoc [of "s @ t" c] by simp
  with snoc show ?case by (simp add: algebra_simps)
qed simp

lemma decimal_value_less: "list_all is_digit s \<Longrightarrow> decimal_value s < 10 ^ length s"
proof (induction s rule: rev_induct)
  case (snoc c s)
  then have "decimal_value s < 10 ^ length s" and "digit_value c < 10" by simp_all
  then show ?case by simp
qed simp

lemma to_string_digits [simp]: "list_all is_digit (to_string n)"
proof (induction n rule: to_string.induct)
  case (1 n)
  then show ?case by (subst to_string.simps) simp
qed

lemma to_string_nonempty [simp]: "to_string n \<noteq> []"
  by (subst to_string.simps) simp

lemma decimal_value_to_string [simp]: "decimal_value (to_string n) = n"
proof (induction n rule: to_string.induct)
  case (1 n)
  show ?case
  proof (cases "n < 10")
    case True
    then show ?thesis using decimal_value_snoc [of "[]"] by (subst to_string.simps) simp
  next
    case False
    with 1 show ?thesis by (subst to_string.simps) simp
  qed
qed

text \<open>
  \<^verbatim>\<open>std::from_chars\<close> on an integer type with the range \<open>lo..hi\<close>: the longest run of digits, after a
  minus sign when the type is signed. It gives the number of characters consumed (the returned
  pointer) and the value, no match, or out of range (then the whole run is consumed).
\<close>

datatype from_chars_result = Fc_parsed int | Fc_invalid | Fc_out_of_range

definition from_chars :: "int \<Rightarrow> int \<Rightarrow> string \<Rightarrow> nat \<times> from_chars_result" where
  "from_chars lo hi s =
     (let neg = (lo < 0 \<and> starts_with s ''-'');
          ds = takeWhile is_digit (if neg then drop 1 s else s);
          v = (if neg then - int (decimal_value ds) else int (decimal_value ds))
      in if ds = [] then (0, Fc_invalid)
         else ((if neg then 1 else 0) + length ds,
               if lo \<le> v \<and> v \<le> hi then Fc_parsed v else Fc_out_of_range))"

lemma from_chars_to_string:
  "lo \<le> 0 \<Longrightarrow> int n \<le> hi \<Longrightarrow> from_chars lo hi (to_string n) = (length (to_string n), Fc_parsed (int n))"
proof -
  assume range: "lo \<le> 0" "int n \<le> hi"
  have dig: "takeWhile is_digit (to_string n) = to_string n"
    using to_string_digits [of n] by (simp add: list_all_iff takeWhile_eq_all_conv)
  have "is_digit (hd (to_string n))"
    using to_string_digits [of n] to_string_nonempty [of n] by (simp add: list_all_iff)
  then have "\<not> starts_with (to_string n) ''-''"
    using to_string_nonempty [of n]
    by (cases "to_string n") (auto simp: starts_with_def is_digit_def)
  with range show ?thesis by (simp add: from_chars_def Let_def dig)
qed

subsection \<open>Contracts\<close>

text \<open>
  A codec: what the encoder writes, the decoder reads back. A canonical codec accepts nothing else:
  the decoder is exactly the inverse of the encoder.
\<close>

locale codec =
  fixes valid :: "'a \<Rightarrow> bool" and encode :: "'a \<Rightarrow> 'b" and decode :: "'b \<Rightarrow> 'a option"
  assumes decode_encode: "valid x \<Longrightarrow> decode (encode x) = Some x"
begin

lemma encode_inj: "valid x \<Longrightarrow> valid y \<Longrightarrow> encode x = encode y \<longleftrightarrow> x = y"
  using decode_encode by (metis option.inject)

end

locale canonical_codec = codec +
  assumes decode_valid: "decode y = Some x \<Longrightarrow> valid x"
    and encode_decode: "decode y = Some x \<Longrightarrow> encode x = y"
begin

lemma decode_iff: "decode y = Some x \<longleftrightarrow> valid x \<and> y = encode x"
  using decode_encode decode_valid encode_decode by metis

lemma decode_inj: "decode y = Some x \<Longrightarrow> decode z = Some x \<Longrightarrow> y = z"
  by (simp add: decode_iff)

end

text \<open>
  A cursor reader: a routine that reads one item of a payload at an offset and gives the offset
  after it, or throws. The contract is that it reads back what the peer writes with \<open>put\<close>, and
  that whatever it accepts is exactly such an encoding, inside the payload. The client is the
  counted loop that every list-valued protocol message runs.
\<close>

fun read_n :: "(bytes \<Rightarrow> nat \<Rightarrow> ('a \<times> nat) result) \<Rightarrow> nat \<Rightarrow> bytes \<Rightarrow> nat \<Rightarrow> ('a list \<times> nat) result" where
  "read_n rd 0 data off = Inr ([], off)"
| "read_n rd (Suc n) data off =
     bind_result (rd data off) (\<lambda>(x, off'). bind_result (read_n rd n data off')
       (\<lambda>(xs, off''). Inr (x # xs, off'')))"

locale cursor_reader =
  fixes rd :: "bytes \<Rightarrow> nat \<Rightarrow> ('a \<times> nat) result" and put :: "'a \<Rightarrow> bytes" and wf :: "'a \<Rightarrow> bool"
  assumes read_put: "wf x \<Longrightarrow> rd (pre @ put x @ post) (length pre) = Inr (x, length pre + length (put x))"
    and read_sound: "rd data off = Inr (x, off') \<Longrightarrow> off \<le> length data \<Longrightarrow>
      wf x \<and> off' = off + length (put x) \<and> off' \<le> length data \<and> take (length (put x)) (drop off data) = put x"
begin

lemma read_n_put:
  "\<forall>x \<in> set xs. wf x \<Longrightarrow>
    read_n rd (length xs) (pre @ concat (map put xs) @ post) (length pre) =
      Inr (xs, length pre + length (concat (map put xs)))"
proof (induction xs arbitrary: pre)
  case (Cons x xs)
  have 1: "rd (pre @ put x @ concat (map put xs) @ post) (length pre) = Inr (x, length pre + length (put x))"
    by (rule read_put) (use Cons.prems in simp)
  have 2: "read_n rd (length xs) ((pre @ put x) @ concat (map put xs) @ post) (length (pre @ put x)) =
      Inr (xs, length (pre @ put x) + length (concat (map put xs)))"
    by (rule Cons.IH) (use Cons.prems in simp)
  from 1 2 show ?case by simp
qed simp

lemma read_n_sound:
  "read_n rd n data off = Inr (xs, off') \<Longrightarrow> off \<le> length data \<Longrightarrow>
    length xs = n \<and> (\<forall>x \<in> set xs. wf x) \<and> off' = off + length (concat (map put xs)) \<and>
    off' \<le> length data \<and> take (length (concat (map put xs))) (drop off data) = concat (map put xs)"
proof (induction n arbitrary: off xs)
  case (Suc n)
  from Suc.prems(1) obtain x m ys where
    r1: "rd data off = Inr (x, m)" and r2: "read_n rd n data m = Inr (ys, off')" and xs: "xs = x # ys"
    by auto
  from read_sound [OF r1 Suc.prems(2)]
  have x: "wf x" "m = off + length (put x)" "m \<le> length data" "take (length (put x)) (drop off data) = put x"
    by auto
  from Suc.IH [OF r2 x(3)]
  have ys: "length ys = n" "\<forall>y \<in> set ys. wf y" "off' = m + length (concat (map put ys))"
    "off' \<le> length data" "take (length (concat (map put ys))) (drop m data) = concat (map put ys)"
    by auto
  have "take (length (put x) + length (concat (map put ys))) (drop off data) = put x @ concat (map put ys)"
    using x ys by (simp add: take_add drop_drop add.commute)
  with x ys xs show ?case by simp
qed simp

text \<open>A counted list that fills the payload to its end is decoded exactly.\<close>

lemma read_n_exact:
  "read_n rd n (pre @ body) (length pre) = Inr (xs, length (pre @ body)) \<longleftrightarrow>
    length xs = n \<and> (\<forall>x \<in> set xs. wf x) \<and> body = concat (map put xs)"
proof
  assume r: "read_n rd n (pre @ body) (length pre) = Inr (xs, length (pre @ body))"
  from read_n_sound [OF r] show "length xs = n \<and> (\<forall>x \<in> set xs. wf x) \<and> body = concat (map put xs)"
    by auto
next
  assume "length xs = n \<and> (\<forall>x \<in> set xs. wf x) \<and> body = concat (map put xs)"
  with read_n_put [of xs pre "[]"] show "read_n rd n (pre @ body) (length pre) = Inr (xs, length (pre @ body))"
    by simp
qed

end

lemma bind_result_assoc: "bind_result (bind_result m f) g = bind_result m (\<lambda>x. bind_result (f x) g)"
  by (cases m) simp_all

lemma take_drop_add:
  "take a (drop off d) = x \<Longrightarrow> take b (drop (off + a) d) = y \<Longrightarrow> take (a + b) (drop off d) = x @ y"
  by (simp add: take_add add.commute)

text \<open>Two readers in sequence are a reader of pairs.\<close>

definition read_pair ::
  "(bytes \<Rightarrow> nat \<Rightarrow> ('a \<times> nat) result) \<Rightarrow> (bytes \<Rightarrow> nat \<Rightarrow> ('b \<times> nat) result) \<Rightarrow> bytes \<Rightarrow> nat \<Rightarrow> (('a \<times> 'b) \<times> nat) result" where
  "read_pair rd1 rd2 data off =
     bind_result (rd1 data off) (\<lambda>(x, off). bind_result (rd2 data off) (\<lambda>(y, off). Inr ((x, y), off)))"

definition put_pair :: "('a \<Rightarrow> bytes) \<Rightarrow> ('b \<Rightarrow> bytes) \<Rightarrow> 'a \<times> 'b \<Rightarrow> bytes" where
  "put_pair put1 put2 = (\<lambda>(x, y). put1 x @ put2 y)"

locale cursor_reader_pair =
  fst: cursor_reader rd1 put1 wf1 + snd: cursor_reader rd2 put2 wf2
  for rd1 put1 wf1 rd2 put2 wf2

sublocale cursor_reader_pair \<subseteq> pair: cursor_reader "read_pair rd1 rd2" "put_pair put1 put2" "pred_prod wf1 wf2"
proof unfold_locales
  show "read_pair rd1 rd2 (pre @ put_pair put1 put2 p @ post) (length pre) = Inr (p, length pre + length (put_pair put1 put2 p))"
    if "pred_prod wf1 wf2 p" for p pre post
    using that fst.read_put [of "Product_Type.fst p" pre "put2 (Product_Type.snd p) @ post"]
      snd.read_put [of "Product_Type.snd p" "pre @ put1 (Product_Type.fst p)" post]
    by (cases p) (simp add: read_pair_def put_pair_def)
  show "pred_prod wf1 wf2 p \<and> off' = off + length (put_pair put1 put2 p) \<and> off' \<le> length data \<and>
      take (length (put_pair put1 put2 p)) (drop off data) = put_pair put1 put2 p"
    if r: "read_pair rd1 rd2 data off = Inr (p, off')" and off: "off \<le> length data" for data off p off'
  proof -
    obtain x m y where x: "rd1 data off = Inr (x, m)" and y: "rd2 data m = Inr (y, off')" and p: "p = (x, y)"
      using r by (auto simp: read_pair_def)
    note sx = fst.read_sound [OF x off]
    then have "m \<le> length data" by blast
    note sy = snd.read_sound [OF y this]
    show ?thesis using sx sy p take_drop_add by (auto simp: put_pair_def)
  qed
qed

end
