(* ===== verification/Text_Codecs.thy ===== *)
theory Text_Codecs
  imports Prelude
begin

section \<open>Hexadecimal and base64 text\<close>

text \<open>
  \<^verbatim>\<open>sdk/internal/odbcpp/util/hex.h\<close> (\<open>decode_hex\<close>, \<open>encode_hex\<close>) and \<^verbatim>\<open>sdk/src/util/base64.cpp\<close>
  (\<open>base64_encode\<close>, \<open>base64_decode\<close>). Bytea parameters travel as hexadecimal text, SCRAM salts and
  proofs as base64; both decoders are strict. The loops over an index that advances by two, three or
  four characters are recursions on the list, one equation per block.
\<close>

subsection \<open>Bit arithmetic on disjoint fields\<close>

lemma or_disjoint_add: "b < 2 ^ n \<Longrightarrow> push_bit n a OR b = a * 2 ^ n + (b :: nat)"
proof -
  assume b: "b < 2 ^ n"
  have "push_bit n a + b = push_bit n a OR b"
  proof (rule disjunctive_add)
    fix k
    show "\<not> bit (push_bit n a) k \<or> \<not> bit b k"
    proof (cases "k < n")
      case False
      have "take_bit n b = b" using b by (simp add: take_bit_nat_eq_self_iff)
      then have "\<not> bit b k" using False by (metis bit_take_bit_iff)
      then show ?thesis by simp
    qed (simp add: bit_push_bit_iff)
  qed
  then show ?thesis by (simp add: push_bit_eq_mult)
qed

lemma and_mask6 [simp]: "(n :: nat) AND 63 = n mod 64"
  using take_bit_eq_mask [of 6 n] by (simp add: take_bit_eq_mod mask_eq_exp_minus_1)

lemma and_mask8 [simp]: "(n :: nat) AND 255 = n mod 256"
  using take_bit_eq_mask [of 8 n] by (simp add: take_bit_eq_mod mask_eq_exp_minus_1)

lemma and_mask4 [simp]: "(n :: nat) AND 15 = n mod 16"
  using take_bit_eq_mask [of 4 n] by (simp add: take_bit_eq_mod mask_eq_exp_minus_1)

lemma and_mask2 [simp]: "(n :: nat) AND 3 = n mod 4"
  using take_bit_eq_mask [of 2 n] by (simp add: take_bit_eq_mod mask_eq_exp_minus_1)

subsection \<open>Hexadecimal\<close>

text \<open>\<^verbatim>\<open>std::string::max_size()\<close> and the largest \<^verbatim>\<open>std::size_t\<close> on the 64-bit targets.\<close>

definition max_string_size :: nat where
  "max_string_size = 2 ^ 63 - 1"

definition max_size_t :: nat where
  "max_size_t = 2 ^ 64 - 1"

text \<open>The digit lambda; its \<open>-1\<close> is \<open>None\<close>.\<close>

definition hex_digit :: "char \<Rightarrow> nat option" where
  "hex_digit ch =
     (if 48 \<le> u8 ch \<and> u8 ch \<le> 57 then Some (u8 ch - 48)
      else if 97 \<le> u8 ch \<and> u8 ch \<le> 102 then Some (u8 ch - 97 + 10)
      else if 65 \<le> u8 ch \<and> u8 ch \<le> 70 then Some (u8 ch - 65 + 10)
      else None)"

fun decode_hex_pairs :: "string \<Rightarrow> string option" where
  "decode_hex_pairs [] = Some []"
| "decode_hex_pairs [x] = None"
| "decode_hex_pairs (x # y # rest) =
     (case (hex_digit x, hex_digit y) of
        (Some high, Some low) \<Rightarrow>
          map_option (\<lambda>r. char_of (push_bit 4 high OR low) # r) (decode_hex_pairs rest)
      | _ \<Rightarrow> None)"

definition decode_hex :: "string \<Rightarrow> string option" where
  "decode_hex s = (if length s mod 2 \<noteq> 0 then None else decode_hex_pairs s)"

definition hex_digits :: string where
  "hex_digits = ''0123456789abcdef''"

definition encode_hex_bytes :: "bytes \<Rightarrow> string" where
  "encode_hex_bytes s = concat (map (\<lambda>b. [hex_digits ! drop_bit 4 (u8 b), hex_digits ! (u8 b AND 15)]) s)"

definition encode_hex :: "bytes \<Rightarrow> string result" where
  "encode_hex s =
     (if max_string_size div 2 < length s then Inl (Length_error ''Hexadecimal value is too large'')
      else Inr (encode_hex_bytes s))"

lemma hex_digit_digits: "n < 16 \<Longrightarrow> hex_digit (hex_digits ! n) = Some n"
proof -
  have "list_all (\<lambda>n. hex_digit (hex_digits ! n) = Some n) [0..<16]"
    by code_simp
  then show "n < 16 \<Longrightarrow> ?thesis"
    by (auto simp: list_all_iff)
qed

lemma hex_digit_bound: "hex_digit ch = Some n \<Longrightarrow> n < 16"
  by (auto simp: hex_digit_def split: if_splits)

lemma nibbles: "char_of (push_bit 4 (drop_bit 4 (u8 b)) OR (u8 b AND 15)) = b"
proof -
  have "push_bit 4 (drop_bit 4 (u8 b)) OR (u8 b AND 15) = drop_bit 4 (u8 b) * 2 ^ 4 + u8 b mod 16"
    using or_disjoint_add [of "u8 b mod 16" 4 "drop_bit 4 (u8 b)"] by simp
  also have "\<dots> = u8 b"
    by (simp add: drop_bit_eq_div)
  finally show ?thesis by simp
qed

lemma length_encode_hex_bytes [simp, wire_simps]: "length (encode_hex_bytes s) = 2 * length s"
  by (induction s) (simp_all add: encode_hex_bytes_def)

lemma decode_hex_pairs_encode: "decode_hex_pairs (encode_hex_bytes s) = Some s"
proof (induction s)
  case (Cons b s)
  have "hex_digit (hex_digits ! drop_bit 4 (u8 b)) = Some (drop_bit 4 (u8 b))"
    by (rule hex_digit_digits) (simp add: drop_bit_eq_div less_mult_imp_div_less)
  moreover have "hex_digit (hex_digits ! (u8 b AND 15)) = Some (u8 b AND 15)"
    by (rule hex_digit_digits) simp
  moreover note nibbles [of b]
  ultimately show ?case
    using Cons by (simp add: encode_hex_bytes_def)
qed (simp add: encode_hex_bytes_def)

lemma decode_hex_encode_bytes: "decode_hex (encode_hex_bytes s) = Some s"
  by (simp add: decode_hex_def decode_hex_pairs_encode)

interpretation hex: codec "\<lambda>_. True" encode_hex_bytes decode_hex
  by unfold_locales (rule decode_hex_encode_bytes)

lemma decode_hex_pairs_length: "decode_hex_pairs s = Some b \<Longrightarrow> length s = 2 * length b"
  by (induction s arbitrary: b rule: decode_hex_pairs.induct)
    (auto split: option.splits)

text \<open>
  The decoder accepts exactly the digits of either case: it succeeds on a text if and only if the
  text has even length and every character is a hexadecimal digit.
\<close>

lemma decode_hex_pairs_total:
  "even (length s) \<Longrightarrow> (\<exists>b. decode_hex_pairs s = Some b) \<longleftrightarrow> (\<forall>c \<in> set s. hex_digit c \<noteq> None)"
  by (induction s rule: decode_hex_pairs.induct) (auto split: option.splits)

subsection \<open>Base64\<close>

definition kAlphabet :: string where
  "kAlphabet = ''ABCDEFGHIJKLMNOPQRSTUVWXYZabcdefghijklmnopqrstuvwxyz0123456789+/''"

text \<open>\<^verbatim>\<open>make_decode_table\<close>: every entry \<open>0xff\<close>, then one assignment per alphabet position.\<close>

definition kDecode :: "char \<Rightarrow> nat" where
  "kDecode = fold (\<lambda>i table. table(kAlphabet ! i := i)) [0..<length kAlphabet] (\<lambda>_. 255)"

abbreviation pad :: char where
  "pad \<equiv> CHR ''=''"

fun base64_encode_blocks :: "bytes \<Rightarrow> string" where
  "base64_encode_blocks [] = []"
| "base64_encode_blocks [a] =
     (let block = push_bit 16 (u8 a) OR 0 OR 0
      in [kAlphabet ! (drop_bit 18 block AND 63), kAlphabet ! (drop_bit 12 block AND 63), pad, pad])"
| "base64_encode_blocks [a, b] =
     (let block = push_bit 16 (u8 a) OR push_bit 8 (u8 b) OR 0
      in [kAlphabet ! (drop_bit 18 block AND 63), kAlphabet ! (drop_bit 12 block AND 63),
          kAlphabet ! (drop_bit 6 block AND 63), pad])"
| "base64_encode_blocks (a # b # c # rest) =
     (let block = push_bit 16 (u8 a) OR push_bit 8 (u8 b) OR u8 c
      in [kAlphabet ! (drop_bit 18 block AND 63), kAlphabet ! (drop_bit 12 block AND 63),
          kAlphabet ! (drop_bit 6 block AND 63), kAlphabet ! (block AND 63)] @ base64_encode_blocks rest)"

definition base64_encode :: "bytes \<Rightarrow> string result" where
  "base64_encode input =
     (if (max_size_t - 2) div 4 * 3 < length input then Inl (Length_error ''base64 input is too large'')
      else Inr (base64_encode_blocks input))"

definition base64_decode_block :: "bool \<Rightarrow> char \<Rightarrow> char \<Rightarrow> char \<Rightarrow> char \<Rightarrow> bytes result" where
  "base64_decode_block final_block c1 c2 third fourth =
     (if (\<not> final_block \<and> (third = pad \<or> fourth = pad)) \<or> (third = pad \<and> fourth \<noteq> pad)
      then Inl (Runtime_error ''invalid base64 padding'')
      else let first_value = kDecode c1; second_value = kDecode c2;
               third_value = (if third = pad then 0 else kDecode third);
               fourth_value = (if fourth = pad then 0 else kDecode fourth)
           in if first_value = 255 \<or> second_value = 255 \<or> third_value = 255 \<or> fourth_value = 255
              then Inl (Runtime_error ''invalid base64 value'')
              else if (third = pad \<and> second_value AND 15 \<noteq> 0) \<or>
                      (fourth = pad \<and> third \<noteq> pad \<and> third_value AND 3 \<noteq> 0)
              then Inl (Runtime_error ''non-canonical base64 value'')
              else let block = push_bit 18 first_value OR push_bit 12 second_value OR
                               push_bit 6 third_value OR fourth_value
                   in Inr ([char_of (drop_bit 16 block AND 255)] @
                           (if third \<noteq> pad then [char_of (drop_bit 8 block AND 255)] else []) @
                           (if fourth \<noteq> pad then [char_of (block AND 255)] else [])))"

fun base64_decode_blocks :: "string \<Rightarrow> bytes result" where
  "base64_decode_blocks (c1 # c2 # c3 # c4 # rest) =
     bind_result (base64_decode_block (rest = []) c1 c2 c3 c4)
       (\<lambda>out. bind_result (base64_decode_blocks rest) (\<lambda>more. Inr (out @ more)))"
| "base64_decode_blocks _ = Inr []"

definition base64_decode :: "string \<Rightarrow> bytes result" where
  "base64_decode input =
     (if input = [] then Inr []
      else if length input mod 4 \<noteq> 0 then Inl (Runtime_error ''invalid base64 value'')
      else base64_decode_blocks input)"


lemma fold_table:
  "(fold (\<lambda>i t. t(g i := i)) is t c = t c \<and> (\<forall>i \<in> set is. g i \<noteq> c)) \<or>
   (fold (\<lambda>i t. t(g i := i)) is t c \<in> set is \<and> g (fold (\<lambda>i t. t(g i := i)) is t c) = c)"
  by (induction "is" rule: rev_induct) auto

lemma length_kAlphabet [simp]: "length kAlphabet = 64"
  by (simp add: kAlphabet_def)

lemma kDecode_alphabet [simp]: "i < 64 \<Longrightarrow> kDecode (kAlphabet ! i) = i"
proof -
  have "list_all (\<lambda>i. kDecode (kAlphabet ! i) = i) [0..<64]"
    by code_simp
  then show "i < 64 \<Longrightarrow> ?thesis"
    by (auto simp: list_all_iff)
qed

lemma kDecode_value: "kDecode c \<noteq> 255 \<Longrightarrow> kDecode c < 64 \<and> kAlphabet ! kDecode c = c"
  using fold_table [of "\<lambda>i. kAlphabet ! i" "[0..<length kAlphabet]" "\<lambda>_. 255" c]
  by (auto simp: kDecode_def)

lemma kAlphabet_no_pad [simp]: "i < 64 \<Longrightarrow> kAlphabet ! i \<noteq> pad"
proof -
  have "pad \<notin> set kAlphabet" by code_simp
  then show "i < 64 \<Longrightarrow> ?thesis" by (metis length_kAlphabet nth_mem)
qed

text \<open>The 24-bit block and its four sextets, as arithmetic.\<close>

lemma block3: "push_bit 16 (u8 a) OR push_bit 8 (u8 b) OR u8 c = u8 a * 65536 + (u8 b * 256 + u8 c)"
proof -
  have 1: "push_bit 8 (u8 b) OR u8 c = u8 b * 256 + u8 c"
    using or_disjoint_add [of "u8 c" 8 "u8 b"] by simp
  have "u8 b * 256 + u8 c < 65536"
    using u8_less [of b] u8_less [of c] by linarith
  then have "push_bit 16 (u8 a) OR (u8 b * 256 + u8 c) = u8 a * 65536 + (u8 b * 256 + u8 c)"
    using or_disjoint_add [of "u8 b * 256 + u8 c" 16 "u8 a"] by simp
  with 1 show ?thesis by (simp add: or.assoc)
qed

lemma block4:
  assumes "v1 < 64" "v2 < 64" "v3 < 64" "v4 < 64"
  shows "push_bit 18 v1 OR push_bit 12 v2 OR push_bit 6 v3 OR v4 =
    v1 * 262144 + (v2 * 4096 + (v3 * 64 + (v4 :: nat)))"
proof -
  have 1: "push_bit 6 v3 OR v4 = v3 * 64 + v4"
    using or_disjoint_add [of v4 6 v3] assms by simp
  have 2: "push_bit 12 v2 OR (v3 * 64 + v4) = v2 * 4096 + (v3 * 64 + v4)"
    using or_disjoint_add [of "v3 * 64 + v4" 12 v2] assms by simp
  have 3: "push_bit 18 v1 OR (v2 * 4096 + (v3 * 64 + v4)) = v1 * 262144 + (v2 * 4096 + (v3 * 64 + v4))"
    using or_disjoint_add [of "v2 * 4096 + (v3 * 64 + v4)" 18 v1] assms by simp
  from 1 2 3 show ?thesis by (simp add: or.assoc)
qed

lemma sextets: "q < 16777216 \<Longrightarrow>
    q div 262144 mod 64 * 262144 + (q div 4096 mod 64 * 4096 + (q div 64 mod 64 * 64 + q mod 64)) = (q :: nat)"
proof -
  assume q: "q < 16777216"
  have a: "q = q div 64 * 64 + q mod 64" by simp
  have b: "q div 64 = q div 4096 * 64 + q div 64 mod 64"
    using div_mult_mod_eq [of "q div 64" 64] by (simp add: div_mult2_eq [symmetric])
  have c: "q div 4096 = q div 262144 * 64 + q div 4096 mod 64"
    using div_mult_mod_eq [of "q div 4096" 64] by (simp add: div_mult2_eq [symmetric])
  have d: "q div 262144 mod 64 = q div 262144"
    using q by (simp add: less_mult_imp_div_less)
  from a b c d show ?thesis by linarith
qed

lemma octets: "q < 16777216 \<Longrightarrow> q div 65536 mod 256 * 65536 + (q div 256 mod 256 * 256 + q mod 256) = (q :: nat)"
proof -
  assume q: "q < 16777216"
  have a: "q = q div 256 * 256 + q mod 256" by simp
  have b: "q div 256 = q div 65536 * 256 + q div 256 mod 256"
    using div_mult_mod_eq [of "q div 256" 256] by (simp add: div_mult2_eq [symmetric])
  have d: "q div 65536 mod 256 = q div 65536"
    using q by (simp add: less_mult_imp_div_less)
  from a b d show ?thesis by linarith
qed


lemma div_field: "r < m \<Longrightarrow> (v * m + r) div m = (v :: nat)"
  by (cases "m = 0") simp_all

lemma sextet_fields:
  assumes "v1 < 64" "v2 < 64" "v3 < 64" "v4 < (64 :: nat)"
    and q: "q = v1 * 262144 + (v2 * 4096 + (v3 * 64 + v4))"
  shows "q div 262144 mod 64 = v1" "q div 4096 mod 64 = v2" "q div 64 mod 64 = v3" "q mod 64 = v4"
    "q < 16777216"
proof -
  have "q div 262144 = v1" unfolding q by (rule div_field) (use assms in linarith)
  then show "q div 262144 mod 64 = v1" using assms by simp
  have "q div 4096 = v1 * 64 + v2"
    using div_field [of "v3 * 64 + v4" 4096 "v1 * 64 + v2"] assms by (simp add: algebra_simps)
  then show "q div 4096 mod 64 = v2" using assms by simp
  have "q div 64 = v1 * 4096 + v2 * 64 + v3"
    using div_field [of v4 64 "v1 * 4096 + v2 * 64 + v3"] assms by (simp add: algebra_simps)
  then have "q div 64 = v3 + 64 * (v1 * 64 + v2)" by simp
  then have "q div 64 mod 64 = v3 mod 64" by (simp only: mod_mult_self2)
  then show "q div 64 mod 64 = v3" using assms by simp
  have "q = v4 + 64 * (v1 * 4096 + v2 * 64 + v3)" using q by simp
  then have "q mod 64 = v4 mod 64" by (simp only: mod_mult_self2)
  then show "q mod 64 = v4" using assms by simp
  show "q < 16777216" using assms by linarith
qed

lemma octet_fields:
  assumes q: "q = u8 a * 65536 + (u8 b * 256 + u8 c)"
  shows "q div 65536 mod 256 = u8 a" "q div 256 mod 256 = u8 b" "q mod 256 = u8 c" "q < 16777216"
proof -
  note l = u8_less [of a] u8_less [of b] u8_less [of c]
  have "q div 65536 = u8 a" unfolding q by (rule div_field) (use l in linarith)
  then show "q div 65536 mod 256 = u8 a" by simp
  have "q div 256 = u8 a * 256 + u8 b"
    using div_field [of "u8 c" 256 "u8 a * 256 + u8 b"] l q by (simp add: algebra_simps)
  then show "q div 256 mod 256 = u8 b" by simp
  have "q = u8 c + 256 * (u8 a * 256 + u8 b)" using q by simp
  then show "q mod 256 = u8 c" by (simp only: mod_mult_self2) simp
  show "q < 16777216" using l q by linarith
qed

lemma low_fields2: "q = k * 256 \<Longrightarrow> q mod 64 = 0 \<and> q div 64 mod 64 mod 4 = (0 :: nat)"
proof -
  assume "q = k * 256"
  then have q: "q = (k * 4) * 64" by simp
  then have "q div 64 = k * 4" "q mod 64 = 0" by simp_all
  moreover have "k * 4 mod 64 mod 4 = 0" by (simp add: mod_mod_cancel)
  ultimately show ?thesis by simp
qed

lemma low_fields1:
  "q = k * 65536 \<Longrightarrow> q mod 64 = 0 \<and> q div 64 mod 64 = 0 \<and> q div 4096 mod 64 mod 16 = (0 :: nat)"
proof -
  assume k: "q = k * 65536"
  then have "q = (k * 16) * 4096" by simp
  then have 1: "q div 4096 = k * 16" by simp
  from k have "q = ((k * 16) * 64) * 64" by simp
  then have 2: "q div 64 = (k * 16) * 64" "q mod 64 = 0"
    by simp_all
  then have "q div 64 mod 64 = 0" by (simp only: mod_mult_self2_is_0)
  moreover have "k * 16 mod 64 mod 16 = 0" by (simp add: mod_mod_cancel)
  ultimately show ?thesis using 1 2 by simp
qed

lemmas div_forms = drop_bit_eq_div Let_def

lemma char_of_eqI: "n mod 256 = u8 c \<Longrightarrow> char_of n = c"
  by (metis char_of_char char_of_mod_256)

lemma small_not_255: "v < 64 \<Longrightarrow> v \<noteq> (255 :: nat)"
  by simp

lemma decode_block_values3:
  assumes "v1 < 64" "v2 < 64" "v3 < 64" "v4 < 64"
    and q: "v1 * 262144 + (v2 * 4096 + (v3 * 64 + v4)) = q"
  shows "base64_decode_block f (kAlphabet ! v1) (kAlphabet ! v2) (kAlphabet ! v3) (kAlphabet ! v4) =
    Inr [char_of (q div 65536), char_of (q div 256), char_of q]"
  using assms by (simp add: base64_decode_block_def div_forms block4 [OF assms(1-4)] small_not_255)

lemma decode_block_values2:
  assumes "v1 < 64" "v2 < 64" "v3 < 64" "v3 mod 4 = 0"
    and q: "v1 * 262144 + (v2 * 4096 + (v3 * 64 + 0)) = q"
  shows "base64_decode_block True (kAlphabet ! v1) (kAlphabet ! v2) (kAlphabet ! v3) pad =
    Inr [char_of (q div 65536), char_of (q div 256)]"
  using assms block4 [OF assms(1-3), of 0]
  by (simp add: base64_decode_block_def div_forms small_not_255)

lemma decode_block_values1:
  assumes "v1 < 64" "v2 < 64" "v2 mod 16 = 0"
    and q: "v1 * 262144 + (v2 * 4096 + (0 * 64 + 0)) = q"
  shows "base64_decode_block True (kAlphabet ! v1) (kAlphabet ! v2) pad pad = Inr [char_of (q div 65536)]"
  using assms block4 [OF assms(1-2), of 0 0]
  by (simp add: base64_decode_block_def div_forms small_not_255)

lemma sextet_bounds:
  "drop_bit 18 (q :: nat) AND 63 < 64" "drop_bit 12 q AND 63 < 64" "drop_bit 6 q AND 63 < 64" "q AND 63 < 64"
  by simp_all

lemma sextets_bits: "q < 16777216 \<Longrightarrow>
    (drop_bit 18 q AND 63) * 262144 + ((drop_bit 12 q AND 63) * 4096 + ((drop_bit 6 q AND 63) * 64 + (q AND 63))) = (q :: nat)"
proof -
  assume q: "q < 16777216"
  have d: "drop_bit 18 q = q div 262144" "drop_bit 12 q = q div 4096" "drop_bit 6 q = q div 64"
    by (simp_all add: drop_bit_eq_div)
  show ?thesis unfolding d and_mask6 by (rule sextets [OF q])
qed

lemma decode_block_encode3:
  assumes q: "q = u8 a * 65536 + (u8 b * 256 + u8 c)"
  shows "base64_decode_block f (kAlphabet ! (drop_bit 18 q AND 63)) (kAlphabet ! (drop_bit 12 q AND 63))
     (kAlphabet ! (drop_bit 6 q AND 63)) (kAlphabet ! (q AND 63)) = Inr [a, b, c]"
  using decode_block_values3 [OF sextet_bounds sextets_bits] octet_fields [OF q]
  by (simp add: char_of_eqI)

lemma decode_block_encode2:
  assumes q: "q = u8 a * 65536 + (u8 b * 256 + 0)"
  shows "base64_decode_block True (kAlphabet ! (drop_bit 18 q AND 63)) (kAlphabet ! (drop_bit 12 q AND 63))
     (kAlphabet ! (drop_bit 6 q AND 63)) pad = Inr [a, b]"
proof -
  have q': "q = u8 a * 65536 + (u8 b * 256 + u8 NUL_byte)" using q by simp
  have m: "q AND 63 = 0" "(drop_bit 6 q AND 63) mod 4 = 0"
    using low_fields2 [of q "u8 a * 256 + u8 b"] q by (simp_all add: drop_bit_eq_div)
  have s: "(drop_bit 18 q AND 63) * 262144 + ((drop_bit 12 q AND 63) * 4096 + ((drop_bit 6 q AND 63) * 64 + 0)) = q"
    using sextets_bits [OF octet_fields(4) [OF q']] m(1) by simp
  show ?thesis
    using decode_block_values2 [OF sextet_bounds(1-3) m(2) s] octet_fields [OF q']
    by (simp add: char_of_eqI)
qed

lemma decode_block_encode1:
  assumes q: "q = u8 a * 65536 + (0 * 256 + 0)"
  shows "base64_decode_block True (kAlphabet ! (drop_bit 18 q AND 63)) (kAlphabet ! (drop_bit 12 q AND 63))
     pad pad = Inr [a]"
proof -
  have q': "q = u8 a * 65536 + (u8 NUL_byte * 256 + u8 NUL_byte)" using q by simp
  have m: "q AND 63 = 0" "drop_bit 6 q AND 63 = 0" "(drop_bit 12 q AND 63) mod 16 = 0"
    using low_fields1 [of q "u8 a"] q by (simp_all add: drop_bit_eq_div)
  have s: "(drop_bit 18 q AND 63) * 262144 + ((drop_bit 12 q AND 63) * 4096 + (0 * 64 + 0)) = q"
    using sextets_bits [OF octet_fields(4) [OF q']] m(1,2) by simp
  show ?thesis
    using decode_block_values1 [OF sextet_bounds(1-2) m(3) s] octet_fields [OF q']
    by (simp add: char_of_eqI)
qed

lemma length_base64_encode_blocks [wire_simps]:
  "length (base64_encode_blocks b) = 4 * ((length b + 2) div 3)"
proof (induction b rule: base64_encode_blocks.induct)
  case (4 a b c rest)
  have "(length (a # b # c # rest) + 2) div 3 = Suc ((length rest + 2) div 3)"
    using div_add_self2 [of 3 "length rest + 2"] by (simp add: add.commute)
  with 4 show ?case by (simp add: Let_def)
qed (simp_all add: Let_def)

lemma base64_decode_blocks_encode: "base64_decode_blocks (base64_encode_blocks b) = Inr b"
proof (induction b rule: base64_encode_blocks.induct)
  case (2 a)
  show ?case
    using block3 [of a NUL_byte NUL_byte] decode_block_encode1 [of "push_bit 16 (u8 a)" a]
    by (simp add: Let_def push_bit_eq_mult)
next
  case (3 a b)
  show ?case
    using block3 [of a b NUL_byte] decode_block_encode2 [of "push_bit 16 (u8 a) OR push_bit 8 (u8 b)" a b]
    by (simp add: Let_def)
next
  case (4 a b c rest)
  show ?case
    using 4 decode_block_encode3 [OF block3 [of a b c]] by (simp add: Let_def)
qed simp

lemma base64_decode_encode: "base64_decode (base64_encode_blocks b) = Inr b"
proof (cases "base64_encode_blocks b = []")
  case True
  then have "b = []" using length_base64_encode_blocks [of b] by (cases b) auto
  then show ?thesis by (simp add: base64_decode_def)
next
  case False
  then show ?thesis
    by (simp add: base64_decode_def base64_decode_blocks_encode length_base64_encode_blocks)
qed


text \<open>
  Strictness: an accepted text is exactly the encoding of the bytes it decodes to. No other spelling
  of the same bytes, and no stray padding, is let through.
\<close>

lemma encode_blocks_fields:
  assumes q: "q < 16777216"
  shows "base64_encode_blocks (char_of (q div 65536) # char_of (q div 256) # char_of q # rest) =
      [kAlphabet ! (q div 262144 mod 64), kAlphabet ! (q div 4096 mod 64), kAlphabet ! (q div 64 mod 64),
       kAlphabet ! (q mod 64)] @ base64_encode_blocks rest"
    and "q mod 256 = 0 \<Longrightarrow> base64_encode_blocks [char_of (q div 65536), char_of (q div 256)] =
      [kAlphabet ! (q div 262144 mod 64), kAlphabet ! (q div 4096 mod 64), kAlphabet ! (q div 64 mod 64), pad]"
    and "q mod 65536 = 0 \<Longrightarrow> base64_encode_blocks [char_of (q div 65536)] =
      [kAlphabet ! (q div 262144 mod 64), kAlphabet ! (q div 4096 mod 64), pad, pad]"
proof -
  have d: "drop_bit 18 q = q div 262144" "drop_bit 12 q = q div 4096" "drop_bit 6 q = q div 64"
    by (simp_all add: drop_bit_eq_div)
  have b: "push_bit 16 (u8 (char_of (q div 65536))) OR push_bit 8 (u8 (char_of (q div 256))) OR u8 (char_of q) = q"
    unfolding block3 unfolding of_char_of by (rule octets [OF q])
  show "base64_encode_blocks (char_of (q div 65536) # char_of (q div 256) # char_of q # rest) =
      [kAlphabet ! (q div 262144 mod 64), kAlphabet ! (q div 4096 mod 64), kAlphabet ! (q div 64 mod 64),
       kAlphabet ! (q mod 64)] @ base64_encode_blocks rest"
    unfolding base64_encode_blocks.simps Let_def b d and_mask6 by simp
  show "base64_encode_blocks [char_of (q div 65536), char_of (q div 256)] =
      [kAlphabet ! (q div 262144 mod 64), kAlphabet ! (q div 4096 mod 64), kAlphabet ! (q div 64 mod 64), pad]"
    if z: "q mod 256 = 0"
  proof -
    have "u8 (char_of q) = 0" using z by simp
    then have b2: "push_bit 16 (u8 (char_of (q div 65536))) OR push_bit 8 (u8 (char_of (q div 256))) OR 0 = q"
      using b by simp
    show ?thesis unfolding base64_encode_blocks.simps Let_def b2 d and_mask6 by simp
  qed
  show "base64_encode_blocks [char_of (q div 65536)] =
      [kAlphabet ! (q div 262144 mod 64), kAlphabet ! (q div 4096 mod 64), pad, pad]"
    if z: "q mod 65536 = 0"
  proof -
    obtain k where k: "q = k * 65536" using z by (auto elim: dvdE)
    then have "q = (k * 256) * 256" by simp
    then have "q div 256 mod 256 = 0" "q mod 256 = 0" by simp_all
    then have "u8 (char_of (q div 256)) = 0" "u8 (char_of q) = 0" by simp_all
    then have b1: "push_bit 16 (u8 (char_of (q div 65536))) OR 0 OR 0 = q"
      using b by simp
    show ?thesis unfolding base64_encode_blocks.simps Let_def b1 d and_mask6 by simp
  qed
qed

lemma decode_block_cases:
  assumes "base64_decode_block f c1 c2 c3 c4 = Inr out"
  obtains (full) a b c where "out = [a, b, c]" "\<And>rest. base64_encode_blocks (a # b # c # rest) =
        c1 # c2 # c3 # c4 # base64_encode_blocks rest"
    | (two) a b where "f" "out = [a, b]" "base64_encode_blocks [a, b] = [c1, c2, c3, c4]"
    | (one) a where "f" "out = [a]" "base64_encode_blocks [a] = [c1, c2, c3, c4]"
proof -
  let ?v3 = "if c3 = pad then 0 else kDecode c3" and ?v4 = "if c4 = pad then 0 else kDecode c4"
  let ?q = "kDecode c1 * 262144 + (kDecode c2 * 4096 + (?v3 * 64 + ?v4))"
  have v: "kDecode c1 \<noteq> 255" "kDecode c2 \<noteq> 255" "?v3 \<noteq> 255" "?v4 \<noteq> 255"
    using assms by (auto simp: base64_decode_block_def Let_def split: if_splits)
  have b: "kDecode c1 < 64" "kDecode c2 < 64" "?v3 < 64" "?v4 < 64"
    and a: "kAlphabet ! kDecode c1 = c1" "kAlphabet ! kDecode c2 = c2"
      "c3 \<noteq> pad \<Longrightarrow> kAlphabet ! ?v3 = c3" "c4 \<noteq> pad \<Longrightarrow> kAlphabet ! ?v4 = c4"
    using v kDecode_value by (auto split: if_splits)
  note s = sextet_fields [OF b refl]
  have d: "drop_bit 16 ?q = ?q div 65536" "drop_bit 8 ?q = ?q div 256"
    by (simp_all add: drop_bit_eq_div)
  have out: "out = [char_of (?q div 65536)] @ (if c3 \<noteq> pad then [char_of (?q div 256)] else []) @
      (if c4 \<noteq> pad then [char_of ?q] else [])"
    using assms unfolding base64_decode_block_def Let_def block4 [OF b] d
    by (auto split: if_splits)
  consider (3) "c3 \<noteq> pad" "c4 \<noteq> pad" | (2) "c3 \<noteq> pad" "c4 = pad" "f" "kDecode c3 mod 4 = 0"
    | (1) "c3 = pad" "c4 = pad" "f" "kDecode c2 mod 16 = 0"
    using assms unfolding base64_decode_block_def Let_def by (auto split: if_splits)
  then show thesis
  proof cases
    case 3
    show thesis
    proof (rule full)
      show "out = [char_of (?q div 65536), char_of (?q div 256), char_of ?q]" using out 3 by simp
      show "\<And>rest. base64_encode_blocks (char_of (?q div 65536) # char_of (?q div 256) # char_of ?q # rest) =
          c1 # c2 # c3 # c4 # base64_encode_blocks rest"
        unfolding encode_blocks_fields(1) [OF s(5)] s using a 3 by simp
    qed
  next
    case 2
    then obtain k where "kDecode c3 = 4 * k" by (auto elim: dvdE)
    then have "?q = 256 * (kDecode c1 * 1024 + kDecode c2 * 16 + k)" using 2 by simp
    then have z: "?q mod 256 = 0" by (metis mod_mult_self1_is_0)
    show thesis
    proof (rule two)
      show "out = [char_of (?q div 65536), char_of (?q div 256)]" using out 2 by simp
      show "base64_encode_blocks [char_of (?q div 65536), char_of (?q div 256)] = [c1, c2, c3, c4]"
        unfolding encode_blocks_fields(2) [OF s(5) z] s using a 2 by simp
    qed (rule 2)
  next
    case 1
    then obtain k where "kDecode c2 = 16 * k" by (auto elim: dvdE)
    then have "?q = 65536 * (kDecode c1 * 4 + k)" using 1 by simp
    then have z: "?q mod 65536 = 0" by (metis mod_mult_self1_is_0)
    show thesis
    proof (rule one)
      show "out = [char_of (?q div 65536)]" using out 1 by simp
      show "base64_encode_blocks [char_of (?q div 65536)] = [c1, c2, c3, c4]"
        unfolding encode_blocks_fields(3) [OF s(5) z] s using a 1 by simp
    qed (rule 1)
  qed
qed

lemma base64_encode_decode_blocks:
  "length s mod 4 = 0 \<Longrightarrow> base64_decode_blocks s = Inr b \<Longrightarrow> base64_encode_blocks b = s"
proof (induction s arbitrary: b rule: base64_decode_blocks.induct)
  case (1 c1 c2 c3 c4 rest)
  from 1(3) obtain out more where d: "base64_decode_block (rest = []) c1 c2 c3 c4 = Inr out"
    and m: "base64_decode_blocks rest = Inr more" and b: "b = out @ more"
    by auto
  have rest: "base64_encode_blocks more = rest"
    by (rule 1(1) [OF d _ m]) (use 1(2) in simp)
  from d show ?case
  proof (cases rule: decode_block_cases)
    case (full a b' c)
    then show ?thesis using b rest by simp
  next
    case (two a b')
    then show ?thesis using b rest m by simp
  next
    case (one a)
    then show ?thesis using b rest m by simp
  qed
qed (simp_all)

lemma base64_encode_decode: "base64_decode s = Inr b \<Longrightarrow> base64_encode_blocks b = s"
  by (auto simp: base64_decode_def base64_encode_decode_blocks split: if_splits)

definition base64_text :: "string \<Rightarrow> bytes option" where
  "base64_text s = (case base64_decode s of Inl e \<Rightarrow> None | Inr b \<Rightarrow> Some b)"

interpretation b64: canonical_codec "\<lambda>_. True" base64_encode_blocks base64_text
  by unfold_locales
    (auto simp: base64_text_def base64_decode_encode base64_encode_decode split: sum.splits)

subsection \<open>The codecs are exact\<close>

text \<open>
  C27: base64 is a bijection between byte strings and the texts the decoder accepts. For an input within the
  size limit of the encoder, the encoder gives the text \<open>s\<close> if and only if the decoder reads \<open>s\<close> back as
  that input: the decoder rejects every other spelling, such as padding inside the text or nonzero bits
  behind the last byte.
\<close>

theorem base64_canonical:
  assumes "length b \<le> (max_size_t - 2) div 4 * 3"
  shows "base64_encode b = Inr s \<longleftrightarrow> base64_decode s = Inr b"
  using assms b64.decode_iff [of s b]
  by (auto simp: base64_encode_def base64_text_def split: sum.splits)

theorem base64_canonical_witness:
  "base64_encode ''Ma'' = Inr ''TWE='' \<and> base64_decode ''TWE='' = Inr ''Ma''"
proof -
  have "base64_encode ''Ma'' = Inr ''TWE=''"
    by (simp add: base64_encode_def max_size_t_def kAlphabet_def)
  then show ?thesis using base64_canonical [of "''Ma''" "''TWE=''"] by (simp add: max_size_t_def)
qed



end
