(* ===== verification/Utf8.thy ===== *)
theory Utf8
  imports Text_Codecs
begin

section \<open>UTF-8\<close>

text \<open>
  \<^verbatim>\<open>sdk/src/util/utf8.cpp\<close> (decoding, counting and repairing UTF-8) and the encoder \<open>append_utf8\<close> of
  \<^verbatim>\<open>odbc/unicode.cpp\<close>. Every string the driver publishes passes through these. A code point is a
  \<^typ>\<open>nat\<close>: the \<^verbatim>\<open>uint32_t\<close> accumulators never exceed 21 bits. The lemmas show that the decoder is
  the exact inverse of the encoder on Unicode scalar values, that a text is counted exactly when it
  is a sequence of encoded scalars, and that repairing always gives such a sequence and leaves
  valid text alone.
\<close>

subsection \<open>UTF-8 (utf8.cpp)\<close>

fun utf8_continuation :: "nat \<Rightarrow> string \<Rightarrow> nat \<Rightarrow> nat \<Rightarrow> (nat \<times> nat) option" where
  "utf8_continuation 0 input offset code_point = Some (code_point, offset)"
| "utf8_continuation (Suc n) input offset code_point =
     (let byte = u8 (input ! offset)
      in if byte AND 0xc0 \<noteq> 0x80 then None
         else utf8_continuation n input (offset + 1) (push_bit 6 code_point OR (byte AND 0x3f)))"

text \<open>The lead byte gives the number of continuation bytes, its payload and the least code point.\<close>

definition utf8_lead :: "nat \<Rightarrow> (nat \<times> nat \<times> nat) option" where
  "utf8_lead first =
     (if first AND 0xe0 = 0xc0 then Some (1, first AND 0x1f, 0x80)
      else if first AND 0xf0 = 0xe0 then Some (2, first AND 0x0f, 0x800)
      else if first AND 0xf8 = 0xf0 then Some (3, first AND 0x07, 0x10000)
      else None)"

definition next_utf8_code_point :: "string \<Rightarrow> nat \<Rightarrow> (nat \<times> nat) option" where
  "next_utf8_code_point input offset =
     (if length input \<le> offset then None
      else let first = u8 (input ! offset); offset = offset + 1
      in if first \<le> 0x7f then Some (first, offset)
         else case utf8_lead first of
             None \<Rightarrow> None
           | Some (continuation_count, code_point, minimum) \<Rightarrow>
               if length input - offset < continuation_count then None
               else case utf8_continuation continuation_count input offset code_point of
                   None \<Rightarrow> None
                 | Some (code_point, offset) \<Rightarrow>
                     if code_point < minimum \<or> 0x10ffff < code_point \<or>
                        (0xd800 \<le> code_point \<and> code_point \<le> 0xdfff)
                     then None else Some (code_point, offset))"

lemma utf8_continuation_offset:
  "utf8_continuation n input offset cp = Some (cp', offset') \<Longrightarrow> offset' = offset + n"
  by (induction n input offset cp rule: utf8_continuation.induct) (auto simp: Let_def split: if_splits)

lemma next_utf8_advances:
  "next_utf8_code_point input offset = Some (cp, offset') \<Longrightarrow> offset < offset' \<and> offset' \<le> length input"
  by (auto simp: next_utf8_code_point_def Let_def dest: utf8_continuation_offset
      split: if_splits option.splits prod.splits)

function utf8_count_loop :: "string \<Rightarrow> nat \<Rightarrow> nat \<Rightarrow> nat option" where
  "utf8_count_loop input offset n =
     (if offset < length input
      then case next_utf8_code_point input offset of
          None \<Rightarrow> None
        | Some (cp, offset') \<Rightarrow> utf8_count_loop input offset' (n + 1)
      else Some n)"
  by pat_completeness auto
termination
  by (relation "measure (\<lambda>(input, offset, n). length input - offset)")
    (auto dest: next_utf8_advances intro!: diff_less_mono2)

declare utf8_count_loop.simps [simp del]

definition utf8_code_point_count :: "string \<Rightarrow> nat option" where
  "utf8_code_point_count input = utf8_count_loop input 0 0"

definition replacement_character :: string where
  "replacement_character = [CHR 0xEF, CHR 0xBF, CHR 0xBD]"

function replace_invalid_loop :: "string \<Rightarrow> nat \<Rightarrow> string" where
  "replace_invalid_loop input offset =
     (if offset < length input
      then case next_utf8_code_point input offset of
          Some (cp, offset') \<Rightarrow> substr offset (offset' - offset) input @ replace_invalid_loop input offset'
        | None \<Rightarrow> replacement_character @ replace_invalid_loop input (offset + 1)
      else [])"
  by pat_completeness auto
termination
  by (relation "measure (\<lambda>(input, offset). length input - offset)")
    (auto dest: next_utf8_advances intro!: diff_less_mono2)

declare replace_invalid_loop.simps [simp del]

definition replace_invalid_utf8 :: "string \<Rightarrow> string" where
  "replace_invalid_utf8 input = replace_invalid_loop input 0"

subsection \<open>Encoding a code point (unicode.cpp)\<close>

text \<open>\<open>append_utf8\<close>: \<open>None\<close> is the result \<^verbatim>\<open>false\<close>, which leaves the output as it was.\<close>

definition append_utf8 :: "string \<Rightarrow> nat \<Rightarrow> string option" where
  "append_utf8 output cp =
     (if cp \<le> 0x7f then Some (output @ [char_of cp])
      else if cp \<le> 0x7ff then
        Some (output @ [char_of (0xc0 OR drop_bit 6 cp), char_of (0x80 OR (cp AND 0x3f))])
      else if cp \<le> 0xffff then
        (if 0xd800 \<le> cp \<and> cp \<le> 0xdfff then None
         else Some (output @ [char_of (0xe0 OR drop_bit 12 cp), char_of (0x80 OR (drop_bit 6 cp AND 0x3f)),
                              char_of (0x80 OR (cp AND 0x3f))]))
      else if cp \<le> 0x10ffff then
        Some (output @ [char_of (0xf0 OR drop_bit 18 cp), char_of (0x80 OR (drop_bit 12 cp AND 0x3f)),
                        char_of (0x80 OR (drop_bit 6 cp AND 0x3f)), char_of (0x80 OR (cp AND 0x3f))])
      else None)"

text \<open>Unicode scalar values, and the bytes of one of them.\<close>

definition scalar :: "nat \<Rightarrow> bool" where
  "scalar cp \<longleftrightarrow> cp \<le> 0x10ffff \<and> \<not> (0xd800 \<le> cp \<and> cp \<le> 0xdfff)"

definition utf8_bytes :: "nat \<Rightarrow> string" where
  "utf8_bytes cp = (case append_utf8 [] cp of None \<Rightarrow> [] | Some s \<Rightarrow> s)"

lemma append_utf8_eq: "append_utf8 output cp = (if scalar cp then Some (output @ utf8_bytes cp) else None)"
  by (auto simp: append_utf8_def utf8_bytes_def scalar_def)

subsection \<open>The bit patterns as arithmetic\<close>

lemma and_mask5 [simp]: "(n :: nat) AND 31 = n mod 32"
  using take_bit_eq_mask [of 5 n] by (simp add: take_bit_eq_mod mask_eq_exp_minus_1)

lemma and_mask3 [simp]: "(n :: nat) AND 7 = n mod 8"
  using take_bit_eq_mask [of 3 n] by (simp add: take_bit_eq_mod mask_eq_exp_minus_1)

lemma and_push_bit: "(n :: nat) AND push_bit k m = push_bit k (drop_bit k n AND m)"
  by (rule bit_eqI) (auto simp: bit_and_iff bit_push_bit_iff bit_drop_bit_eq)

lemma and_high:
  assumes "(n :: nat) < 256"
  shows "n AND 0xe0 = n div 32 * 32" "n AND 0xf0 = n div 16 * 16" "n AND 0xf8 = n div 8 * 8"
    "n AND 0xc0 = n div 64 * 64"
proof -
  have "n div 32 < 8" "n div 16 < 16" "n div 8 < 32" "n div 64 < 4"
    using assms by (simp_all add: less_mult_imp_div_less)
  then show "n AND 0xe0 = n div 32 * 32" "n AND 0xf0 = n div 16 * 16" "n AND 0xf8 = n div 8 * 8"
    "n AND 0xc0 = n div 64 * 64"
    using and_push_bit [of n 5 7] and_push_bit [of n 4 15] and_push_bit [of n 3 31] and_push_bit [of n 6 3]
    by (simp_all add: push_bit_eq_mult drop_bit_eq_div)
qed

lemma div_eq_range: "0 < m \<Longrightarrow> (n div m * m = q * m) = (q * m \<le> n \<and> n < q * m + (m :: nat))"
proof -
  assume m: "0 < m"
  have "(n div m = q) = (q * m \<le> n \<and> n < q * m + m)"
  proof
    assume "n div m = q"
    then have "n = q * m + n mod m" using div_mult_mod_eq [of n m] by simp
    then show "q * m \<le> n \<and> n < q * m + m"
      using mod_less_divisor [OF m, of n] by linarith
  next
    assume "q * m \<le> n \<and> n < q * m + m"
    then show "n div m = q" by (intro div_nat_eqI) (simp_all add: algebra_simps)
  qed
  with m show ?thesis by simp
qed

lemma lead_patterns:
  assumes "(n :: nat) < 256"
  shows "(n AND 0xe0 = 0xc0) = (192 \<le> n \<and> n < 224)" "(n AND 0xf0 = 0xe0) = (224 \<le> n \<and> n < 240)"
    "(n AND 0xf8 = 0xf0) = (240 \<le> n \<and> n < 248)" "(n AND 0xc0 = 0x80) = (128 \<le> n \<and> n < 192)"
  unfolding and_high [OF assms]
  using div_eq_range [of 32 n 6] div_eq_range [of 16 n 14] div_eq_range [of 8 n 30] div_eq_range [of 64 n 2]
  by simp_all

lemma or_prefixes:
  "b < 64 \<Longrightarrow> 0x80 OR b = 128 + (b :: nat)" "b < 32 \<Longrightarrow> 0xc0 OR b = 192 + b"
  "b < 16 \<Longrightarrow> 0xe0 OR b = 224 + b" "b < 8 \<Longrightarrow> 0xf0 OR b = 240 + b"
  using or_disjoint_add [of b 7 1] or_disjoint_add [of b 6 3] or_disjoint_add [of b 5 7]
    or_disjoint_add [of b 4 15]
  by (simp_all add: push_bit_eq_mult)

lemma or_shift6: "push_bit 6 a OR (b mod 64) = a * 64 + b mod (64 :: nat)"
  using or_disjoint_add [of "b mod 64" 6 a] by simp


lemma utf8_bytes_forms:
  "cp \<le> 0x7f \<Longrightarrow> utf8_bytes cp = [char_of cp]"
  "0x80 \<le> cp \<Longrightarrow> cp \<le> 0x7ff \<Longrightarrow> utf8_bytes cp = [char_of (192 + cp div 64), char_of (128 + cp mod 64)]"
  "0x800 \<le> cp \<Longrightarrow> cp \<le> 0xffff \<Longrightarrow> scalar cp \<Longrightarrow>
    utf8_bytes cp = [char_of (224 + cp div 4096), char_of (128 + cp div 64 mod 64), char_of (128 + cp mod 64)]"
  "0x10000 \<le> cp \<Longrightarrow> cp \<le> 0x10ffff \<Longrightarrow>
    utf8_bytes cp = [char_of (240 + cp div 262144), char_of (128 + cp div 4096 mod 64),
      char_of (128 + cp div 64 mod 64), char_of (128 + cp mod 64)]"
proof -
  have d: "drop_bit 6 cp = cp div 64" "drop_bit 12 cp = cp div 4096" "drop_bit 18 cp = cp div 262144"
    by (simp_all add: drop_bit_eq_div)
  show "cp \<le> 0x7f \<Longrightarrow> utf8_bytes cp = [char_of cp]"
    by (simp add: utf8_bytes_def append_utf8_def)
  show "utf8_bytes cp = [char_of (192 + cp div 64), char_of (128 + cp mod 64)]" if c: "0x80 \<le> cp" "cp \<le> 0x7ff"
  proof -
    have "cp div 64 < 32" using c by linarith
    with c show ?thesis by (simp add: utf8_bytes_def append_utf8_def d or_prefixes)
  qed
  show "utf8_bytes cp = [char_of (224 + cp div 4096), char_of (128 + cp div 64 mod 64), char_of (128 + cp mod 64)]"
    if c: "0x800 \<le> cp" "cp \<le> 0xffff" "scalar cp"
  proof -
    have "cp div 4096 < 16" using c by linarith
    with c show ?thesis by (simp add: utf8_bytes_def append_utf8_def scalar_def d or_prefixes)
  qed
  show "utf8_bytes cp = [char_of (240 + cp div 262144), char_of (128 + cp div 4096 mod 64),
      char_of (128 + cp div 64 mod 64), char_of (128 + cp mod 64)]" if c: "0x10000 \<le> cp" "cp \<le> 0x10ffff"
  proof -
    have "cp div 262144 < 8" using c by linarith
    with c show ?thesis by (simp add: utf8_bytes_def append_utf8_def d or_prefixes)
  qed
qed

lemma take_drop_nth: "off + n \<le> length xs \<Longrightarrow> take n (drop off xs) = map (\<lambda>i. xs ! (off + i)) [0..<n]"
  by (rule nth_equalityI) simp_all

lemma utf8_lead_eq:
  "n < 256 \<Longrightarrow> utf8_lead n =
     (if 192 \<le> n \<and> n < 224 then Some (1, n mod 32, 0x80)
      else if 224 \<le> n \<and> n < 240 then Some (2, n mod 16, 0x800)
      else if 240 \<le> n \<and> n < 248 then Some (3, n mod 8, 0x10000) else None)"
  by (simp add: utf8_lead_def lead_patterns)

lemma utf8_continuation_eq:
  "utf8_continuation (Suc n) input offset cp =
     (let b = u8 (input ! offset)
      in if 128 \<le> b \<and> b < 192 then utf8_continuation n input (Suc offset) (cp * 64 + b mod 64) else None)"
  using lead_patterns(4) [OF u8_less [of "input ! offset"]] by (simp add: Let_def or_shift6)

lemma suc_numerals: "(1 :: nat) = Suc 0" "(2 :: nat) = Suc (Suc 0)" "(3 :: nat) = Suc (Suc (Suc 0))"
  by simp_all

lemma utf8_continuations:
  "utf8_continuation (Suc 0) input offset cp =
     (let b = u8 (input ! offset) in if 128 \<le> b \<and> b < 192 then Some (cp * 64 + b mod 64, offset + 1) else None)"
  "utf8_continuation 2 input offset cp =
     (let b = u8 (input ! offset); c = u8 (input ! (offset + 1))
      in if 128 \<le> b \<and> b < 192 \<and> 128 \<le> c \<and> c < 192
         then Some ((cp * 64 + b mod 64) * 64 + c mod 64, offset + 2) else None)"
  "utf8_continuation 3 input offset cp =
     (let b = u8 (input ! offset); c = u8 (input ! (offset + 1)); d = u8 (input ! (offset + 2))
      in if 128 \<le> b \<and> b < 192 \<and> 128 \<le> c \<and> c < 192 \<and> 128 \<le> d \<and> d < 192
         then Some (((cp * 64 + b mod 64) * 64 + c mod 64) * 64 + d mod 64, offset + 3) else None)"
  unfolding suc_numerals utf8_continuation_eq by (simp_all add: Let_def)

declare utf8_continuation.simps [simp del]


lemma prefix_mod:
  "x < 32 \<Longrightarrow> (192 + x) mod 32 = (x :: nat)" "x < 16 \<Longrightarrow> (224 + x) mod 16 = x"
  "x < 8 \<Longrightarrow> (240 + x) mod 8 = x" "x < 64 \<Longrightarrow> (128 + x) mod 64 = x"
  using mod_mult_self4 [of 32 6 x] mod_mult_self4 [of 16 14 x] mod_mult_self4 [of 8 30 x] mod_mult_self4 [of 64 2 x]
  by simp_all

lemma recombine:
  "cp div 64 * 64 + cp mod 64 = (cp :: nat)"
  "(cp div 4096 * 64 + cp div 64 mod 64) * 64 + cp mod 64 = cp"
  "((cp div 262144 * 64 + cp div 4096 mod 64) * 64 + cp div 64 mod 64) * 64 + cp mod 64 = cp"
proof -
  have 1: "cp div 4096 * 64 + cp div 64 mod 64 = cp div 64"
    using div_mult_mod_eq [of "cp div 64" 64] by (simp add: div_mult2_eq [symmetric])
  have 2: "cp div 262144 * 64 + cp div 4096 mod 64 = cp div 4096"
    using div_mult_mod_eq [of "cp div 4096" 64] by (simp add: div_mult2_eq [symmetric])
  show "cp div 64 * 64 + cp mod 64 = cp" by simp
  then show "(cp div 4096 * 64 + cp div 64 mod 64) * 64 + cp mod 64 = cp" unfolding 1 .
  then show "((cp div 262144 * 64 + cp div 4096 mod 64) * 64 + cp div 64 mod 64) * 64 + cp mod 64 = cp"
    unfolding 2 .
qed

text \<open>
  Reading at the start of an encoded scalar gives that scalar and the offset after it, whatever
  stands before and behind it.
\<close>

lemma next_utf8_put:
  assumes "scalar cp"
  shows "next_utf8_code_point (pre @ utf8_bytes cp @ post) (length pre) =
    Some (cp, length pre + length (utf8_bytes cp))"
proof -
  consider (1) "cp \<le> 0x7f" | (2) "0x80 \<le> cp" "cp \<le> 0x7ff" | (3) "0x800 \<le> cp" "cp \<le> 0xffff"
    | (4) "0x10000 \<le> cp" "cp \<le> 0x10ffff"
    using assms unfolding scalar_def by linarith
  then show ?thesis
  proof cases
    case 1
    then show ?thesis by (simp add: utf8_bytes_forms next_utf8_code_point_def)
  next
    case 2
    have b: "cp div 64 < 32" using 2 by linarith
    show ?thesis
      using 2 b assms recombine(1) [of cp]
      by (simp add: utf8_bytes_forms next_utf8_code_point_def Let_def nth_append utf8_lead_eq
          utf8_continuations(1) prefix_mod scalar_def)
  next
    case 3
    have b: "cp div 4096 < 16" using 3 by linarith
    show ?thesis
      using 3 b assms recombine(2) [of cp]
      by (simp add: utf8_bytes_forms next_utf8_code_point_def Let_def nth_append utf8_lead_eq
          utf8_continuations(2) prefix_mod scalar_def)
  next
    case 4
    have b: "cp div 262144 < 8" using 4 by linarith
    show ?thesis
      using 4 b assms recombine(3) [of cp]
      by (simp add: utf8_bytes_forms next_utf8_code_point_def Let_def nth_append utf8_lead_eq
          utf8_continuations(3) prefix_mod scalar_def)
  qed
qed


lemma prefix_mod_minus:
  "192 \<le> n \<Longrightarrow> n < 224 \<Longrightarrow> n mod 32 = n - (192 :: nat)" "224 \<le> n \<Longrightarrow> n < 240 \<Longrightarrow> n mod 16 = n - 224"
  "240 \<le> n \<Longrightarrow> n < 248 \<Longrightarrow> n mod 8 = n - 240" "128 \<le> n \<Longrightarrow> n < 192 \<Longrightarrow> n mod 64 = n - 128"
  using prefix_mod(1) [of "n - 192"] prefix_mod(2) [of "n - 224"] prefix_mod(3) [of "n - 240"]
    prefix_mod(4) [of "n - 128"] by simp_all

lemma fields_of_sum:
  assumes "x < 64" "y < 64" "z < (64 :: nat)"
  shows "(w * 64 + x) div 64 = w" "(w * 64 + x) mod 64 = x"
    "((w * 64 + x) * 64 + y) div 4096 = w"
    "(((w * 64 + x) * 64 + y) * 64 + z) div 4096 = w * 64 + x"
    "(((w * 64 + x) * 64 + y) * 64 + z) div 262144 = w"
proof -
  show "(w * 64 + x) div 64 = w" "(w * 64 + x) mod 64 = x" using assms by simp_all
  show "((w * 64 + x) * 64 + y) div 4096 = w"
    using div_field [of "x * 64 + y" 4096 w] assms by (simp add: algebra_simps)
  show "(((w * 64 + x) * 64 + y) * 64 + z) div 4096 = w * 64 + x"
    using div_field [of "y * 64 + z" 4096 "w * 64 + x"] assms by (simp add: algebra_simps)
  show "(((w * 64 + x) * 64 + y) * 64 + z) div 262144 = w"
    using div_field [of "x * 4096 + y * 64 + z" 262144 w] assms by (simp add: algebra_simps)
qed

lemma continuation_byte:
  "128 \<le> b \<Longrightarrow> b < 192 \<Longrightarrow> \<exists>x. b = 128 + x \<and> x < 64 \<and> b mod 64 = (x :: nat)"
  by (rule exI [of _ "b - 128"]) (simp add: prefix_mod_minus)

lemma next_utf8_cases:
  assumes "next_utf8_code_point input off = Some (cp, off')"
  obtains (one) "off < length input" "u8 (input ! off) \<le> 127" "cp = u8 (input ! off)" "off' = off + 1"
    | (two) w x where "off + 2 \<le> length input" "u8 (input ! off) = 192 + w" "w < 32"
        "u8 (input ! (off + 1)) = 128 + x" "x < 64" "cp = w * 64 + x" "0x80 \<le> cp" "off' = off + 2"
    | (three) w x y where "off + 3 \<le> length input" "u8 (input ! off) = 224 + w" "w < 16"
        "u8 (input ! (off + 1)) = 128 + x" "x < 64" "u8 (input ! (off + 2)) = 128 + y" "y < 64"
        "cp = (w * 64 + x) * 64 + y" "0x800 \<le> cp" "scalar cp" "off' = off + 3"
    | (four) w x y z where "off + 4 \<le> length input" "u8 (input ! off) = 240 + w" "w < 8"
        "u8 (input ! (off + 1)) = 128 + x" "x < 64" "u8 (input ! (off + 2)) = 128 + y" "y < 64"
        "u8 (input ! (off + 3)) = 128 + z" "z < 64"
        "cp = ((w * 64 + x) * 64 + y) * 64 + z" "0x10000 \<le> cp" "scalar cp" "off' = off + 4"
proof -
  have off: "off < length input" using next_utf8_advances [OF assms] by simp
  let ?f = "u8 (input ! off)"
  consider (1) "?f \<le> 127" | (2) "192 \<le> ?f" "?f < 224" | (3) "224 \<le> ?f" "?f < 240" | (4) "240 \<le> ?f" "?f < 248"
    using assms off by (auto simp: next_utf8_code_point_def Let_def utf8_lead_eq split: if_splits)
  then show thesis
  proof cases
    case 1
    then show ?thesis using assms off by (intro one) (auto simp: next_utf8_code_point_def Let_def)
  next
    case 2
    then obtain w where w: "?f = 192 + w" "w < 32" using le_Suc_ex by fastforce
    from assms off w have c: "off + 2 \<le> length input" "128 \<le> u8 (input ! (off + 1))" "u8 (input ! (off + 1)) < 192"
        "cp = w * 64 + u8 (input ! (off + 1)) mod 64" "0x80 \<le> cp" "off' = off + 2"
      by (auto simp: next_utf8_code_point_def Let_def utf8_lead_eq utf8_continuations prefix_mod split: if_splits)
    from continuation_byte [OF c(2,3)] show ?thesis using two w c by metis
  next
    case 3
    then obtain w where w: "?f = 224 + w" "w < 16" using le_Suc_ex by fastforce
    from assms off w have c: "off + 3 \<le> length input" "128 \<le> u8 (input ! (off + 1))" "u8 (input ! (off + 1)) < 192"
        "128 \<le> u8 (input ! (off + 2))" "u8 (input ! (off + 2)) < 192"
        "cp = (w * 64 + u8 (input ! (off + 1)) mod 64) * 64 + u8 (input ! (off + 2)) mod 64"
        "0x800 \<le> cp" "scalar cp" "off' = off + 3"
      by (auto simp: next_utf8_code_point_def Let_def utf8_lead_eq utf8_continuations prefix_mod scalar_def
          split: if_splits)
    from continuation_byte [OF c(2,3)] continuation_byte [OF c(4,5)] show ?thesis using three w c by metis
  next
    case 4
    then obtain w where w: "?f = 240 + w" "w < 8" using le_Suc_ex by fastforce
    have i3: "Suc (Suc (Suc off)) = off + 3" by simp
    from assms off w have c: "off + 4 \<le> length input" "128 \<le> u8 (input ! (off + 1))" "u8 (input ! (off + 1)) < 192"
        "128 \<le> u8 (input ! (off + 2))" "u8 (input ! (off + 2)) < 192"
        "128 \<le> u8 (input ! (off + 3))" "u8 (input ! (off + 3)) < 192"
        "cp = ((w * 64 + u8 (input ! (off + 1)) mod 64) * 64 + u8 (input ! (off + 2)) mod 64) * 64 +
          u8 (input ! (off + 3)) mod 64"
        "0x10000 \<le> cp" "scalar cp" "off' = off + 4"
      by (auto simp: next_utf8_code_point_def Let_def utf8_lead_eq utf8_continuations prefix_mod scalar_def
          i3 split: if_splits)
    from continuation_byte [OF c(2,3)] continuation_byte [OF c(4,5)] continuation_byte [OF c(6,7)]
    show ?thesis using four w c by metis
  qed
qed


text \<open>What the reader accepts is exactly the encoding of the scalar it returns.\<close>

lemma next_utf8_sound:
  assumes "next_utf8_code_point input off = Some (cp, off')"
  shows "scalar cp \<and> off' = off + length (utf8_bytes cp) \<and> off' \<le> length input \<and>
    take (length (utf8_bytes cp)) (drop off input) = utf8_bytes cp"
  using assms
proof (cases rule: next_utf8_cases)
  case one
  then show ?thesis
    by (simp add: utf8_bytes_forms scalar_def take_drop_nth)
next
  case (two w x)
  then have "utf8_bytes cp = [char_of (192 + w), char_of (128 + x)]"
    by (subst utf8_bytes_forms) (use fields_of_sum [of x 0 0 w] in auto)
  then have b: "utf8_bytes cp = [input ! off, input ! (off + 1)]" using two by (simp add: char_of_u8_eqI)
  show ?thesis unfolding b using two by (simp add: scalar_def take_drop_nth)
next
  case (three w x y)
  have f: "cp div 4096 = w" "cp div 64 mod 64 = x" "cp mod 64 = y"
    unfolding three(8) using three(5,7) by (simp_all only: fields_of_sum [of x y 0] fields_of_sum [of y 0 0] zero_less_numeral)
  have "cp \<le> 0xffff" using three(3,5,7,8) by simp
  then have "utf8_bytes cp = [char_of (224 + w), char_of (128 + x), char_of (128 + y)]"
    using utf8_bytes_forms(3) [of cp] three(9,10) unfolding f by simp
  then have b: "utf8_bytes cp = [input ! off, input ! (off + 1), input ! (off + 2)]"
    using three by (simp add: char_of_u8_eqI)
  show ?thesis unfolding b using three by (simp add: take_drop_nth numeral_3_eq_3)
next
  case (four w x y z)
  have f: "cp div 262144 = w" "cp div 4096 mod 64 = x" "cp div 64 mod 64 = y" "cp mod 64 = z"
    unfolding four(10) using four(5,7,9)
    by (simp_all only: fields_of_sum [of x y z] fields_of_sum [of y z 0] fields_of_sum [of z 0 0] zero_less_numeral)
  have "cp \<le> 0x10ffff" using four(12) by (simp add: scalar_def)
  then have "utf8_bytes cp = [char_of (240 + w), char_of (128 + x), char_of (128 + y), char_of (128 + z)]"
    using utf8_bytes_forms(4) [of cp] four(11) unfolding f by simp
  then have b: "utf8_bytes cp = [input ! off, input ! (off + 1), input ! (off + 2), input ! (off + 3)]"
    using four by (simp add: char_of_u8_eqI)
  have u: "[0..<4] = [0, 1, 2, 3 :: nat]" by (simp add: upt_rec)
  show ?thesis unfolding b using four by (simp add: take_drop_nth u numeral_3_eq_3)
qed


definition utf8_reader :: "string \<Rightarrow> nat \<Rightarrow> (nat \<times> nat) result" where
  "utf8_reader input off =
     (case next_utf8_code_point input off of None \<Rightarrow> Inl (Runtime_error ''malformed UTF-8'') | Some r \<Rightarrow> Inr r)"

interpretation utf8: cursor_reader utf8_reader utf8_bytes scalar
proof unfold_locales
  show "scalar cp \<Longrightarrow> utf8_reader (pre @ utf8_bytes cp @ post) (length pre) = Inr (cp, length pre + length (utf8_bytes cp))"
    for cp pre post by (simp add: utf8_reader_def next_utf8_put)
  show "utf8_reader input off = Inr (cp, off') \<Longrightarrow> off \<le> length input \<Longrightarrow>
      scalar cp \<and> off' = off + length (utf8_bytes cp) \<and> off' \<le> length input \<and>
      take (length (utf8_bytes cp)) (drop off input) = utf8_bytes cp" for input off cp off'
    using next_utf8_sound by (auto simp: utf8_reader_def split: option.splits)
qed

lemma utf8_bytes_nonempty: "scalar cp \<Longrightarrow> utf8_bytes cp \<noteq> []"
  using next_utf8_put [of cp "[]" "[]"] next_utf8_advances [of _ 0] by fastforce

abbreviation utf8_text :: "nat list \<Rightarrow> string" where
  "utf8_text cps \<equiv> concat (map utf8_bytes cps)"

lemma next_utf8_drop:
  "next_utf8_code_point input off = Some (cp, off') \<Longrightarrow> drop off input = utf8_bytes cp @ drop off' input"
  using next_utf8_sound [of input off cp off'] append_take_drop_id [of "length (utf8_bytes cp)" "drop off input"]
  by (simp add: add.commute)

lemma utf8_count_loop_sound:
  "utf8_count_loop input off n = Some m \<Longrightarrow> off \<le> length input \<Longrightarrow>
    \<exists>cps. (\<forall>cp \<in> set cps. scalar cp) \<and> drop off input = utf8_text cps \<and> m = n + length cps"
proof (induction input off n rule: utf8_count_loop.induct)
  case (1 input off n)
  show ?case
  proof (cases "off < length input")
    case True
    with 1(2) obtain cp off' where nxt: "next_utf8_code_point input off = Some (cp, off')"
      and rec: "utf8_count_loop input off' (n + 1) = Some m"
      by (subst (asm) utf8_count_loop.simps) (auto split: option.splits prod.splits)
    have le: "off' \<le> length input" and cp: "scalar cp"
      using next_utf8_sound [OF nxt] by auto
    from 1(1) [OF True nxt refl rec le] obtain cps where
      "\<forall>c \<in> set cps. scalar c" "drop off' input = utf8_text cps" "m = n + 1 + length cps" by auto
    then have "\<forall>c \<in> set (cp # cps). scalar c" "drop off input = utf8_text (cp # cps)" "m = n + length (cp # cps)"
      using cp next_utf8_drop [OF nxt] by auto
    then show ?thesis by blast
  next
    case False
    with 1(2) have "m = n" by (subst (asm) utf8_count_loop.simps) simp
    with False show ?thesis by (intro exI [of _ "[]"]) simp
  qed
qed

lemma utf8_count_loop_complete:
  "\<forall>cp \<in> set cps. scalar cp \<Longrightarrow>
    utf8_count_loop (pre @ utf8_text cps) (length pre) n = Some (n + length cps)"
proof (induction cps arbitrary: pre n)
  case Nil
  then show ?case by (subst utf8_count_loop.simps) simp
next
  case (Cons cp cps)
  have nxt: "next_utf8_code_point (pre @ utf8_text (cp # cps)) (length pre) =
      Some (cp, length pre + length (utf8_bytes cp))"
    using next_utf8_put [of cp pre "utf8_text cps"] Cons.prems by simp
  have "utf8_count_loop (pre @ utf8_text (cp # cps)) (length (pre @ utf8_bytes cp)) (n + 1) = Some (n + 1 + length cps)"
    using Cons.IH [of "pre @ utf8_bytes cp" "n + 1"] Cons.prems by simp
  moreover have "length pre < length (pre @ utf8_text (cp # cps))"
    using utf8_bytes_nonempty [of cp] Cons.prems by simp
  ultimately show ?case
    using nxt by (subst utf8_count_loop.simps) simp
qed

text \<open>A text is counted if and only if it is a sequence of encoded scalars; the count is its length.\<close>

lemma utf8_count_iff:
  "utf8_code_point_count s = Some n \<longleftrightarrow>
    (\<exists>cps. (\<forall>cp \<in> set cps. scalar cp) \<and> s = utf8_text cps \<and> n = length cps)"
  using utf8_count_loop_sound [of s 0 0 n] utf8_count_loop_complete [of _ "[]" 0]
  by (auto simp: utf8_code_point_count_def)

lemma replacement_character_eq: "replacement_character = utf8_bytes 0xfffd"
proof -
  have "char_of (239 :: nat) = CHR 0xEF" "char_of (191 :: nat) = CHR 0xBF" "char_of (189 :: nat) = CHR 0xBD"
    by (rule char_of_u8_eqI, simp)+
  then show ?thesis by (simp add: replacement_character_def utf8_bytes_forms scalar_def)
qed

lemma replace_invalid_loop_text:
  "\<exists>cps. (\<forall>cp \<in> set cps. scalar cp) \<and> replace_invalid_loop input off = utf8_text cps"
proof (induction input off rule: replace_invalid_loop.induct)
  case (1 input off)
  show ?case
  proof (cases "off < length input")
    case True
    show ?thesis
    proof (cases "next_utf8_code_point input off")
      case None
      from 1(1) [OF True None] obtain cps where
        "\<forall>cp \<in> set cps. scalar cp" "replace_invalid_loop input (off + 1) = utf8_text cps" by blast
      then have "\<forall>cp \<in> set (0xfffd # cps). scalar cp" "replace_invalid_loop input off = utf8_text (0xfffd # cps)"
        using True None by (auto simp: replace_invalid_loop.simps [of input off] replacement_character_eq scalar_def)
      then show ?thesis by blast
    next
      case (Some r)
      then obtain cp off' where r: "next_utf8_code_point input off = Some (cp, off')" by (cases r) auto
      from 1(2) [OF True r refl] obtain cps where
        cps: "\<forall>cp \<in> set cps. scalar cp" "replace_invalid_loop input off' = utf8_text cps" by blast
      from next_utf8_sound [OF r] have "scalar cp" "substr off (off' - off) input = utf8_bytes cp"
        by (auto simp: substr_def)
      with cps have "\<forall>c \<in> set (cp # cps). scalar c" "replace_invalid_loop input off = utf8_text (cp # cps)"
        using True r by (auto simp: replace_invalid_loop.simps [of input off])
      then show ?thesis by blast
    qed
  next
    case False
    then show ?thesis by (intro exI [of _ "[]"]) (subst replace_invalid_loop.simps, simp)
  qed
qed

lemma replace_invalid_loop_valid:
  "\<forall>cp \<in> set cps. scalar cp \<Longrightarrow> replace_invalid_loop (pre @ utf8_text cps) (length pre) = utf8_text cps"
proof (induction cps arbitrary: pre)
  case Nil
  then show ?case by (subst replace_invalid_loop.simps) simp
next
  case (Cons cp cps)
  have nxt: "next_utf8_code_point (pre @ utf8_text (cp # cps)) (length pre) =
      Some (cp, length pre + length (utf8_bytes cp))"
    using next_utf8_put [of cp pre "utf8_text cps"] Cons.prems by simp
  have "replace_invalid_loop (pre @ utf8_text (cp # cps)) (length (pre @ utf8_bytes cp)) = utf8_text cps"
    using Cons.IH [of "pre @ utf8_bytes cp"] Cons.prems by simp
  moreover have "length pre < length (pre @ utf8_text (cp # cps))"
    using utf8_bytes_nonempty [of cp] Cons.prems by simp
  ultimately show ?case
    using nxt by (subst replace_invalid_loop.simps) (simp add: substr_def)
qed

subsection \<open>The decoder accepts exactly well-formed text\<close>

text \<open>
  C24: a text has a number of code points if and only if it is the encoding of a sequence of Unicode scalar
  values, and the count is the length of that sequence. So overlong forms, surrogates, truncated sequences
  and stray continuation bytes are all rejected, and nothing else is.
\<close>

theorem utf8_count_exact:
  "utf8_code_point_count s = Some n \<longleftrightarrow>
    (\<exists>cps. (\<forall>cp \<in> set cps. scalar cp) \<and> s = utf8_text cps \<and> n = length cps)"
  by (rule utf8_count_iff)

theorem utf8_count_exact_witness:
  "utf8_code_point_count [CHR 0x41, CHR 0x7A] = Some 2 \<and>
   (\<exists>cps. (\<forall>cp \<in> set cps. scalar cp) \<and> [CHR 0x41, CHR 0x7A] = utf8_text cps \<and> 2 = length cps)"
proof -
  have "char_of (65 :: nat) = CHR 0x41" "char_of (122 :: nat) = CHR 0x7A" by (rule char_of_u8_eqI, simp)+
  then have ex: "\<exists>cps. (\<forall>cp \<in> set cps. scalar cp) \<and> [CHR 0x41, CHR 0x7A] = utf8_text cps \<and> 2 = length cps"
    by (intro exI [of _ "[65, 122]"]) (simp add: utf8_bytes_forms scalar_def)
  then show ?thesis using utf8_count_exact [of "[CHR 0x41, CHR 0x7A]" 2] by simp
qed

text \<open>
  C25: repairing server text. Whatever the input, the result is well-formed UTF-8, and an input that is already
  well-formed is returned unchanged.
\<close>

theorem replace_invalid_utf8_repairs:
  "(\<exists>n. utf8_code_point_count (replace_invalid_utf8 s) = Some n) \<and>
   (utf8_code_point_count s \<noteq> None \<longrightarrow> replace_invalid_utf8 s = s)"
  using replace_invalid_loop_text [of s 0] replace_invalid_loop_valid [of _ "[]"]
  by (auto simp: utf8_count_iff replace_invalid_utf8_def)

theorem replace_invalid_utf8_repairs_witness:
  "replace_invalid_utf8 [CHR 0x41] = [CHR 0x41] \<and> (\<exists>n. utf8_code_point_count (replace_invalid_utf8 [CHR 0xFF]) = Some n)"
proof -
  have "utf8_code_point_count [CHR 0x41] \<noteq> None" by code_simp
  then show ?thesis
    using replace_invalid_utf8_repairs [of "[CHR 0x41]"] replace_invalid_utf8_repairs [of "[CHR 0xFF]"] by blast
qed

end
