(* ===== verification/Unicode.thy ===== *)
theory Unicode
  imports Utf8
begin

section \<open>The wide characters of the ODBC API\<close>

text \<open>
  \<^verbatim>\<open>odbc/unicode.cpp\<close>: conversion between UTF-8 and \<^verbatim>\<open>SQLWCHAR\<close> text. \<^verbatim>\<open>SQLWCHAR\<close> has two or four bytes
  depending on the driver manager; its size is the parameter \<open>w\<close> of the definitions (the
  \<^verbatim>\<open>if constexpr\<close> branches). The wide buffer is the list of its units, which the code reads one by one
  with \<^verbatim>\<open>memcpy\<close>. The lemmas show that the two directions are inverse to each other: UTF-16 surrogate
  pairs, and only well-formed ones, stand for the code points above the basic plane.
\<close>

subsection \<open>From wide units to UTF-8\<close>

text \<open>The part of the loop body that assembles one code point; \<open>None\<close> is \<^verbatim>\<open>return std::nullopt\<close>.\<close>

definition next_wide_code_point :: "nat \<Rightarrow> nat \<Rightarrow> nat list \<Rightarrow> (nat \<times> nat list) option" where
  "next_wide_code_point w u us =
     (if w = 2 \<and> 0xd800 \<le> u \<and> u \<le> 0xdbff then
        (case us of
           [] \<Rightarrow> None
         | low # rest \<Rightarrow>
             if low < 0xdc00 \<or> 0xdfff < low then None
             else Some (0x10000 + push_bit 10 (u - 0xd800) + (low - 0xdc00), rest))
      else if w = 2 \<and> 0xdc00 \<le> u \<and> u \<le> 0xdfff then None
      else Some (u, us))"

lemma next_wide_length: "next_wide_code_point w u us = Some (cp, rest) \<Longrightarrow> length rest \<le> length us"
  by (auto simp: next_wide_code_point_def split: if_splits list.splits)

definition utf8_bytes_needed :: "nat \<Rightarrow> nat" where
  "utf8_bytes_needed cp = (if cp \<le> 0x7f then 1 else if cp \<le> 0x7ff then 2 else if cp \<le> 0xffff then 3 else 4)"

text \<open>The result and the \<^verbatim>\<open>exceeded\<close> flag.\<close>

function decode_wide_loop :: "nat \<Rightarrow> nat \<Rightarrow> nat list \<Rightarrow> string \<Rightarrow> string option \<times> bool" where
  "decode_wide_loop w max_bytes [] output = (Some output, False)"
| "decode_wide_loop w max_bytes (u # us) output =
     (case next_wide_code_point w u us of
        None \<Rightarrow> (None, False)
      | Some (code_point, rest) \<Rightarrow>
          if 0x10ffff < code_point \<or> (0xd800 \<le> code_point \<and> code_point \<le> 0xdfff) then (None, False)
          else if max_bytes - length output < utf8_bytes_needed code_point then (None, True)
          else case append_utf8 output code_point of
              None \<Rightarrow> (None, False)
            | Some output' \<Rightarrow> decode_wide_loop w max_bytes rest output')"
  by pat_completeness auto
termination
  by (relation "measure (\<lambda>(w, m, us, out). length us)") (auto dest: next_wide_length)

definition decode_wide_bytes :: "nat \<Rightarrow> nat list \<Rightarrow> nat \<Rightarrow> string option \<times> bool" where
  "decode_wide_bytes w units max_bytes = decode_wide_loop w max_bytes units []"

definition wide_to_utf8 :: "nat \<Rightarrow> nat list \<Rightarrow> string option" where
  "wide_to_utf8 w units = fst (decode_wide_bytes w units max_size_t)"

text \<open>
  The pointer-and-length entry points. \<open>input\<close> is the memory the pointer addresses, \<open>None\<close> the null
  pointer; \<^verbatim>\<open>SQL_NTS\<close> is \<open>-3\<close> and reads up to the first zero unit.
\<close>

definition SQL_NTS :: int where
  "SQL_NTS = - 3"

definition sqlwchar_to_utf8 :: "nat \<Rightarrow> nat list option \<Rightarrow> int \<Rightarrow> string option" where
  "sqlwchar_to_utf8 w input len =
     (case input of
        None \<Rightarrow> Some []
      | Some units \<Rightarrow>
          if len = SQL_NTS then fst (decode_wide_bytes w (takeWhile (\<lambda>u. u \<noteq> 0) units) max_size_t)
          else if len < 0 then None
          else fst (decode_wide_bytes w (take (nat len) units) max_size_t))"

text \<open>The loop that measures a zero-terminated input and gives up after \<open>max_bytes\<close> units.\<close>

fun measure_nts :: "nat list \<Rightarrow> nat \<Rightarrow> nat \<Rightarrow> nat option" where
  "measure_nts [] max_bytes units = Some units"
| "measure_nts (u # us) max_bytes units =
     (if u = 0 then Some units else if units = max_bytes then None else measure_nts us max_bytes (units + 1))"

definition sqlwchar_to_utf8_bounded :: "nat \<Rightarrow> nat list option \<Rightarrow> int \<Rightarrow> nat \<Rightarrow> string option \<times> bool" where
  "sqlwchar_to_utf8_bounded w input len max_bytes =
     (case input of
        None \<Rightarrow> (Some [], False)
      | Some units \<Rightarrow>
          if len = SQL_NTS then
            (case measure_nts units max_bytes 0 of
               None \<Rightarrow> (None, True)
             | Some n \<Rightarrow> decode_wide_bytes w (take n units) max_bytes)
          else if len < 0 then (None, False)
          else if max_bytes < nat len then (None, True)
          else decode_wide_bytes w (take (nat len) units) max_bytes)"

subsection \<open>From UTF-8 to wide units\<close>

definition sqlwchar_max :: "nat \<Rightarrow> nat" where
  "sqlwchar_max w = 2 ^ (8 * w) - 1"

function utf8_to_wide_loop :: "nat \<Rightarrow> string \<Rightarrow> nat \<Rightarrow> nat list \<Rightarrow> nat list option" where
  "utf8_to_wide_loop w input offset output =
     (if offset < length input then
        (case next_utf8_code_point input offset of
           None \<Rightarrow> None
         | Some (code_point, offset') \<Rightarrow>
             if w = 2 \<and> 0xffff < code_point then
               (let v = code_point - 0x10000
                in utf8_to_wide_loop w input offset'
                     (output @ [0xd800 + drop_bit 10 v, 0xdc00 + (v AND 0x3ff)]))
             else if sqlwchar_max w < code_point then None
             else utf8_to_wide_loop w input offset' (output @ [code_point]))
      else Some output)"
  by pat_completeness auto
termination
  by (relation "measure (\<lambda>(w, input, offset, output). length input - offset)")
    (auto dest: next_utf8_advances intro!: diff_less_mono2)

declare utf8_to_wide_loop.simps [simp del]

definition utf8_to_wide :: "nat \<Rightarrow> string \<Rightarrow> nat list option" where
  "utf8_to_wide w input = utf8_to_wide_loop w input 0 []"

subsection \<open>The units of a code point\<close>

definition wide_units :: "nat \<Rightarrow> nat \<Rightarrow> nat list" where
  "wide_units w cp =
     (if w = 2 \<and> 0xffff < cp
      then [0xd800 + drop_bit 10 (cp - 0x10000), 0xdc00 + (cp - 0x10000 AND 0x3ff)] else [cp])"

abbreviation wide_text :: "nat \<Rightarrow> nat list \<Rightarrow> nat list" where
  "wide_text w cps \<equiv> concat (map (wide_units w) cps)"

lemma and_mask10 [simp]: "(n :: nat) AND 1023 = n mod 1024"
  using take_bit_eq_mask [of 10 n] by (simp add: take_bit_eq_mod mask_eq_exp_minus_1)

lemma wide_units_Cons: "\<exists>u us. wide_units w cp = u # us"
  by (simp add: wide_units_def)

lemma next_wide_put:
  assumes "scalar cp" "wide_units w cp = u # us"
  shows "next_wide_code_point w u (us @ rest) = Some (cp, rest)"
proof (cases "w = 2 \<and> 0xffff < cp")
  case True
  let ?v = "cp - 0x10000"
  have v: "?v < 1048576" and cp: "cp = ?v + 0x10000" using True assms(1) by (auto simp: scalar_def)
  have "?v div 1024 < 1024" using v by (simp add: less_mult_imp_div_less)
  with True assms(2) show ?thesis
    using cp div_mult_mod_eq [of ?v 1024]
    by (auto simp: wide_units_def next_wide_code_point_def drop_bit_eq_div push_bit_eq_mult)
next
  case False
  with assms show ?thesis by (auto simp: wide_units_def next_wide_code_point_def scalar_def)
qed

lemma next_wide_sound:
  assumes "next_wide_code_point w u us = Some (cp, rest)" "scalar cp"
    and "\<forall>x \<in> set (u # us). x \<le> sqlwchar_max w"
  shows "u # us = wide_units w cp @ rest"
proof (cases "w = 2 \<and> 0xd800 \<le> u \<and> u \<le> 0xdbff")
  case True
  then obtain low where us: "us = low # rest" and low: "0xdc00 \<le> low" "low \<le> 0xdfff"
    and cp: "cp = 0x10000 + push_bit 10 (u - 0xd800) + (low - 0xdc00)"
    using assms(1) by (auto simp: next_wide_code_point_def split: list.splits if_splits)
  obtain a where a: "u = 0xd800 + a" using True le_Suc_ex by blast
  obtain b where b: "low = 0xdc00 + b" using low(1) le_Suc_ex by blast
  have ab: "u = 0xd800 + a" "low = 0xdc00 + b" "b < 1024" using a b low(2) by simp_all
  then have "cp = 0x10000 + (a * 1024 + b)" using cp by (simp add: push_bit_eq_mult)
  then show ?thesis
    using ab True us by (simp add: wide_units_def drop_bit_eq_div)
next
  case False
  then have "cp = u" "rest = us" using assms(1) by (auto simp: next_wide_code_point_def split: if_splits)
  with False assms show ?thesis by (auto simp: wide_units_def sqlwchar_max_def)
qed

subsection \<open>The loops\<close>

lemma length_utf8_bytes: "scalar cp \<Longrightarrow> length (utf8_bytes cp) = utf8_bytes_needed cp"
  by (simp add: utf8_bytes_forms utf8_bytes_needed_def scalar_def)

lemma scalar_iff: "scalar cp \<longleftrightarrow> \<not> (0x10ffff < cp \<or> (0xd800 \<le> cp \<and> cp \<le> 0xdfff))"
  by (auto simp: scalar_def)

text \<open>One turn of the decoder, once its input starts with the units of a scalar.\<close>

lemma decode_wide_loop_step:
  assumes "scalar cp"
  shows "decode_wide_loop w m (wide_units w cp @ rest) out =
    (if m - length out < length (utf8_bytes cp) then (None, True) else decode_wide_loop w m rest (out @ utf8_bytes cp))"
proof -
  obtain u us where u: "wide_units w cp = u # us" using wide_units_Cons by blast
  then show ?thesis
    using next_wide_put [OF assms u, of rest] assms scalar_iff [of cp]
    by (auto simp: append_utf8_eq length_utf8_bytes)
qed

lemma decode_wide_loop_complete:
  "\<forall>cp \<in> set cps. scalar cp \<Longrightarrow> length out + length (utf8_text cps) \<le> m \<Longrightarrow>
    decode_wide_loop w m (wide_text w cps) out = (Some (out @ utf8_text cps), False)"
  by (induction cps arbitrary: out) (auto simp: decode_wide_loop_step)

lemma decode_wide_loop_exceeds:
  "\<forall>cp \<in> set cps. scalar cp \<Longrightarrow> length out \<le> m \<Longrightarrow> m < length out + length (utf8_text cps) \<Longrightarrow>
    decode_wide_loop w m (wide_text w cps @ rest) out = (None, True)"
  by (induction cps arbitrary: out) (auto simp: decode_wide_loop_step)

lemma decode_wide_loop_cases:
  assumes "\<forall>x \<in> set units. x \<le> sqlwchar_max w" "decode_wide_loop w m units out \<noteq> (None, False)" "units \<noteq> []"
  obtains cp rest where "scalar cp" "units = wide_units w cp @ rest" "length rest < length units"
proof -
  obtain u us where units: "units = u # us" using assms(3) by (cases units) auto
  then obtain cp rest where nxt: "next_wide_code_point w u us = Some (cp, rest)" and cp: "scalar cp"
    using assms(2) by (auto simp: scalar_iff split: option.splits if_splits)
  with that [of cp rest] show thesis
    using next_wide_sound [OF nxt cp] next_wide_length [OF nxt] assms(1) units by auto
qed

lemma decode_wide_loop_sound:
  "decode_wide_loop w m units out = (Some s, e) \<Longrightarrow> \<forall>x \<in> set units. x \<le> sqlwchar_max w \<Longrightarrow> length out \<le> m \<Longrightarrow>
    \<not> e \<and> length s \<le> m \<and> (\<exists>cps. (\<forall>cp \<in> set cps. scalar cp) \<and> units = wide_text w cps \<and> s = out @ utf8_text cps)"
proof (induction "length units" arbitrary: units out rule: less_induct)
  case less
  show ?case
  proof (cases "units = []")
    case True
    then show ?thesis using less.prems by (auto intro: exI [of _ "[]"])
  next
    case False
    obtain cp rest where cp: "scalar cp" "units = wide_units w cp @ rest" "length rest < length units"
      using decode_wide_loop_cases [OF less.prems(2) _ False] less.prems(1) by (metis option.distinct(1) prod.inject)
    then have rec: "decode_wide_loop w m rest (out @ utf8_bytes cp) = (Some s, e)"
      and room: "length (out @ utf8_bytes cp) \<le> m"
      using less.prems by (auto simp: decode_wide_loop_step split: if_splits)
    obtain cps where "\<forall>c \<in> set cps. scalar c" "rest = wide_text w cps" "s = (out @ utf8_bytes cp) @ utf8_text cps"
      and fin: "\<not> e" "length s \<le> m"
      using less.hyps [OF cp(3) rec _ room] less.prems(2) cp(2) by auto
    then have "\<forall>c \<in> set (cp # cps). scalar c" "units = wide_text w (cp # cps)" "s = out @ utf8_text (cp # cps)"
      using cp by auto
    with fin show ?thesis by blast
  qed
qed

lemma decode_wide_loop_exceeded:
  "decode_wide_loop w m units out = (r, True) \<Longrightarrow> \<forall>x \<in> set units. x \<le> sqlwchar_max w \<Longrightarrow> length out \<le> m \<Longrightarrow>
    \<exists>cps rest. (\<forall>cp \<in> set cps. scalar cp) \<and> units = wide_text w cps @ rest \<and> m < length out + length (utf8_text cps)"
proof (induction "length units" arbitrary: units out rule: less_induct)
  case less
  have "units \<noteq> []" using less.prems(1) by auto
  then obtain cp rest where cp: "scalar cp" "units = wide_units w cp @ rest" "length rest < length units"
    using decode_wide_loop_cases [OF less.prems(2)] less.prems(1) by (metis prod.inject)
  show ?case
  proof (cases "m - length out < length (utf8_bytes cp)")
    case True
    then have "\<forall>c \<in> set [cp]. scalar c" "units = wide_text w [cp] @ rest" "m < length out + length (utf8_text [cp])"
      using cp by auto
    then show ?thesis by blast
  next
    case False
    then have rec: "decode_wide_loop w m rest (out @ utf8_bytes cp) = (r, True)"
      and room: "length (out @ utf8_bytes cp) \<le> m"
      using less.prems cp by (auto simp: decode_wide_loop_step)
    obtain cps rest' where "\<forall>c \<in> set cps. scalar c" "rest = wide_text w cps @ rest'"
      "m < length (out @ utf8_bytes cp) + length (utf8_text cps)"
      using less.hyps [OF cp(3) rec _ room] less.prems(2) cp(2) by auto
    then have "\<forall>c \<in> set (cp # cps). scalar c" "units = wide_text w (cp # cps) @ rest'"
      "m < length out + length (utf8_text (cp # cps))"
      using cp by auto
    then show ?thesis by blast
  qed
qed

lemma utf8_to_wide_loop_complete:
  "w \<in> {2, 4} \<Longrightarrow> \<forall>cp \<in> set cps. scalar cp \<Longrightarrow>
    utf8_to_wide_loop w (pre @ utf8_text cps) (length pre) out = Some (out @ wide_text w cps)"
proof (induction cps arbitrary: pre out)
  case Nil
  then show ?case by (subst utf8_to_wide_loop.simps) simp
next
  case (Cons cp cps)
  have nxt: "next_utf8_code_point (pre @ utf8_text (cp # cps)) (length pre) =
      Some (cp, length pre + length (utf8_bytes cp))"
    using next_utf8_put [of cp pre "utf8_text cps"] Cons.prems by simp
  have rec: "utf8_to_wide_loop w (pre @ utf8_text (cp # cps)) (length pre + length (utf8_bytes cp)) o' =
      Some (o' @ wide_text w cps)" for o'
    using Cons.IH [of "pre @ utf8_bytes cp" o'] Cons.prems by simp
  have small: "w \<noteq> 2 \<or> cp \<le> 0xffff \<Longrightarrow> cp \<le> sqlwchar_max w"
    using Cons.prems by (auto simp: sqlwchar_max_def scalar_def)
  have "length pre < length (pre @ utf8_text (cp # cps))"
    using utf8_bytes_nonempty [of cp] Cons.prems by simp
  then show ?case
    using nxt rec small by (subst utf8_to_wide_loop.simps) (auto simp: wide_units_def Let_def)
qed

lemma utf8_to_wide_loop_sound:
  "utf8_to_wide_loop w input off out = Some us \<Longrightarrow> off \<le> length input \<Longrightarrow>
    \<exists>cps. (\<forall>cp \<in> set cps. scalar cp) \<and> drop off input = utf8_text cps \<and> us = out @ wide_text w cps"
proof (induction w input off out rule: utf8_to_wide_loop.induct)
  case (1 w input off out)
  show ?case
  proof (cases "off < length input")
    case True
    with 1(3) obtain cp off' where nxt: "next_utf8_code_point input off = Some (cp, off')"
      and rec: "utf8_to_wide_loop w input off' (out @ wide_units w cp) = Some us"
      unfolding utf8_to_wide_loop.simps [of w input off out]
      by (auto simp: wide_units_def Let_def split: option.splits prod.splits if_splits)
    have le: "off' \<le> length input" and cp: "scalar cp"
      using next_utf8_sound [OF nxt] by auto
    have "\<exists>cps. (\<forall>cp \<in> set cps. scalar cp) \<and> drop off' input = utf8_text cps \<and> us = (out @ wide_units w cp) @ wide_text w cps"
    proof (cases "w = 2 \<and> 0xffff < cp")
      case pair: True
      then have "wide_units w cp = [0xd800 + drop_bit 10 (cp - 0x10000), 0xdc00 + (cp - 0x10000 AND 0x3ff)]"
        unfolding wide_units_def by (simp only: if_True simp_thms)
      note IH = 1(1) [OF True nxt refl pair refl, folded this]
      show ?thesis by (rule IH [OF rec le])
    next
      case single: False
      then have fits: "\<not> sqlwchar_max w < cp"
        using 1(3) True nxt unfolding utf8_to_wide_loop.simps [of w input off out] by (auto split: if_splits)
      have "wide_units w cp = [cp]" unfolding wide_units_def using single by (simp only: if_False)
      note IH = 1(2) [OF True nxt refl single, folded this]
      show ?thesis by (rule IH [OF fits rec le])
    qed
    then obtain cps where "\<forall>c \<in> set (cp # cps). scalar c" "drop off input = utf8_text (cp # cps)"
      "us = out @ wide_text w (cp # cps)"
      using cp next_utf8_drop [OF nxt] by auto
    then show ?thesis by blast
  next
    case False
    with 1(3) have "us = out" by (subst (asm) utf8_to_wide_loop.simps) simp
    with False show ?thesis by (intro exI [of _ "[]"]) simp
  qed
qed

subsection \<open>The converters and their contract\<close>

lemma utf8_to_wide_iff:
  assumes "w \<in> {2, 4}"
  shows "utf8_to_wide w s = Some us \<longleftrightarrow>
    (\<exists>cps. (\<forall>cp \<in> set cps. scalar cp) \<and> s = utf8_text cps \<and> us = wide_text w cps)"
  using utf8_to_wide_loop_sound [of w s 0 "[]" us] utf8_to_wide_loop_complete [OF assms, of _ "[]" "[]"]
  by (auto simp: utf8_to_wide_def)

lemma decode_wide_bytes_Some:
  assumes "\<forall>x \<in> set units. x \<le> sqlwchar_max w"
  shows "decode_wide_bytes w units m = (Some s, e) \<longleftrightarrow> \<not> e \<and> length s \<le> m \<and>
    (\<exists>cps. (\<forall>cp \<in> set cps. scalar cp) \<and> units = wide_text w cps \<and> s = utf8_text cps)"
  using decode_wide_loop_sound [of w m units "[]" s e] assms decode_wide_loop_complete [of _ "[]" m w]
  by (auto simp: decode_wide_bytes_def)

lemma decode_wide_bytes_exceeded:
  assumes "\<forall>x \<in> set units. x \<le> sqlwchar_max w"
  shows "snd (decode_wide_bytes w units m) \<longleftrightarrow>
    (\<exists>cps rest. (\<forall>cp \<in> set cps. scalar cp) \<and> units = wide_text w cps @ rest \<and> m < length (utf8_text cps))"
  using decode_wide_loop_exceeded [of w m units "[]" "fst (decode_wide_bytes w units m)"] assms
    decode_wide_loop_exceeds [of _ "[]" m w]
  by (cases "decode_wide_loop w m units []") (auto simp: decode_wide_bytes_def)

lemma wide_to_utf8_iff:
  assumes "\<forall>x \<in> set us. x \<le> sqlwchar_max w"
  shows "fst (decode_wide_bytes w us m) = Some s \<longleftrightarrow> length s \<le> m \<and>
    (\<exists>cps. (\<forall>cp \<in> set cps. scalar cp) \<and> s = utf8_text cps \<and> us = wide_text w cps)" (is "?l \<longleftrightarrow> ?r")
proof
  assume ?l
  then have "decode_wide_bytes w us m = (Some s, snd (decode_wide_bytes w us m))"
    by (cases "decode_wide_bytes w us m") simp
  then show ?r by (subst (asm) decode_wide_bytes_Some [OF assms]) blast
next
  assume ?r
  then have "decode_wide_bytes w us m = (Some s, False)"
    by (subst decode_wide_bytes_Some [OF assms]) blast
  then show ?l by simp
qed

text \<open>The letter A and U+1F600, which takes four bytes in UTF-8 and a surrogate pair in UTF-16.\<close>

lemma grinning_units: "wide_text 2 [0x41, 0x1F600] = [0x41, 0xD83D, 0xDE00]"
  by (simp add: wide_units_def drop_bit_eq_div)

lemma grinning_text: "utf8_text [0x41, 0x1F600] = [CHR 0x41, CHR 0xF0, CHR 0x9F, CHR 0x98, CHR 0x80]"
proof -
  have "char_of (65 :: nat) = CHR 0x41" "char_of (240 :: nat) = CHR 0xF0" "char_of (159 :: nat) = CHR 0x9F"
    "char_of (152 :: nat) = CHR 0x98" "char_of (128 :: nat) = CHR 0x80"
    by (rule char_of_u8_eqI, simp)+
  then show ?thesis by (simp add: utf8_bytes_forms scalar_def)
qed

text \<open>
  C19: the two conversions are inverse to each other, for both widths of \<^verbatim>\<open>SQLWCHAR\<close>. A UTF-8 text \<open>s\<close> is
  converted to the units \<open>us\<close> if and only if the units \<open>us\<close> are converted to \<open>s\<close>: neither direction
  loses, repairs or invents a character, and each accepts exactly the texts the other produces.
\<close>

theorem wide_utf8_inverse:
  assumes "w \<in> {2, 4}" "\<forall>x \<in> set us. x \<le> sqlwchar_max w" "length s \<le> max_size_t"
  shows "utf8_to_wide w s = Some us \<longleftrightarrow> wide_to_utf8 w us = Some s"
  unfolding utf8_to_wide_iff [OF assms(1)] wide_to_utf8_def wide_to_utf8_iff [OF assms(2)]
  using assms(3) by blast

theorem wide_utf8_inverse_witness:
  "utf8_to_wide 2 [CHR 0x41, CHR 0xF0, CHR 0x9F, CHR 0x98, CHR 0x80] = Some [0x41, 0xD83D, 0xDE00] \<and>
   wide_to_utf8 2 [0x41, 0xD83D, 0xDE00] = Some [CHR 0x41, CHR 0xF0, CHR 0x9F, CHR 0x98, CHR 0x80]"
proof -
  have "utf8_to_wide 2 [CHR 0x41, CHR 0xF0, CHR 0x9F, CHR 0x98, CHR 0x80] = Some [0x41, 0xD83D, 0xDE00]"
    unfolding grinning_text [symmetric] using utf8_to_wide_loop_complete [of 2 "[0x41, 0x1F600]" "[]" "[]"]
    unfolding grinning_units by (simp add: utf8_to_wide_def scalar_def)
  then show ?thesis
    by (subst wide_utf8_inverse [symmetric]) (simp_all add: sqlwchar_max_def max_size_t_def)
qed



end
