(* ===== verification/Decimal.thy ===== *)
theory Decimal
  imports Complex_Main Prelude
begin

section \<open>Scaled decimals\<close>

text \<open>
  \<^verbatim>\<open>sdk/src/util/scaled_decimal.cpp\<close>: \<^verbatim>\<open>rescale_decimal\<close> reads a decimal text with optional fraction and
  exponent into an integer coefficient at a given scale, and \<^verbatim>\<open>format_scaled_decimal\<close> prints one. The
  code works on digit strings and clamps the exponent; the lemmas show that what it computes is exact
  arithmetic on the number the text denotes, whatever the size of its exponent. A result is the returned
  optional together with the final contents of \<^verbatim>\<open>*issue\<close>.
\<close>

datatype decimal_conversion_issue =
  Issue_None | InvalidCharacter | OutOfRange | WholeDigitsLost | FractionalTruncation

record scaled_decimal =
  coefficient :: string
  scale :: int
  negative :: bool

definition whitespace :: "char \<Rightarrow> bool" where
  "whitespace c \<longleftrightarrow>
     c = CHR '' '' \<or> c = CHR 0x09 \<or> c = CHR 0x0D \<or> c = CHR 0x0A \<or> c = CHR 0x0C \<or> c = CHR 0x0B"

definition trim_whitespace :: "string \<Rightarrow> string" where
  "trim_whitespace text = rev (dropWhile whitespace (rev (dropWhile whitespace text)))"

definition safe_size :: nat where
  "safe_size = (2 ^ 63 - 1) div 8"

text \<open>One turn of the loop that reads the exponent's digits, clamping at \<^verbatim>\<open>exponent_limit\<close>.\<close>

definition exponent_step :: "int \<Rightarrow> int \<Rightarrow> char \<Rightarrow> int" where
  "exponent_step limit e c =
     (let nxt = int (digit_value c)
      in if limit < nxt \<or> (limit - nxt) div 10 < e then limit else e * 10 + nxt)"

text \<open>The exponent and what follows it; \<open>None\<close> is a marker without a digit after it.\<close>

definition scan_exponent :: "int \<Rightarrow> string \<Rightarrow> (int \<times> string) option" where
  "scan_exponent limit text =
     (case text of
        [] \<Rightarrow> Some (0, [])
      | c # r \<Rightarrow>
          if c = CHR ''e'' \<or> c = CHR ''E'' then
            (let neg = (r \<noteq> [] \<and> hd r = CHR ''-'');
                 r = (if r \<noteq> [] \<and> (hd r = CHR ''+'' \<or> hd r = CHR ''-'') then tl r else r);
                 ds = takeWhile is_digit r;
                 e = foldl (exponent_step limit) 0 ds
             in if ds = [] then None else Some (if neg then - e else e, dropWhile is_digit r))
          else Some (0, text))"

text \<open>
  The loop over the digits that are dropped: \<open>None\<close> is the return with \<^verbatim>\<open>WholeDigitsLost\<close>, otherwise the
  final \<^verbatim>\<open>lost_fraction\<close>.
\<close>

fun scan_lost :: "string \<Rightarrow> nat \<Rightarrow> int \<Rightarrow> bool \<Rightarrow> bool option" where
  "scan_lost [] index decimal_position lost_fraction = Some lost_fraction"
| "scan_lost (c # cs) index decimal_position lost_fraction =
     (if c = CHR ''0'' then scan_lost cs (index + 1) decimal_position lost_fraction
      else if int index < decimal_position then None
      else scan_lost cs (index + 1) decimal_position True)"

text \<open>The part of \<^verbatim>\<open>rescale_decimal\<close> after the text has been read.\<close>

definition rescale_digits ::
  "string \<Rightarrow> string \<Rightarrow> int \<Rightarrow> nat \<Rightarrow> int \<Rightarrow> bool \<Rightarrow> scaled_decimal option \<times> decimal_conversion_issue" where
  "rescale_digits whole fraction exponent precision sc neg =
     (let digits = whole @ fraction;
          first = length (takeWhile (\<lambda>c. c = CHR ''0'') digits)
      in if first = length digits
         then (Some \<lparr>coefficient = ''0'', scale = sc, negative = False\<rparr>, Issue_None)
         else
           let decimal_position = int (length whole) + exponent;
               coefficient_end = decimal_position + sc;
               kept = (if coefficient_end \<le> 0 then 0 else nat (min coefficient_end (int (length digits))))
           in case scan_lost (drop kept digits) kept decimal_position False of
                None \<Rightarrow> (None, WholeDigitsLost)
              | Some lost_fraction \<Rightarrow>
                  if int first < coefficient_end \<and> int precision < coefficient_end - int first
                  then (None, OutOfRange)
                  else
                    let coeff =
                          (if int first < coefficient_end
                           then substr first (kept - first) digits @
                                (if int (length digits) < coefficient_end
                                 then replicate (nat (coefficient_end - int (length digits))) (CHR ''0'') else [])
                           else ''0'')
                    in (Some \<lparr>coefficient = coeff, scale = sc, negative = neg \<and> coeff \<noteq> ''0''\<rparr>,
                        if lost_fraction then FractionalTruncation else Issue_None))"

text \<open>The text without blanks and sign: reading its digits and its exponent.\<close>

definition rescale_number ::
  "string \<Rightarrow> nat \<Rightarrow> int \<Rightarrow> bool \<Rightarrow> scaled_decimal option \<times> decimal_conversion_issue" where
  "rescale_number text precision sc neg =
     (let exponent_limit = int (length text) + int precision + \<bar>sc\<bar> + 1;
          whole = takeWhile is_digit text;
          rest = dropWhile is_digit text;
          point = (rest \<noteq> [] \<and> hd rest = CHR ''.'');
          fraction = (if point then takeWhile is_digit (tl rest) else []);
          rest = (if point then dropWhile is_digit (tl rest) else rest)
      in if whole = [] \<and> fraction = [] then (None, InvalidCharacter)
         else case scan_exponent exponent_limit rest of
             None \<Rightarrow> (None, InvalidCharacter)
           | Some (exponent, rest) \<Rightarrow>
               if rest \<noteq> [] then (None, InvalidCharacter)
               else rescale_digits whole fraction exponent precision sc neg)"

definition rescale_decimal ::
  "string \<Rightarrow> nat \<Rightarrow> int \<Rightarrow> scaled_decimal option \<times> decimal_conversion_issue" where
  "rescale_decimal input precision sc =
     (let text = trim_whitespace input;
          neg = (text \<noteq> [] \<and> hd text = CHR ''-'');
          text = (if text \<noteq> [] \<and> (hd text = CHR ''+'' \<or> hd text = CHR ''-'') then tl text else text)
      in if precision = 0 \<or> safe_size < length text \<or> safe_size < precision \<or> int safe_size < \<bar>sc\<bar>
         then (None, OutOfRange)
         else rescale_number text precision sc neg)"

definition format_scaled_decimal :: "scaled_decimal \<Rightarrow> nat \<Rightarrow> string option" where
  "format_scaled_decimal v max_output_bytes =
     (if coefficient v = [] \<or> \<not> list_all is_digit (coefficient v) then None
      else
        let stripped = dropWhile (\<lambda>c. c = CHR ''0'') (coefficient v);
            nonzero = (stripped \<noteq> []);
            digits = (if nonzero then stripped else ''0'');
            negative_scale = nat (- scale v);
            positive_scale = nat (scale v);
            sign_bytes = (if negative v \<and> nonzero then 1 else 0)
        in if max_output_bytes < sign_bytes \<or> max_output_bytes - sign_bytes < length digits then None
           else
             let required = length digits + sign_bytes;
                 padding = (if length digits \<le> positive_scale then positive_scale + 1 - length digits else 0)
             in if positive_scale \<noteq> 0 \<and> max_output_bytes - required \<le> padding then None
                else if positive_scale = 0 \<and> nonzero \<and> max_output_bytes - required < negative_scale then None
                else Some ((if sign_bytes \<noteq> 0 then ''-'' else []) @
                  (if length digits \<le> positive_scale \<and> positive_scale \<noteq> 0 then
                     ''0.'' @ replicate (positive_scale - length digits) (CHR ''0'') @ digits
                   else if positive_scale \<noteq> 0 then
                     substr 0 (length digits - positive_scale) digits @ ''.'' @
                     drop (length digits - positive_scale) digits
                   else digits @ (if nonzero then replicate negative_scale (CHR ''0'') else []))))"

subsection \<open>Digit strings as numbers\<close>

lemma decimal_value_Cons: "decimal_value (c # s) = digit_value c * 10 ^ length s + decimal_value s"
  using decimal_value_append [of "[c]" s] decimal_value_snoc [of "[]" c] by simp

lemma digit_value_zero: "is_digit c \<Longrightarrow> digit_value c = 0 \<longleftrightarrow> c = CHR ''0''"
proof -
  assume "is_digit c"
  then have "digit_value c = 0 \<longleftrightarrow> u8 c = u8 (CHR ''0'')" by (auto simp: is_digit_def digit_value_def)
  then show ?thesis by (simp only: of_char_eq_iff)
qed

lemma is_digit_0 [simp]: "is_digit (CHR ''0'')"
  by (simp add: is_digit_def)

lemma decimal_value_zero:
  "list_all is_digit s \<Longrightarrow> decimal_value s = 0 \<longleftrightarrow> (\<forall>c \<in> set s. c = CHR ''0'')"
  by (induction s) (auto simp: decimal_value_Cons digit_value_zero)

lemma decimal_value_replicate_0 [simp]: "decimal_value (replicate n (CHR ''0'')) = 0"
  by (subst decimal_value_zero) (auto simp: list_all_iff)

lemma decimal_value_ge:
  "list_all is_digit s \<Longrightarrow> s \<noteq> [] \<Longrightarrow> hd s \<noteq> CHR ''0'' \<Longrightarrow> 10 ^ (length s - 1) \<le> decimal_value s"
proof (cases s)
  case (Cons c t)
  assume "list_all is_digit s" "hd s \<noteq> CHR ''0''"
  then have "1 \<le> digit_value c" using Cons digit_value_zero [of c] by (simp add: Suc_le_eq)
  then show ?thesis using Cons by (auto simp: decimal_value_Cons intro!: trans_le_add1)
qed simp

lemma decimal_value_leading:
  assumes "list_all is_digit s" "s \<noteq> []" "hd s \<noteq> CHR ''0''"
  shows "10 ^ p \<le> decimal_value s \<longleftrightarrow> p < length s"
proof
  show "p < length s" if "10 ^ p \<le> decimal_value s"
    using order.strict_trans1 [OF that decimal_value_less [OF assms(1)]] by simp
  show "10 ^ p \<le> decimal_value s" if "p < length s"
    using that order.trans [OF power_increasing decimal_value_ge [OF assms]] by simp
qed

lemma to_string_decimal_value:
  "list_all is_digit s \<Longrightarrow> s \<noteq> [] \<Longrightarrow> hd s \<noteq> CHR ''0'' \<Longrightarrow> to_string (decimal_value s) = s"
proof (induction s rule: rev_induct)
  case (snoc c s)
  show ?case
  proof (cases "s = []")
    case True
    then show ?thesis using snoc.prems decimal_value_snoc [of "[]" c] by (subst to_string.simps) simp
  next
    case False
    then have "10 ^ 0 \<le> decimal_value s" using decimal_value_leading [of s 0] snoc.prems by simp
    then show ?thesis using snoc False by (subst to_string.simps) simp
  qed
qed simp

text \<open>The first \<open>n\<close> digits of a number, continued by zeros.\<close>

definition padded :: "string \<Rightarrow> nat \<Rightarrow> string" where
  "padded ds n = take n (ds @ replicate n (CHR ''0''))"

lemma length_padded [simp]: "length (padded ds n) = n"
  by (simp add: padded_def)

lemma padded_digits: "list_all is_digit ds \<Longrightarrow> list_all is_digit (padded ds n)"
  by (auto simp: padded_def list_all_iff dest!: in_set_takeD)

lemma padded_nth: "i < n \<Longrightarrow> padded ds n ! i = (if i < length ds then ds ! i else CHR ''0'')"
  by (auto simp: padded_def nth_append)

lemma take_padded: "m \<le> n \<Longrightarrow> take m (padded ds n) = padded ds m"
  by (rule nth_equalityI) (auto simp: padded_nth)

lemma padded_value:
  "m \<le> n \<Longrightarrow> decimal_value (padded ds n) =
    decimal_value (padded ds m) * 10 ^ (n - m) + decimal_value (drop m (padded ds n))"
  using decimal_value_append [of "take m (padded ds n)" "drop m (padded ds n)"]
  unfolding append_take_drop_id by (simp add: take_padded)

lemma padded_long: "length ds \<le> n \<Longrightarrow> padded ds n = ds @ replicate (n - length ds) (CHR ''0'')"
  by (rule nth_equalityI) (auto simp: padded_nth nth_append)

lemma padded_short: "n \<le> length ds \<Longrightarrow> padded ds n = take n ds"
  by (simp add: padded_def)

lemma real_quotient_eq: "real n / real (10 ^ k) = real t \<longleftrightarrow> n = t * 10 ^ k"
proof -
  have "real n / real (10 ^ k) = real t \<longleftrightarrow> real n = real (t * 10 ^ k)" by (simp add: divide_eq_eq)
  then show ?thesis by (simp only: of_nat_eq_iff)
qed

text \<open>
  Moving the decimal point to position \<open>d\<close> of the digits \<open>ds\<close>: the whole part is read off the padded
  digits, and nothing is cut off exactly when the digits behind position \<open>d\<close> are zeros.
\<close>

lemma point_shift:
  assumes "list_all is_digit ds"
  defines "x d \<equiv> real (decimal_value ds) * 10 powi (d - int (length ds))"
  shows "\<lfloor>x d\<rfloor> = int (decimal_value (padded ds (nat d)))"
    and "x d = real (decimal_value (padded ds (nat d))) \<longleftrightarrow> (\<forall>c \<in> set (drop (nat d) ds). c = CHR ''0'')"
proof -
  let ?N = "decimal_value ds" and ?m = "nat d" and ?l = "length ds"
  have "\<lfloor>x d\<rfloor> = int (decimal_value (padded ds ?m)) \<and>
    (x d = real (decimal_value (padded ds ?m)) \<longleftrightarrow> (\<forall>c \<in> set (drop ?m ds). c = CHR ''0''))"
  proof (cases "int ?l \<le> d")
    case True
    then have "x d = real (decimal_value (padded ds ?m))"
      by (simp add: x_def power_int_def nat_diff_distrib padded_long decimal_value_append)
    with True show ?thesis by simp
  next
    case False
    let ?k = "nat (int ?l - d)" and ?t = "decimal_value (take ?m ds)" and ?r = "decimal_value (drop ?m ds)"
    have x: "x d = real ?N / real (10 ^ ?k)" using False by (simp add: x_def power_int_def power_divide)
    have N: "?N = ?t * 10 ^ (?l - ?m) + ?r" using decimal_value_append [of "take ?m ds" "drop ?m ds"] by simp
    have "?r < 10 ^ (?l - ?m)"
      using decimal_value_less [of "drop ?m ds"] assms(1) by (auto simp: list_all_iff dest: in_set_dropD)
    then have r: "?r < 10 ^ ?k" by (rule order.strict_trans2) (simp add: power_increasing)
    have t: "?N = ?t * 10 ^ ?k + ?r"
    proof (cases "0 \<le> d")
      case True
      then have "?k = ?l - ?m" by simp
      then show ?thesis using N by (simp only:)
    qed simp
    have quot: "?N div 10 ^ ?k = ?t" unfolding t using r by simp
    have "\<lfloor>x d\<rfloor> = int ?t" unfolding x floor_divide_of_nat_eq quot by (rule refl)
    moreover have "x d = real ?t \<longleftrightarrow> ?r = 0" unfolding x real_quotient_eq by (subst t) simp
    moreover have "?r = 0 \<longleftrightarrow> (\<forall>c \<in> set (drop ?m ds). c = CHR ''0'')"
      using assms(1) by (intro decimal_value_zero) (auto simp: list_all_iff dest: in_set_dropD)
    moreover have "padded ds ?m = take ?m ds" using False by (simp add: padded_short)
    ultimately show ?thesis by (simp only: simp_thms)
  qed
  then show "\<lfloor>x d\<rfloor> = int (decimal_value (padded ds ?m))"
    and "x d = real (decimal_value (padded ds ?m)) \<longleftrightarrow> (\<forall>c \<in> set (drop ?m ds). c = CHR ''0'')" by auto
qed

subsection \<open>Rescaling is exact\<close>

text \<open>
  The number a digit string with a fraction and an exponent denotes, and what rescaling promises of it:
  the coefficient is the number times \<open>10\<^bsup>scale\<^esup>\<close>, truncated; it is an error to lose whole digits or to
  need more than \<open>p\<close> digits; and a lost fraction is reported.
\<close>

definition decimal_number :: "string \<Rightarrow> string \<Rightarrow> int \<Rightarrow> real" where
  "decimal_number whole fraction e = real (decimal_value (whole @ fraction)) * 10 powi (e - int (length fraction))"

definition rescale_spec :: "real \<Rightarrow> nat \<Rightarrow> int \<Rightarrow> bool \<Rightarrow> scaled_decimal option \<times> decimal_conversion_issue" where
  "rescale_spec v p sc neg =
     (let c = nat \<lfloor>v * 10 powi sc\<rfloor>
      in if \<lfloor>real c * 10 powi (- sc)\<rfloor> \<noteq> \<lfloor>v\<rfloor> then (None, WholeDigitsLost)
         else if 10 ^ p \<le> c then (None, OutOfRange)
         else (Some \<lparr>coefficient = to_string c, scale = sc, negative = neg \<and> c \<noteq> 0\<rparr>,
               if real c * 10 powi (- sc) = v then Issue_None else FractionalTruncation))"

lemma scan_lost_eq:
  "scan_lost cs i d lost =
     (if \<exists>j < length cs. cs ! j \<noteq> CHR ''0'' \<and> int (i + j) < d then None
      else Some (lost \<or> (\<exists>c \<in> set cs. c \<noteq> CHR ''0'')))"
proof (induction cs arbitrary: i lost)
  case (Cons c cs)
  have "(\<exists>j < length (c # cs). (c # cs) ! j \<noteq> CHR ''0'' \<and> int (i + j) < d) \<longleftrightarrow>
      c \<noteq> CHR ''0'' \<and> int i < d \<or> (\<exists>j < length cs. cs ! j \<noteq> CHR ''0'' \<and> int (i + 1 + j) < d)"
    by (simp add: Ex_less_Suc2 ac_simps)
  then show ?case using Cons.IH by auto
qed simp

lemma powi_add: "(10 :: real) powi (m + n) = 10 powi m * 10 powi n"
  by (simp add: power_int_add)

lemma powi_minus: "0 \<le> n \<Longrightarrow> x * (10 :: real) powi (- n) = x / 10 ^ nat n"
  unfolding power_int_minus by (simp add: power_int_def field_simps)

lemma whole_digits_lost_iff:
  fixes d sc :: int
  assumes ds: "list_all is_digit ds"
  defines "v \<equiv> real (decimal_value ds) * 10 powi (d - int (length ds))"
  defines "c \<equiv> decimal_value (padded ds (nat (d + sc)))"
  shows "\<lfloor>real c * 10 powi (- sc)\<rfloor> \<noteq> \<lfloor>v\<rfloor> \<longleftrightarrow>
    (\<exists>i < length ds. d + sc \<le> int i \<and> int i < d \<and> ds ! i \<noteq> CHR ''0'')"
proof (cases "0 \<le> sc")
  case True
  have "int c = \<lfloor>v * 10 powi sc\<rfloor>"
    using point_shift(1) [OF ds, of "d + sc"] powi_add [of "d - int (length ds)" sc]
    by (simp add: c_def v_def algebra_simps)
  from arg_cong [OF this, of real_of_int]
  have "real c * 10 powi (- sc) = real_of_int \<lfloor>v * 10 ^ nat sc\<rfloor> / real_of_int (10 ^ nat sc)"
    unfolding powi_minus [OF True] using True by (simp add: power_int_def)
  also have "\<lfloor>\<dots>\<rfloor> = \<lfloor>v * 10 ^ nat sc\<rfloor> div 10 ^ nat sc"
    by (simp only: floor_divide_of_int_eq)
  also have "\<dots> = \<lfloor>v * 10 ^ nat sc / real_of_int (10 ^ nat sc)\<rfloor>"
    by (rule floor_divide_real_eq_div [symmetric]) simp
  finally show ?thesis using True by auto
next
  case False
  let ?s = "nat (- sc)" and ?A = "padded ds (nat (d + sc))" and ?B = "padded ds (nat d)"
  let ?blk = "drop (nat (d + sc)) ?B"
  have v: "\<lfloor>v\<rfloor> = int (decimal_value ?B)" using point_shift(1) [OF ds, of d] by (simp add: v_def)
  have "real c * 10 powi (- sc) = real_of_int (int (c * 10 ^ ?s))" using False by (simp add: power_int_def)
  then have "\<lfloor>real c * 10 powi (- sc)\<rfloor> = int (c * 10 ^ ?s)" by (simp only: floor_of_int)
  moreover have "decimal_value ?B = c * 10 ^ ?s + decimal_value ?blk"
  proof (cases "0 \<le> d + sc")
    case True
    then have "nat d - nat (d + sc) = ?s" "nat (d + sc) \<le> nat d" using False by auto
    then show ?thesis using padded_value [of "nat (d + sc)" "nat d" ds] by (simp add: c_def)
  qed (simp add: c_def padded_def)
  moreover have "decimal_value ?blk = 0 \<longleftrightarrow> (\<forall>i < nat d. nat (d + sc) \<le> i \<longrightarrow> ?B ! i = CHR ''0'')"
  proof -
    have "list_all is_digit ?blk" using padded_digits [OF ds, of "nat d"] by (auto simp: list_all_iff dest: in_set_dropD)
    then have "decimal_value ?blk = 0 \<longleftrightarrow> (\<forall>j < nat d - nat (d + sc). ?B ! (nat (d + sc) + j) = CHR ''0'')"
      by (auto simp: decimal_value_zero all_set_conv_all_nth)
    then show ?thesis by (metis le_add1 le_Suc_ex less_diff_conv2 add.commute nat_add_left_cancel_less less_diff_conv)
  qed
  ultimately have "\<lfloor>real c * 10 powi (- sc)\<rfloor> \<noteq> \<lfloor>v\<rfloor> \<longleftrightarrow>
      \<not> (\<forall>i < nat d. nat (d + sc) \<le> i \<longrightarrow> ?B ! i = CHR ''0'')"
    unfolding v by (metis add_cancel_right_right of_nat_eq_iff)
  also have "\<dots> \<longleftrightarrow> (\<exists>i < nat d. nat (d + sc) \<le> i \<and> i < length ds \<and> ds ! i \<noteq> CHR ''0'')"
    by (auto simp: padded_nth)
  also have "\<dots> \<longleftrightarrow> (\<exists>i < length ds. d + sc \<le> int i \<and> int i < d \<and> ds ! i \<noteq> CHR ''0'')"
    by (auto simp: zless_nat_eq_int_zless nat_le_iff)
  finally show ?thesis .
qed

lemma powi_cancel: "x * (10 :: real) powi (- n) = y \<longleftrightarrow> x = y * 10 powi n"
  unfolding power_int_minus by (auto simp: field_simps)

lemma leading_zeros:
  fixes ds :: string
  defines "first \<equiv> length (takeWhile (\<lambda>c. c = CHR ''0'') ds)"
  shows "i < first \<Longrightarrow> ds ! i = CHR ''0''" and "first < length ds \<Longrightarrow> ds ! first \<noteq> CHR ''0''" and "first \<le> length ds"
  using nth_length_takeWhile [of "\<lambda>c. c = CHR ''0''" ds] takeWhile_nth [of i "\<lambda>c. c = CHR ''0''" ds]
    set_takeWhileD [of "ds ! i" "\<lambda>c. c = CHR ''0''" ds] nth_mem [of i "takeWhile (\<lambda>c. c = CHR ''0'') ds"]
  by (auto simp: first_def length_takeWhile_le)

text \<open>The coefficient's digits without the leading zeros.\<close>

lemma coefficient_digits:
  fixes ds :: string and n :: nat
  defines "first \<equiv> length (takeWhile (\<lambda>c. c = CHR ''0'') ds)"
  assumes ds: "list_all is_digit ds" "first < length ds"
  shows "n \<le> first \<Longrightarrow> decimal_value (padded ds n) = 0"
    and "first < n \<Longrightarrow> decimal_value (padded ds n) = decimal_value (drop first (padded ds n))"
    and "first < n \<Longrightarrow> to_string (decimal_value (padded ds n)) = drop first (padded ds n)"
    and "first < n \<Longrightarrow> 10 ^ p \<le> decimal_value (padded ds n) \<longleftrightarrow> p < n - first"
proof -
  note zeros = leading_zeros(1) [of _ ds, folded first_def] leading_zeros(2) [of ds, folded first_def]
  have digits: "list_all is_digit (padded ds m)" for m using padded_digits [OF ds(1)] .
  show zero: "decimal_value (padded ds n) = 0" if "n \<le> first" for n
    using that zeros(1) ds(2) by (subst decimal_value_zero [OF digits]) (auto simp: in_set_conv_nth padded_nth)
  show eq: "decimal_value (padded ds n) = decimal_value (drop first (padded ds n))" if "first < n"
    using padded_value [of first n ds] zero [of first] that by simp
  let ?c = "drop first (padded ds n)"
  have "list_all is_digit ?c" using digits [of n] by (auto simp: list_all_iff dest: in_set_dropD)
  moreover have "?c \<noteq> []" "hd ?c \<noteq> CHR ''0''" if "first < n"
    using that ds(2) zeros(2) by (auto simp: hd_drop_conv_nth padded_nth)
  ultimately show "first < n \<Longrightarrow> to_string (decimal_value (padded ds n)) = ?c"
    and "first < n \<Longrightarrow> 10 ^ p \<le> decimal_value (padded ds n) \<longleftrightarrow> p < n - first"
    using to_string_decimal_value [of ?c] decimal_value_leading [of ?c p] eq by simp_all
qed

lemma coefficient_text:
  assumes "first < length ds" "int first < e" and "kept = nat (min e (int (length ds)))"
  shows "substr first (kept - first) ds @
      (if int (length ds) < e then replicate (nat (e - int (length ds))) (CHR ''0'') else []) =
    drop first (padded ds (nat e))"
proof (cases "int (length ds) < e")
  case True
  then have "nat e - length ds = nat (e - int (length ds))" "length ds \<le> nat e" by simp_all
  with True show ?thesis using assms by (simp add: padded_long substr_def)
next
  case False
  then show ?thesis using assms by (simp add: padded_short substr_def drop_take)
qed

lemma to_string_0: "to_string n = ''0'' \<longleftrightarrow> n = 0"
proof -
  have "digit_char 0 = CHR ''0''" using digit_char_digit_value [of "CHR ''0''"] by (simp add: digit_value_def)
  then have "to_string 0 = ''0''" by (subst to_string.simps) simp
  then show ?thesis by (metis decimal_value_to_string)
qed

lemma ex_drop_nth:
  "(\<exists>j < length (drop k xs). drop k xs ! j \<noteq> a \<and> int (k + j) < d) \<longleftrightarrow>
    (\<exists>i < length xs. k \<le> i \<and> xs ! i \<noteq> a \<and> int i < d)" (is "?l \<longleftrightarrow> ?r")
proof
  assume ?l
  then obtain j where "j < length (drop k xs)" "drop k xs ! j \<noteq> a" "int (k + j) < d" by blast
  then show ?r by (intro exI [of _ "k + j"]) auto
next
  assume ?r
  then obtain i where "i < length xs" "k \<le> i" "xs ! i \<noteq> a" "int i < d" by blast
  then show ?l by (intro exI [of _ "i - k"]) auto
qed

lemma scan_lost_digits:
  fixes ds :: string and d sc :: int
  defines "kept \<equiv> (if d + sc \<le> 0 then 0 else nat (min (d + sc) (int (length ds))))"
  shows "scan_lost (drop kept ds) kept d False =
    (if \<exists>i < length ds. d + sc \<le> int i \<and> int i < d \<and> ds ! i \<noteq> CHR ''0'' then None
     else Some (\<exists>c \<in> set (drop (nat (d + sc)) ds). c \<noteq> CHR ''0''))"
proof -
  have kept: "kept = min (nat (d + sc)) (length ds)" by (auto simp: kept_def)
  then have "drop kept ds = drop (nat (d + sc)) ds" by (simp add: min_def)
  moreover have "(\<exists>j < length (drop kept ds). drop kept ds ! j \<noteq> CHR ''0'' \<and> int (kept + j) < d) \<longleftrightarrow>
      (\<exists>i < length ds. d + sc \<le> int i \<and> int i < d \<and> ds ! i \<noteq> CHR ''0'')"
  proof -
    have "kept \<le> i \<longleftrightarrow> d + sc \<le> int i" if "i < length ds" for i using that by (auto simp: kept)
    then show ?thesis unfolding ex_drop_nth by blast
  qed
  ultimately show ?thesis by (simp only: scan_lost_eq simp_thms)
qed

text \<open>The code's computation, with the loop and the string surgery replaced by what they compute.\<close>

lemma rescale_digits_nonzero:
  fixes whole fraction :: string and e sc :: int
  defines "ds \<equiv> whole @ fraction"
  defines "first \<equiv> length (takeWhile (\<lambda>c. c = CHR ''0'') ds)"
  defines "d \<equiv> int (length whole) + e"
  defines "c \<equiv> decimal_value (padded ds (nat (d + sc)))"
  assumes ds: "list_all is_digit ds" "first < length ds" and p: "1 \<le> p"
  shows "rescale_digits whole fraction e p sc neg =
    (if \<exists>i < length ds. d + sc \<le> int i \<and> int i < d \<and> ds ! i \<noteq> CHR ''0'' then (None, WholeDigitsLost)
     else if 10 ^ p \<le> c then (None, OutOfRange)
     else (Some \<lparr>coefficient = to_string c, scale = sc, negative = neg \<and> c \<noteq> 0\<rparr>,
           if \<exists>c \<in> set (drop (nat (d + sc)) ds). c \<noteq> CHR ''0'' then FractionalTruncation else Issue_None))"
    (is "_ = (if ?lost then _ else if _ then _ else (_, if ?fraction then _ else _))")
proof -
  define coeff where "coeff =
    (if int first < d + sc
     then substr first ((if d + sc \<le> 0 then 0 else nat (min (d + sc) (int (length ds)))) - first) ds @
       (if int (length ds) < d + sc then replicate (nat (d + sc - int (length ds))) (CHR ''0'') else [])
     else ''0'')"
  have "rescale_digits whole fraction e p sc neg =
    (case if ?lost then None else Some ?fraction of
       None \<Rightarrow> (None, WholeDigitsLost)
     | Some lost_fraction \<Rightarrow>
         if int first < d + sc \<and> int p < d + sc - int first then (None, OutOfRange)
         else (Some \<lparr>coefficient = coeff, scale = sc, negative = neg \<and> coeff \<noteq> ''0''\<rparr>,
               if lost_fraction then FractionalTruncation else Issue_None))"
    unfolding rescale_digits_def Let_def ds_def [symmetric] first_def [symmetric] d_def [symmetric]
      scan_lost_digits coeff_def [symmetric] using ds(2) by simp
  moreover have "coeff = to_string c"
  proof (cases "int first < d + sc")
    case True
    then have "\<not> d + sc \<le> 0" "first < nat (d + sc)" by linarith+
    with True show ?thesis
      using coefficient_text [OF ds(2) True refl] coefficient_digits(3) [of ds, folded first_def, OF ds]
      by (simp add: coeff_def c_def)
  next
    case False
    then show ?thesis using coefficient_digits(1) [of ds, folded first_def, OF ds] to_string_0 [of 0]
      by (simp add: coeff_def c_def nat_le_iff)
  qed
  moreover have "int first < d + sc \<and> int p < d + sc - int first \<longleftrightarrow> 10 ^ p \<le> c"
  proof (cases "int first < d + sc")
    case True
    then have "first < nat (d + sc)" by linarith
    then show ?thesis using True coefficient_digits(4) [of ds, folded first_def, OF ds] by (auto simp: c_def)
  next
    case False
    then show ?thesis using coefficient_digits(1) [of ds, folded first_def, OF ds]
      by (simp add: c_def nat_le_iff)
  qed
  ultimately show ?thesis
    by (cases ?lost) (simp_all only: if_True if_False option.case to_string_0 simp_thms)
qed

lemma if_not: "(if \<not> b then x else y) = (if b then y else x)"
  by simp

lemma rescale_digits_exact:
  assumes "list_all is_digit (whole @ fraction)" "1 \<le> p"
  shows "rescale_digits whole fraction e p sc neg = rescale_spec (decimal_number whole fraction e) p sc neg"
proof -
  let ?ds = "whole @ fraction"
  let ?d = "int (length whole) + e" and ?v = "decimal_number whole fraction e"
  let ?c = "decimal_value (padded ?ds (nat (?d + sc)))"
  have v: "?v = real (decimal_value ?ds) * 10 powi (?d - int (length ?ds))"
    by (simp add: decimal_number_def algebra_simps)
  have vs: "?v * 10 powi sc = real (decimal_value ?ds) * 10 powi (?d + sc - int (length ?ds))"
    unfolding v using powi_add [of "?d - int (length ?ds)" sc] by (simp add: algebra_simps)
  have c: "nat \<lfloor>?v * 10 powi sc\<rfloor> = ?c"
    unfolding vs by (subst point_shift(1) [OF assms(1)]) simp
  have whole: "\<lfloor>real ?c * 10 powi (- sc)\<rfloor> \<noteq> \<lfloor>?v\<rfloor> \<longleftrightarrow>
      (\<exists>i < length ?ds. ?d + sc \<le> int i \<and> int i < ?d \<and> ?ds ! i \<noteq> CHR ''0'')"
    unfolding v by (rule whole_digits_lost_iff [OF assms(1)])
  have exact: "real ?c * 10 powi (- sc) = ?v \<longleftrightarrow> \<not> (\<exists>c \<in> set (drop (nat (?d + sc)) ?ds). c \<noteq> CHR ''0'')"
    unfolding powi_cancel vs using point_shift(2) [OF assms(1), of "?d + sc"] by (auto simp: eq_commute)
  show ?thesis
  proof (cases "length (takeWhile (\<lambda>c. c = CHR ''0'') ?ds) < length ?ds")
    case False
    then have all: "length (takeWhile (\<lambda>c. c = CHR ''0'') ?ds) = length ?ds"
      using leading_zeros(3) [of ?ds] by (metis le_neq_implies_less)
    then have "takeWhile (\<lambda>c. c = CHR ''0'') ?ds = ?ds" by (metis takeWhile_eq_take take_all order_refl)
    then have "\<forall>c \<in> set ?ds. c = CHR ''0''" by (simp only: takeWhile_eq_all_conv)
    then have "decimal_value ?ds = 0" by (simp only: decimal_value_zero [OF assms(1)])
    then have "?v = 0" by (simp add: decimal_number_def)
    with all show ?thesis using assms(2) to_string_0 [of 0]
      by (simp only: rescale_digits_def rescale_spec_def Let_def if_True) simp
  next
    case True
    show ?thesis
      unfolding rescale_digits_nonzero [OF assms(1) True assms(2)] rescale_spec_def Let_def c whole exact
      by (simp only: if_not)
  qed
qed

subsection \<open>Clamping the exponent loses nothing\<close>

lemma exponent_step_min:
  "0 < limit \<Longrightarrow> exponent_step limit (min limit (int v)) c = min limit (int (10 * v + digit_value c))"
  by (auto simp: exponent_step_def Let_def min_def div_less_iff_less_mult)

lemma foldl_exponent_step:
  "0 < limit \<Longrightarrow> foldl (exponent_step limit) 0 ds = min limit (int (decimal_value ds))"
  by (induction ds rule: rev_induct) (simp_all add: exponent_step_min)

lemma scan_lost_below: "d \<le> 0 \<Longrightarrow> scan_lost ds 0 d False = Some (\<exists>c \<in> set ds. c \<noteq> CHR ''0'')"
  by (simp add: scan_lost_eq)

text \<open>With an exponent beyond the limit the outcome does not depend on it.\<close>

lemma rescale_digits_large:
  assumes "int (length (whole @ fraction)) + int p + \<bar>sc\<bar> < e"
  shows "rescale_digits whole fraction e p sc neg =
    (if length (takeWhile (\<lambda>c. c = CHR ''0'') (whole @ fraction)) = length (whole @ fraction)
     then (Some \<lparr>coefficient = ''0'', scale = sc, negative = False\<rparr>, Issue_None) else (None, OutOfRange))"
proof -
  have "int (length (whole @ fraction)) + int p < int (length whole) + e + sc" using assms by simp
  then show ?thesis
    using leading_zeros(3) [of "whole @ fraction"] by (auto simp: rescale_digits_def Let_def min_def)
qed

lemma rescale_digits_small:
  assumes "e < - (int (length (whole @ fraction)) + int p + \<bar>sc\<bar>)"
  shows "rescale_digits whole fraction e p sc neg =
    (if length (takeWhile (\<lambda>c. c = CHR ''0'') (whole @ fraction)) = length (whole @ fraction)
     then (Some \<lparr>coefficient = ''0'', scale = sc, negative = False\<rparr>, Issue_None)
     else (Some \<lparr>coefficient = ''0'', scale = sc, negative = False\<rparr>,
           if \<exists>c \<in> set (whole @ fraction). c \<noteq> CHR ''0'' then FractionalTruncation else Issue_None))"
proof -
  have "int (length whole) + e + sc \<le> 0" "int (length whole) + e \<le> 0" using assms by simp_all
  then show ?thesis
    using scan_lost_below [of "int (length whole) + e" "whole @ fraction"] by (simp add: rescale_digits_def Let_def)
qed

definition clamp :: "int \<Rightarrow> int \<Rightarrow> int" where
  "clamp limit e = max (- limit) (min limit e)"

lemma rescale_digits_clamp:
  assumes "int (length (whole @ fraction)) + int p + \<bar>sc\<bar> < limit"
  shows "rescale_digits whole fraction (clamp limit e) p sc neg = rescale_digits whole fraction e p sc neg"
proof -
  consider "limit < e" | "e < - limit" | "clamp limit e = e" by (force simp: clamp_def)
  then show ?thesis
  proof cases
    case 1
    then have "clamp limit e = limit" using assms by (simp add: clamp_def)
    with 1 assms show ?thesis by (simp only: rescale_digits_large less_trans)
  next
    case 2
    then have "clamp limit e = - limit" using assms by (simp add: clamp_def)
    with 2 assms show ?thesis
      using rescale_digits_small [of e whole fraction p sc neg] rescale_digits_small [of "- limit" whole fraction p sc neg]
      by simp
  qed simp
qed

subsection \<open>The texts that are read\<close>

text \<open>The grammar of the accepted texts, with what they denote.\<close>

definition exponent_syntax :: "string \<Rightarrow> int \<Rightarrow> bool" where
  "exponent_syntax ex e \<longleftrightarrow>
     ex = [] \<and> e = 0 \<or>
     (\<exists>m sg ds. ex = m # sg @ ds \<and> m \<in> {CHR ''e'', CHR ''E''} \<and> ds \<noteq> [] \<and> list_all is_digit ds \<and>
        (sg \<in> {[], ''+''} \<and> e = int (decimal_value ds) \<or> sg = ''-'' \<and> e = - int (decimal_value ds)))"

definition number_syntax :: "string \<Rightarrow> string \<Rightarrow> string \<Rightarrow> int \<Rightarrow> bool" where
  "number_syntax t whole fraction e \<longleftrightarrow>
     list_all is_digit whole \<and> list_all is_digit fraction \<and> \<not> (whole = [] \<and> fraction = []) \<and>
     (\<exists>dot ex. t = whole @ dot @ ex \<and> (dot = [] \<and> fraction = [] \<or> dot = CHR ''.'' # fraction) \<and> exponent_syntax ex e)"

definition decimal_syntax :: "string \<Rightarrow> bool \<Rightarrow> string \<Rightarrow> string \<Rightarrow> int \<Rightarrow> bool" where
  "decimal_syntax text neg whole fraction e \<longleftrightarrow>
     (\<exists>ws sign t ws'. text = ws @ sign @ t @ ws' \<and> list_all whitespace ws \<and> list_all whitespace ws' \<and>
        (sign, neg) \<in> {([], False), (''+'', False), (''-'', True)} \<and> number_syntax t whole fraction e)"

lemma number_syntaxI:
  "list_all is_digit whole \<Longrightarrow> list_all is_digit fraction \<Longrightarrow> \<not> (whole = [] \<and> fraction = []) \<Longrightarrow>
    dot = [] \<and> fraction = [] \<or> dot = CHR ''.'' # fraction \<Longrightarrow> exponent_syntax ex e \<Longrightarrow>
    number_syntax (whole @ dot @ ex) whole fraction e"
  unfolding number_syntax_def by blast

lemma decimal_syntaxI:
  "list_all whitespace ws \<Longrightarrow> list_all whitespace ws' \<Longrightarrow> (sign, neg) \<in> {([], False), (''+'', False), (''-'', True)} \<Longrightarrow>
    number_syntax t whole fraction e \<Longrightarrow> decimal_syntax (ws @ sign @ t @ ws') neg whole fraction e"
  unfolding decimal_syntax_def by blast

lemma takeWhile_digits:
  "list_all is_digit ds \<Longrightarrow> r = [] \<or> \<not> is_digit (hd r) \<Longrightarrow> takeWhile is_digit (ds @ r) = ds"
  by (cases r) (auto simp: takeWhile_append list_all_iff)

lemma dropWhile_digits:
  "list_all is_digit ds \<Longrightarrow> r = [] \<or> \<not> is_digit (hd r) \<Longrightarrow> dropWhile is_digit (ds @ r) = r"
  by (cases r) (auto simp: dropWhile_append list_all_iff)

lemma not_digits [simp]:
  "\<not> is_digit (CHR ''.'')" "\<not> is_digit (CHR ''e'')" "\<not> is_digit (CHR ''E'')"
  "\<not> is_digit (CHR ''+'')" "\<not> is_digit (CHR ''-'')"
  by (simp_all add: is_digit_def)

lemma takeWhile_digits_all [simp]: "list_all is_digit (takeWhile is_digit s)"
  by (auto simp: list_all_iff dest: set_takeWhileD)

lemma digit_head: "ds \<noteq> [] \<Longrightarrow> list_all is_digit ds \<Longrightarrow> is_digit (hd ds)"
  by (cases ds) auto

lemma scan_exponent_complete:
  assumes "exponent_syntax ex e" "0 < limit"
  shows "scan_exponent limit ex = Some (clamp limit e, [])"
proof (cases "ex = []")
  case True
  then show ?thesis using assms by (simp add: scan_exponent_def exponent_syntax_def clamp_def)
next
  case False
  then obtain m sg ds where ex: "ex = m # sg @ ds" "m \<in> {CHR ''e'', CHR ''E''}" and ds: "ds \<noteq> []" "list_all is_digit ds"
    and sg: "sg \<in> {[], ''+''} \<and> e = int (decimal_value ds) \<or> sg = ''-'' \<and> e = - int (decimal_value ds)"
    using assms(1) by (auto simp: exponent_syntax_def)
  have "hd ds \<noteq> CHR ''+''" "hd ds \<noteq> CHR ''-''" using digit_head [OF ds] by auto
  moreover have run: "takeWhile is_digit ds = ds" "dropWhile is_digit ds = []"
    using ds takeWhile_digits [of ds "[]"] dropWhile_digits [of ds "[]"] by simp_all
  moreover have "clamp limit (int (decimal_value ds)) = min limit (int (decimal_value ds))"
    "clamp limit (- int (decimal_value ds)) = - min limit (int (decimal_value ds))"
    using assms(2) by (auto simp: clamp_def)
  ultimately show ?thesis
    using ex ds sg assms(2)
    by (elim disjE conjE insertE emptyE) (simp_all add: scan_exponent_def Let_def foldl_exponent_step run)
qed

lemma exponent_syntaxI:
  "m \<in> {CHR ''e'', CHR ''E''} \<Longrightarrow> ds \<noteq> [] \<Longrightarrow> list_all is_digit ds \<Longrightarrow> sg \<in> {[], ''+'', ''-''} \<Longrightarrow>
    exponent_syntax (m # sg @ ds) (if sg = ''-'' then - int (decimal_value ds) else int (decimal_value ds))"
  unfolding exponent_syntax_def
  by (rule disjI2, rule exI [of _ m], rule exI [of _ sg], rule exI [of _ ds]) auto

lemma scan_exponent_sound:
  assumes "scan_exponent limit ex = Some (e', [])"
  shows "\<exists>e. exponent_syntax ex e"
proof (cases ex)
  case Nil
  then show ?thesis by (auto simp: exponent_syntax_def)
next
  case (Cons m r)
  define r' where "r' = (if r \<noteq> [] \<and> (hd r = CHR ''+'' \<or> hd r = CHR ''-'') then tl r else r)"
  have m: "m \<in> {CHR ''e'', CHR ''E''}" and ne: "takeWhile is_digit r' \<noteq> []" and "dropWhile is_digit r' = []"
    using assms Cons by (auto simp: scan_exponent_def Let_def r'_def split: if_splits)
  then have ds: "list_all is_digit r'" "r' \<noteq> []" by (auto simp: dropWhile_eq_Nil_conv list_all_iff)
  have "\<exists>sg \<in> {[], ''+'', ''-''}. r = sg @ r'"
    by (cases r) (auto simp: r'_def)
  then obtain sg where sg: "sg \<in> {[], ''+'', ''-''}" "r = sg @ r'" by (rule bexE)
  show ?thesis unfolding Cons sg(2) by (rule exI, rule exponent_syntaxI [OF m ds(2,1) sg(1)])
qed

lemma exponent_head: "exponent_syntax ex e \<Longrightarrow> ex = [] \<or> \<not> is_digit (hd ex) \<and> hd ex \<noteq> CHR ''.''"
  by (auto simp: exponent_syntax_def)

lemma rescale_number_complete:
  assumes "number_syntax t whole fraction e" "1 \<le> p"
  shows "rescale_number t p sc neg = rescale_spec (decimal_number whole fraction e) p sc neg"
proof -
  obtain dot ex where t: "t = whole @ dot @ ex" and dot: "dot = [] \<and> fraction = [] \<or> dot = CHR ''.'' # fraction"
    and ex: "exponent_syntax ex e" and digits: "list_all is_digit whole" "list_all is_digit fraction"
    and ne: "\<not> (whole = [] \<and> fraction = [])"
    using assms(1) by (auto simp: number_syntax_def)
  let ?limit = "int (length t) + int p + \<bar>sc\<bar> + 1"
  have "dot @ ex = [] \<or> \<not> is_digit (hd (dot @ ex))" using dot exponent_head [OF ex] by auto
  then have whole: "takeWhile is_digit t = whole" "dropWhile is_digit t = dot @ ex"
    unfolding t using digits takeWhile_digits dropWhile_digits by blast+
  have fraction: "takeWhile is_digit (fraction @ ex) = fraction" "dropWhile is_digit (fraction @ ex) = ex"
    using digits exponent_head [OF ex] takeWhile_digits dropWhile_digits by blast+
  have "int (length (whole @ fraction)) + int p + \<bar>sc\<bar> < ?limit" using t dot by auto
  note clamp = rescale_digits_clamp [OF this]
  have scan: "scan_exponent ?limit ex = Some (clamp ?limit e, [])" by (rule scan_exponent_complete [OF ex]) simp
  have "rescale_number t p sc neg = rescale_digits whole fraction (clamp ?limit e) p sc neg"
  proof (cases "dot = []")
    case True
    then have "fraction = []" and nodot: "(ex \<noteq> [] \<and> hd ex = CHR ''.'') = False"
      using dot exponent_head [OF ex] by auto
    with True ne show ?thesis
      unfolding rescale_number_def Let_def whole True append.simps nodot if_False scan by simp
  next
    case False
    then have "dot = CHR ''.'' # fraction" using dot by blast
    then show ?thesis using ne scan by (auto simp: rescale_number_def whole fraction)
  qed
  then show ?thesis using clamp rescale_digits_exact [of whole fraction p] digits assms(2) by simp
qed

lemma rescale_number_sound:
  assumes "rescale_number t p sc neg \<noteq> (None, InvalidCharacter)"
  shows "\<exists>whole fraction e. number_syntax t whole fraction e"
proof -
  define whole rest where "whole = takeWhile is_digit t" and "rest = dropWhile is_digit t"
  define point where "point \<longleftrightarrow> rest \<noteq> [] \<and> hd rest = CHR ''.''"
  define fraction where "fraction = (if point then takeWhile is_digit (tl rest) else [])"
  define ex where "ex = (if point then dropWhile is_digit (tl rest) else rest)"
  obtain e' where ne: "\<not> (whole = [] \<and> fraction = [])"
    and "scan_exponent (int (length t) + int p + \<bar>sc\<bar> + 1) ex = Some (e', [])"
    using assms unfolding rescale_number_def Let_def whole_def [symmetric] rest_def [symmetric]
      point_def [symmetric] fraction_def [symmetric] ex_def [symmetric]
    by (auto split: if_splits option.splits)
  then obtain e where e: "exponent_syntax ex e" using scan_exponent_sound by blast
  have "rest = (if point then CHR ''.'' # fraction else []) @ ex"
    by (cases rest) (auto simp: fraction_def ex_def point_def)
  then have "t = whole @ (if point then CHR ''.'' # fraction else []) @ ex"
    using takeWhile_dropWhile_id [of is_digit t] by (simp add: whole_def rest_def)
  moreover have "list_all is_digit whole" "list_all is_digit fraction" "\<not> point \<Longrightarrow> fraction = []"
    by (simp_all add: whole_def fraction_def)
  ultimately have "number_syntax t whole fraction e" using ne e unfolding number_syntax_def
    by (intro conjI exI [of _ "if point then CHR ''.'' # fraction else []"] exI [of _ ex]) auto
  then show ?thesis by blast
qed

lemma number_syntax_chars:
  assumes "number_syntax t whole fraction e"
  shows "t \<noteq> []" "c \<in> set t \<Longrightarrow> \<not> whitespace c" "hd t \<noteq> CHR ''+''" "hd t \<noteq> CHR ''-''"
proof -
  have digit: "is_digit c \<Longrightarrow> \<not> whitespace c" for c by (auto simp: is_digit_def whitespace_def)
  have chars: "\<not> whitespace (CHR ''.'')" "\<not> whitespace (CHR ''e'')" "\<not> whitespace (CHR ''E'')"
    "\<not> whitespace (CHR ''+'')" "\<not> whitespace (CHR ''-'')" by (simp_all add: whitespace_def)
  obtain dot ex where t: "t = whole @ dot @ ex" and dot: "dot = [] \<and> fraction = [] \<or> dot = CHR ''.'' # fraction"
    and ex: "exponent_syntax ex e" and digits: "list_all is_digit whole" "list_all is_digit fraction"
    and ne: "\<not> (whole = [] \<and> fraction = [])"
    using assms by (auto simp: number_syntax_def)
  have "c \<in> set ex \<Longrightarrow> \<not> whitespace c" using ex chars by (auto simp: exponent_syntax_def list_all_iff digit)
  then show "c \<in> set t \<Longrightarrow> \<not> whitespace c"
    unfolding t using dot digits chars(1) by (auto simp: list_all_iff digit)
  show "t \<noteq> []" using t dot ne by auto
  have "is_digit (hd t) \<or> hd t = CHR ''.''"
    using t dot ne digits digit_head [of whole] by (cases "whole = []") auto
  then show "hd t \<noteq> CHR ''+''" "hd t \<noteq> CHR ''-''" by auto
qed

lemma trim_whitespace_split:
  obtains ws ws' where "text = ws @ trim_whitespace text @ ws'" "list_all whitespace ws" "list_all whitespace ws'"
proof -
  let ?r = "dropWhile whitespace text"
  have "text = takeWhile whitespace text @ trim_whitespace text @ rev (takeWhile whitespace (rev ?r))"
    using takeWhile_dropWhile_id [of whitespace "text"] takeWhile_dropWhile_id [of whitespace "rev ?r"]
    by (metis rev_append rev_rev_ident trim_whitespace_def)
  moreover have "list_all whitespace (takeWhile whitespace text)" "list_all whitespace (rev (takeWhile whitespace (rev ?r)))"
    by (auto simp: list_all_iff dest: set_takeWhileD)
  ultimately show thesis by (rule that)
qed

lemma trim_whitespace_text:
  assumes "list_all whitespace ws" "list_all whitespace ws'" "t \<noteq> []" "\<not> whitespace (hd t)" "\<not> whitespace (last t)"
  shows "trim_whitespace (ws @ t @ ws') = t"
proof -
  have "dropWhile whitespace (ws @ t @ ws') = t @ ws'"
    using assms by (cases t) (auto simp: dropWhile_append list_all_iff)
  moreover have "dropWhile whitespace (rev ws' @ rev t) = rev t"
    using assms by (cases t rule: rev_cases) (auto simp: dropWhile_append list_all_iff)
  ultimately show ?thesis by (simp add: trim_whitespace_def)
qed

lemma rescale_decimal_outcome:
  assumes "decimal_syntax input neg whole fraction e" "1 \<le> precision"
    and "length input \<le> safe_size" "precision \<le> safe_size" "\<bar>sc\<bar> \<le> int safe_size"
  shows "rescale_decimal input precision sc = rescale_spec (decimal_number whole fraction e) precision sc neg"
proof -
  obtain ws sign t ws' where input: "input = ws @ sign @ t @ ws'" "list_all whitespace ws" "list_all whitespace ws'"
    and sign: "(sign, neg) \<in> {([], False), (''+'', False), (''-'', True)}" and t: "number_syntax t whole fraction e"
    using assms(1) unfolding decimal_syntax_def by blast
  note chars = number_syntax_chars [OF t]
  have "trim_whitespace (ws @ (sign @ t) @ ws') = sign @ t"
    using chars sign by (intro trim_whitespace_text input) (auto simp: whitespace_def)
  then have trim: "trim_whitespace input = sign @ t" using input by simp
  have len: "\<not> safe_size < length t" using assms(3) input(1) by simp
  show ?thesis
    using sign chars len assms(2,4,5) rescale_number_complete [OF t assms(2)]
    unfolding rescale_decimal_def Let_def trim by auto
qed

text \<open>
  C12: reading a decimal is exact. Every text of the grammar, with blanks, sign, fraction and an exponent of
  any size, is rescaled as the number \<open>v\<close> it denotes: the coefficient is \<open>v \<cdot> 10\<^bsup>scale\<^esup>\<close> truncated, the outcome is
  \<^verbatim>\<open>WholeDigitsLost\<close> exactly if this drops a nonzero whole digit, \<^verbatim>\<open>OutOfRange\<close> exactly if the coefficient has more
  than \<open>precision\<close> digits, and \<^verbatim>\<open>FractionalTruncation\<close> is raised exactly if a nonzero fraction was dropped. So
  clamping the exponent while it is read never changes an outcome.
\<close>

theorem rescale_decimal_exact:
  assumes "decimal_syntax input neg whole fraction e" "1 \<le> precision"
    and "length input \<le> safe_size" "precision \<le> safe_size" "\<bar>sc\<bar> \<le> int safe_size"
  shows "rescale_decimal input precision sc = rescale_spec (decimal_number whole fraction e) precision sc neg"
  using assms by (rule rescale_decimal_outcome)

theorem rescale_decimal_exact_witness:
  "decimal_syntax '' -12.75e1 '' True ''12'' ''75'' 1 \<and>
   rescale_decimal '' -12.75e1 '' 5 1 = rescale_spec (decimal_number ''12'' ''75'' 1) 5 1 True"
proof -
  have "exponent_syntax ''e1'' 1"
    using exponent_syntaxI [of "CHR ''e''" "''1''" "[]"] by (simp add: is_digit_def decimal_value_Cons digit_value_def)
  then have "number_syntax ''12.75e1'' ''12'' ''75'' 1"
    using number_syntaxI [of "''12''" "''75''" "''.75''" "''e1''" 1] by (simp add: is_digit_def)
  then have syn: "decimal_syntax '' -12.75e1 '' True ''12'' ''75'' 1"
    using decimal_syntaxI [of "'' ''" "'' ''" "''-''" True "''12.75e1''"] by (simp add: whitespace_def)
  then show ?thesis
    using rescale_decimal_exact [OF syn, of 5 1] by (simp add: safe_size_def)
qed

lemma sign_split:
  obtains sign neg where "s = sign @ (if s \<noteq> [] \<and> (hd s = CHR ''+'' \<or> hd s = CHR ''-'') then tl s else s)"
    "(sign, neg) \<in> {([], False), (''+'', False), (''-'', True)}"
  by (cases s; cases "hd s = CHR ''+''"; cases "hd s = CHR ''-''") (auto intro: that [of "[]"] that [of "''+''"] that [of "''-''"])

text \<open>
  C21: nothing outside the grammar is read. Within the size limits, the code reports \<^verbatim>\<open>InvalidCharacter\<close> exactly
  for the texts that denote no decimal.
\<close>

theorem rescale_decimal_invalid_iff:
  assumes "1 \<le> precision" "length input \<le> safe_size" "precision \<le> safe_size" "\<bar>sc\<bar> \<le> int safe_size"
  shows "snd (rescale_decimal input precision sc) = InvalidCharacter \<longleftrightarrow>
    (\<nexists>neg whole fraction e. decimal_syntax input neg whole fraction e)"
proof
  assume "snd (rescale_decimal input precision sc) = InvalidCharacter"
  then show "\<nexists>neg whole fraction e. decimal_syntax input neg whole fraction e"
    using rescale_decimal_outcome [OF _ assms] by (auto simp: rescale_spec_def Let_def split: if_splits)
next
  assume none: "\<nexists>neg whole fraction e. decimal_syntax input neg whole fraction e"
  obtain ws ws' where input: "input = ws @ trim_whitespace input @ ws'" "list_all whitespace ws" "list_all whitespace ws'"
    by (rule trim_whitespace_split)
  let ?s = "trim_whitespace input"
  define t where t: "t = (if ?s \<noteq> [] \<and> (hd ?s = CHR ''+'' \<or> hd ?s = CHR ''-'') then tl ?s else ?s)"
  obtain sign neg where s: "?s = sign @ t" "(sign, neg) \<in> {([], False), (''+'', False), (''-'', True)}"
    unfolding t by (rule sign_split)
  have "length t \<le> length input" using input(1) s(1) by (metis length_append add_leD1 add_leD2 order_refl)
  then have eq: "rescale_decimal input precision sc = rescale_number t precision sc (?s \<noteq> [] \<and> hd ?s = CHR ''-'')"
    using assms by (simp add: rescale_decimal_def Let_def t)
  have "\<not> number_syntax t whole fraction e" for whole fraction e
    using none input s unfolding decimal_syntax_def by (metis append.assoc)
  then show "snd (rescale_decimal input precision sc) = InvalidCharacter"
    using rescale_number_sound eq by (metis snd_conv)
qed

theorem rescale_decimal_invalid_iff_witness:
  "(\<nexists>neg whole fraction e. decimal_syntax ''1e+'' neg whole fraction e) \<and>
   snd (rescale_decimal ''1e+'' 5 0) = InvalidCharacter"
proof -
  have "snd (rescale_decimal ''1e+'' 5 0) = InvalidCharacter"
    by (simp add: rescale_decimal_def rescale_number_def scan_exponent_def trim_whitespace_def whitespace_def
        is_digit_def safe_size_def)
  then show ?thesis using rescale_decimal_invalid_iff [of 5 "''1e+''" 0] by (simp add: safe_size_def)
qed

subsection \<open>Printing\<close>

definition significant_digits :: "string \<Rightarrow> string" where
  "significant_digits s =
     (let stripped = dropWhile (\<lambda>c. c = CHR ''0'') s in if stripped = [] then ''0'' else stripped)"

text \<open>The text without a bound on its length.\<close>

definition decimal_text :: "scaled_decimal \<Rightarrow> string" where
  "decimal_text v =
     (let digits = significant_digits (coefficient v);
          nonzero = (\<exists>c \<in> set (coefficient v). c \<noteq> CHR ''0'');
          ps = nat (scale v)
      in (if negative v \<and> nonzero then ''-'' else []) @
         (if ps = 0 then digits @ (if nonzero then replicate (nat (- scale v)) (CHR ''0'') else [])
          else if length digits \<le> ps then ''0.'' @ replicate (ps - length digits) (CHR ''0'') @ digits
          else take (length digits - ps) digits @ ''.'' @ drop (length digits - ps) digits))"

lemma strip_zeros_Nil: "dropWhile (\<lambda>c. c = CHR ''0'') s = [] \<longleftrightarrow> \<not> (\<exists>c \<in> set s. c \<noteq> CHR ''0'')"
  by (auto simp: dropWhile_eq_Nil_conv)

lemma format_scaled_decimal_text:
  "format_scaled_decimal v max_output_bytes =
     (if coefficient v \<noteq> [] \<and> list_all is_digit (coefficient v) \<and> length (decimal_text v) \<le> max_output_bytes
      then Some (decimal_text v) else None)"
proof -
  define st where "st = dropWhile (\<lambda>c. c = CHR ''0'') (coefficient v)"
  define ps ns where "ps = nat (scale v)" and "ns = nat (- scale v)"
  have nz: "(\<exists>c \<in> set (coefficient v). c \<noteq> CHR ''0'') \<longleftrightarrow> st \<noteq> []"
    unfolding st_def strip_zeros_Nil by (simp only: not_not)
  show ?thesis
    unfolding format_scaled_decimal_def decimal_text_def significant_digits_def Let_def nz
      st_def [symmetric] ps_def [symmetric] ns_def [symmetric]
    by (cases "st = []"; cases "negative v"; cases "ps = 0"; cases "length st \<le> ps")
      (simp_all add: substr_def, auto)
qed

text \<open>
  C22: printing a scaled decimal fails exactly if the coefficient is not a digit string or the text would be
  longer than the given bound; otherwise it is the plain positional text.
\<close>

theorem format_scaled_decimal_eq:
  "format_scaled_decimal v max_output_bytes =
     (if coefficient v \<noteq> [] \<and> list_all is_digit (coefficient v) \<and> length (decimal_text v) \<le> max_output_bytes
      then Some (decimal_text v) else None)"
  by (rule format_scaled_decimal_text)

lemma decimal_value_zeros: "\<forall>c \<in> set s. c = CHR ''0'' \<Longrightarrow> decimal_value s = 0"
  by (induction s) (auto simp: decimal_value_Cons digit_value_def)

lemma significant_digits_props:
  assumes "list_all is_digit s"
  shows "list_all is_digit (significant_digits s)" "significant_digits s \<noteq> []"
    "decimal_value (significant_digits s) = decimal_value s"
proof -
  let ?z = "takeWhile (\<lambda>c. c = CHR ''0'') s" and ?r = "dropWhile (\<lambda>c. c = CHR ''0'') s"
  have "decimal_value (?z @ ?r) = decimal_value ?z * 10 ^ length ?r + decimal_value ?r"
    by (rule decimal_value_append)
  moreover have "decimal_value ?z = 0" by (rule decimal_value_zeros) (use set_takeWhileD in fast)
  ultimately have r: "decimal_value ?r = decimal_value s" by simp
  have zero: "decimal_value ''0'' = decimal_value []" by (simp add: decimal_value_zeros)
  show "decimal_value (significant_digits s) = decimal_value s"
    unfolding significant_digits_def Let_def using r zero by (cases "?r = []") (simp_all only: if_True if_False refl)
  show "list_all is_digit (significant_digits s)" "significant_digits s \<noteq> []"
    using assms set_dropWhileD [of _ _ s] by (auto simp: significant_digits_def Let_def list_all_iff)
qed

lemma decimal_text_reads:
  assumes "list_all is_digit (coefficient v)"
  obtains whole fraction where
    "decimal_syntax (decimal_text v) (negative v \<and> decimal_value (coefficient v) \<noteq> 0) whole fraction 0"
    "decimal_number whole fraction 0 = real (decimal_value (coefficient v)) * 10 powi (- scale v)"
proof -
  let ?C = "decimal_value (coefficient v)" and ?ps = "nat (scale v)" and ?ns = "nat (- scale v)"
  define ds where "ds = significant_digits (coefficient v)"
  note ds = significant_digits_props [OF assms, folded ds_def]
  have nz: "(\<exists>c \<in> set (coefficient v). c \<noteq> CHR ''0'') \<longleftrightarrow> ?C \<noteq> 0"
    using decimal_value_zero [OF assms] by auto
  have sign: "decimal_syntax ((if negative v \<and> ?C \<noteq> 0 then ''-'' else []) @ t) (negative v \<and> ?C \<noteq> 0) whole fraction 0"
    if "number_syntax t whole fraction 0" for t whole fraction
    using decimal_syntaxI [OF _ _ _ that, of "[]" "[]"] by auto
  have no_ex: "exponent_syntax [] 0" by (simp add: exponent_syntax_def)
  have body: "decimal_text v = (if negative v \<and> ?C \<noteq> 0 then ''-'' else []) @
      (if ?ps = 0 then ds @ (if ?C \<noteq> 0 then replicate ?ns (CHR ''0'') else [])
       else if length ds \<le> ?ps then ''0.'' @ replicate (?ps - length ds) (CHR ''0'') @ ds
       else take (length ds - ?ps) ds @ ''.'' @ drop (length ds - ?ps) ds)"
    by (simp only: decimal_text_def Let_def ds_def nz)
  consider "?ps = 0" | "?ps \<noteq> 0" "length ds \<le> ?ps" | "?ps \<noteq> 0" "\<not> length ds \<le> ?ps" by blast
  then show thesis
  proof cases
    case 1
    let ?w = "ds @ (if ?C \<noteq> 0 then replicate ?ns (CHR ''0'') else [])"
    have "list_all is_digit ?w" using ds by (auto simp: list_all_iff)
    then have syn: "number_syntax ?w ?w [] 0"
      by (rule number_syntaxI [where dot = "[]" and ex = "[]", unfolded append_Nil append_Nil2])
        (use ds(2) no_ex in simp_all)
    have num: "decimal_number ?w [] 0 = real ?C * 10 powi (- scale v)"
      using 1 ds by (auto simp: decimal_number_def decimal_value_append power_int_def)
    have shape: "decimal_text v = (if negative v \<and> ?C \<noteq> 0 then ''-'' else []) @ ?w"
      unfolding body using 1 by (simp only: if_True refl)
    show thesis by (rule that [OF sign [OF syn, folded shape] num])
  next
    case 2
    let ?f = "replicate (?ps - length ds) (CHR ''0'') @ ds"
    have "list_all is_digit ?f" using ds by (auto simp: list_all_iff)
    from number_syntaxI [of "''0''", OF _ this _ _ no_ex, of "CHR ''.'' # ?f"] have syn: "number_syntax (''0.'' @ ?f) ''0'' ?f 0"
      by simp
    have num: "decimal_number ''0'' ?f 0 = real ?C * 10 powi (- scale v)"
      using 2 ds by (simp add: decimal_number_def decimal_value_append decimal_value_Cons digit_value_def)
    have shape: "decimal_text v = (if negative v \<and> ?C \<noteq> 0 then ''-'' else []) @ ''0.'' @ ?f"
      unfolding body using 2 by (simp only: if_True if_False)
    show thesis by (rule that [OF sign [OF syn, folded shape] num])
  next
    case 3
    let ?n = "length ds - ?ps"
    have digits: "list_all is_digit (take ?n ds)" "list_all is_digit (drop ?n ds)"
      using ds(1) by (auto simp: list_all_iff dest: in_set_takeD in_set_dropD)
    have syn: "number_syntax (take ?n ds @ ''.'' @ drop ?n ds) (take ?n ds) (drop ?n ds) 0"
      using number_syntaxI [OF digits(1,2) _ _ no_ex, of "CHR ''.'' # drop ?n ds"] 3 ds(2) by auto
    have num: "decimal_number (take ?n ds) (drop ?n ds) 0 = real ?C * 10 powi (- scale v)"
      using 3 ds by (simp add: decimal_number_def)
    have shape: "decimal_text v = (if negative v \<and> ?C \<noteq> 0 then ''-'' else []) @ take ?n ds @ ''.'' @ drop ?n ds"
      unfolding body using 3 by (simp only: if_False)
    show thesis by (rule that [OF sign [OF syn, folded shape] num])
  qed
qed

lemma rescale_printed:
  assumes "format_scaled_decimal v max_output_bytes = Some s" "decimal_value (coefficient v) < 10 ^ precision"
    and "length s \<le> safe_size" "1 \<le> precision" "precision \<le> safe_size" "\<bar>scale v\<bar> \<le> int safe_size"
  shows "rescale_decimal s precision (scale v) =
    (Some \<lparr>coefficient = to_string (decimal_value (coefficient v)), scale = scale v,
           negative = negative v \<and> decimal_value (coefficient v) \<noteq> 0\<rparr>, Issue_None)"
proof -
  let ?C = "decimal_value (coefficient v)"
  have "list_all is_digit (coefficient v)" and s: "s = decimal_text v"
    using assms(1) by (auto simp: format_scaled_decimal_text split: if_splits)
  then obtain whole fraction where syn: "decimal_syntax s (negative v \<and> ?C \<noteq> 0) whole fraction 0"
    and num: "decimal_number whole fraction 0 = real ?C * 10 powi (- scale v)"
    using decimal_text_reads by metis
  have c: "real ?C * 10 powi (- scale v) * 10 powi scale v = real ?C"
    using powi_add [of "- scale v" "scale v"] by simp
  show ?thesis
    unfolding rescale_decimal_outcome [OF syn assms(4,3,5,6)] num rescale_spec_def Let_def c floor_of_nat nat_int
    using assms(2) by simp
qed

text \<open>
  C23: printing and reading are inverse. The text printed for a scaled decimal is read back at the same scale
  as the same number, without any issue, as long as the precision admits its coefficient.
\<close>

theorem rescale_format_roundtrip:
  assumes "format_scaled_decimal v max_output_bytes = Some s" "decimal_value (coefficient v) < 10 ^ precision"
    and "length s \<le> safe_size" "1 \<le> precision" "precision \<le> safe_size" "\<bar>scale v\<bar> \<le> int safe_size"
  shows "rescale_decimal s precision (scale v) =
    (Some \<lparr>coefficient = to_string (decimal_value (coefficient v)), scale = scale v,
           negative = negative v \<and> decimal_value (coefficient v) \<noteq> 0\<rparr>, Issue_None)"
  using assms by (rule rescale_printed)

theorem rescale_format_roundtrip_witness:
  "format_scaled_decimal \<lparr>coefficient = ''007'', scale = 2, negative = True\<rparr> 5 = Some ''-0.07'' \<and>
   rescale_decimal ''-0.07'' 3 2 =
     (Some \<lparr>coefficient = to_string (decimal_value ''007''), scale = 2,
            negative = True \<and> decimal_value ''007'' \<noteq> 0\<rparr>, Issue_None)"
proof -
  let ?v = "\<lparr>coefficient = ''007'', scale = 2, negative = True\<rparr>"
  have f: "format_scaled_decimal ?v 5 = Some ''-0.07''"
    by (simp add: format_scaled_decimal_def Let_def is_digit_def)
  show ?thesis
    using rescale_format_roundtrip [OF f, of 3] f
    by (simp add: safe_size_def decimal_value_Cons digit_value_def)
qed

end
