(* ===== verification/PgWire.thy ===== *)
theory PgWire
  imports Text_Codecs
begin

unbundle bit_operations_syntax

section \<open>Integers and strings on the PostgreSQL wire\<close>

text \<open>
  The helpers at the top of \<^verbatim>\<open>core/database/postgres/pg_protocol_parser.cpp\<close>: big-endian integers,
  zero-terminated strings, the framing of a message, and the type identifiers of parameters. The readers
  are interpreted as cursor readers: each reads exactly what its writer writes.
\<close>

subsection \<open>Writers\<close>

definition byte_of :: "'a :: len word \<Rightarrow> byte" where
  "byte_of v = char_of (unat (v AND 0xff))"

definition append_u16 :: "bytes \<Rightarrow> 16 word \<Rightarrow> bytes" where
  "append_u16 out v = out @ [byte_of (drop_bit 8 v), byte_of v]"

definition append_u32 :: "bytes \<Rightarrow> 32 word \<Rightarrow> bytes" where
  "append_u32 out v = out @ [byte_of (drop_bit 24 v), byte_of (drop_bit 16 v), byte_of (drop_bit 8 v), byte_of v]"

definition append_cstring :: "bytes \<Rightarrow> string \<Rightarrow> bytes" where
  "append_cstring out v = (if v \<noteq> [] then out @ v else out) @ [NUL_byte]"

definition reject_sql_nul :: "string \<Rightarrow> unit result" where
  "reject_sql_nul sql =
     (if find_from (\<lambda>c. c = NUL_byte) sql 0 \<noteq> None
      then Inl (Invalid_argument ''SQL text contains an embedded NUL byte'') else Inr ())"

text \<open>\<^verbatim>\<open>begin_message\<close> returns the position of the tag with the extended buffer.\<close>

definition begin_message :: "bytes \<Rightarrow> char \<Rightarrow> bytes \<times> nat" where
  "begin_message out tag = (append_u32 (out @ [tag]) 0, length out)"

definition finish_message :: "bytes \<Rightarrow> nat \<Rightarrow> bytes result" where
  "finish_message out start =
     (let len = length out - start - 1
      in if 2 ^ 32 - 1 < len then Inl (Length_error ''PostgreSQL message is too large'')
         else
           let v = of_nat len :: 32 word
           in Inr (out [start + 1 := byte_of (drop_bit 24 v), start + 2 := byte_of (drop_bit 16 v),
                        start + 3 := byte_of (drop_bit 8 v), start + 4 := byte_of v]))"

subsection \<open>Readers\<close>

definition read_u16 :: "bytes \<Rightarrow> nat \<Rightarrow> 16 word result" where
  "read_u16 data offset =
     (if length data < offset + 2 then Inl (Runtime_error ''truncated PostgreSQL message'')
      else Inr (push_bit 8 (of_nat (u8 (data ! offset))) OR of_nat (u8 (data ! (offset + 1)))))"

definition read_u32 :: "bytes \<Rightarrow> nat \<Rightarrow> 32 word result" where
  "read_u32 data offset =
     (if length data < offset + 4 then Inl (Runtime_error ''truncated PostgreSQL message'')
      else Inr (push_bit 24 (of_nat (u8 (data ! offset))) OR push_bit 16 (of_nat (u8 (data ! (offset + 1)))) OR
                push_bit 8 (of_nat (u8 (data ! (offset + 2)))) OR of_nat (u8 (data ! (offset + 3)))))"

text \<open>The string and the offset after its terminator.\<close>

definition read_cstring :: "bytes \<Rightarrow> nat \<Rightarrow> (string \<times> nat) result" where
  "read_cstring data start =
     (case find_from (\<lambda>c. c = NUL_byte) data start of
        None \<Rightarrow> Inl (Runtime_error ''unterminated PostgreSQL metadata string'')
      | Some offset \<Rightarrow> Inr (substr start (offset - start) data, offset + 1))"

subsection \<open>Parameter types\<close>

datatype query_parameter_type =
    Unspecified | Text_type | Int16 | Int32 | Int64 | Float32 | Float64 | Numeric | Boolean | Binary | Date | Time
  | Timestamp

record query_parameter =
  param_value :: "string option"
  param_type :: query_parameter_type
  binary_input :: bool

datatype pg_catalog_profile = PostgreSQL | Redshift

fun postgres_type_oid :: "query_parameter_type \<Rightarrow> pg_catalog_profile \<Rightarrow> 32 word" where
  "postgres_type_oid Unspecified profile = 0"
| "postgres_type_oid Boolean profile = 16"
| "postgres_type_oid Binary profile = (if profile = Redshift then 6551 else 17)"
| "postgres_type_oid Int64 profile = 20"
| "postgres_type_oid Int16 profile = 21"
| "postgres_type_oid Int32 profile = 23"
| "postgres_type_oid Text_type profile = 25"
| "postgres_type_oid Float32 profile = 700"
| "postgres_type_oid Float64 profile = 701"
| "postgres_type_oid Numeric profile = 1700"
| "postgres_type_oid Date profile = 1082"
| "postgres_type_oid Time profile = 1083"
| "postgres_type_oid Timestamp profile = 1114"

subsection \<open>The readers are inverse to the writers\<close>

lemma length_append_wire [simp, wire_simps]:
  "length (append_u16 out v) = length out + 2"
  "length (append_u32 out w) = length out + 4"
  "length (append_cstring out s) = length out + length s + 1"
  by (simp_all add: append_u16_def append_u32_def append_cstring_def)

lemma append_wire:
  "append_u16 out v = out @ append_u16 [] v"
  "append_u32 out w = out @ append_u32 [] w"
  "append_cstring out s = out @ s @ [NUL_byte]"
  by (simp_all add: append_u16_def append_u32_def append_cstring_def)

lemma mask8: "(0xff :: 16 word) = mask 8" "(0xff :: 32 word) = mask 8"
  by (simp_all add: mask_eq_exp_minus_1)

lemma of_nat_byte:
  "(of_nat (u8 c) :: 16 word) AND 0xff = of_nat (u8 c)" "(of_nat (u8 c) :: 32 word) AND 0xff = of_nat (u8 c)"
proof -
  have "u8 c AND 0xff = u8 c"
    using take_bit_eq_mask [of 8 "u8 c"] by (simp add: take_bit_eq_mod mask_eq_exp_minus_1)
  then show "(of_nat (u8 c) :: 16 word) AND 0xff = of_nat (u8 c)" "(of_nat (u8 c) :: 32 word) AND 0xff = of_nat (u8 c)"
    by (metis of_nat_and_eq of_nat_numeral)+
qed

lemma unat_and_byte: "unat (v AND 0xff :: 16 word) < 256" "unat (w AND 0xff :: 32 word) < 256"
  by (simp_all add: unsigned_and_eq)

lemma u8_byte_of:
  "of_nat (u8 (byte_of v)) = (v AND 0xff :: 16 word)" "of_nat (u8 (byte_of w)) = (w AND 0xff :: 32 word)"
  using unat_and_byte(1) [of v] unat_and_byte(2) [of w] by (simp_all add: byte_of_def)

lemma byte_of_eqI:
  "v AND 0xff = (of_nat (u8 c) :: 16 word) \<Longrightarrow> byte_of v = c" "w AND 0xff = (of_nat (u8 c) :: 32 word) \<Longrightarrow> byte_of w = c"
  using u8_less [of c] by (simp_all add: byte_of_def unat_of_nat del: u8_less)

lemma join_u16: "push_bit 8 (of_nat (u8 (byte_of (drop_bit 8 v)))) OR of_nat (u8 (byte_of v)) = (v :: 16 word)"
  unfolding u8_byte_of unfolding mask8 by (rule bit_word_eqI) (auto simp: bit_simps)

lemma join_u32:
  "push_bit 24 (of_nat (u8 (byte_of (drop_bit 24 v)))) OR push_bit 16 (of_nat (u8 (byte_of (drop_bit 16 v)))) OR
   push_bit 8 (of_nat (u8 (byte_of (drop_bit 8 v)))) OR of_nat (u8 (byte_of v)) = (v :: 32 word)"
  unfolding u8_byte_of unfolding mask8
proof (rule bit_word_eqI)
  fix n assume "n < LENGTH(32)"
  then have n: "n < 32" by simp
  consider "n < 8" | "8 \<le> n" "n < 16" | "16 \<le> n" "n < 24" | "24 \<le> n" by linarith
  then show "bit (push_bit 24 (drop_bit 24 v AND mask 8) OR push_bit 16 (drop_bit 16 v AND mask 8) OR
      push_bit 8 (drop_bit 8 v AND mask 8) OR (v AND mask 8)) n \<longleftrightarrow> bit v n"
    using n by cases (auto simp: bit_simps)
qed

lemma split_u16:
  fixes a b :: "16 word"
  assumes "a AND 0xff = a" "b AND 0xff = b"
  shows "drop_bit 8 (push_bit 8 a OR b) AND 0xff = a" "(push_bit 8 a OR b) AND 0xff = b"
proof -
  have a: "bit a n \<longleftrightarrow> bit a n \<and> n < 8" and b: "bit b n \<longleftrightarrow> bit b n \<and> n < 8" for n
    using assms [unfolded mask8] by (metis bit_and_iff bit_mask_iff)+
  show "drop_bit 8 (push_bit 8 a OR b) AND 0xff = a" "(push_bit 8 a OR b) AND 0xff = b"
    unfolding mask8 by (rule bit_word_eqI, auto simp: bit_simps dest: a [THEN iffD1] b [THEN iffD1])+
qed

lemma split_u32:
  fixes a b c d :: "32 word"
  assumes "a AND 0xff = a" "b AND 0xff = b" "c AND 0xff = c" "d AND 0xff = d"
  defines "v \<equiv> push_bit 24 a OR push_bit 16 b OR push_bit 8 c OR d"
  shows "drop_bit 24 v AND 0xff = a" "drop_bit 16 v AND 0xff = b" "drop_bit 8 v AND 0xff = c" "v AND 0xff = d"
proof -
  have bits: "bit a n \<Longrightarrow> n < 8" "bit b n \<Longrightarrow> n < 8" "bit c n \<Longrightarrow> n < 8" "bit d n \<Longrightarrow> n < 8" for n
    using assms(1-4) [unfolded mask8] by (metis bit_and_iff bit_mask_iff)+
  show "drop_bit 24 v AND 0xff = a" "drop_bit 16 v AND 0xff = b" "drop_bit 8 v AND 0xff = c" "v AND 0xff = d"
    unfolding mask8 v_def by (rule bit_word_eqI, auto simp: bit_simps dest: bits)+
qed

text \<open>The readers with the offset the code advances after them.\<close>

definition u16_at :: "bytes \<Rightarrow> nat \<Rightarrow> (16 word \<times> nat) result" where
  "u16_at data offset = bind_result (read_u16 data offset) (\<lambda>v. Inr (v, offset + 2))"

definition u32_at :: "bytes \<Rightarrow> nat \<Rightarrow> (32 word \<times> nat) result" where
  "u32_at data offset = bind_result (read_u32 data offset) (\<lambda>v. Inr (v, offset + 4))"

abbreviation be16 :: "16 word \<Rightarrow> bytes" where
  "be16 \<equiv> append_u16 []"

abbreviation be32 :: "32 word \<Rightarrow> bytes" where
  "be32 \<equiv> append_u32 []"

abbreviation cstring :: "string \<Rightarrow> bytes" where
  "cstring s \<equiv> s @ [NUL_byte]"

lemma take_drop_Cons: "off < length xs \<Longrightarrow> drop off xs = xs ! off # drop (Suc off) xs"
  by (simp add: Cons_nth_drop_Suc)

lemma bytes_u16: "be16 (push_bit 8 (of_nat (u8 a)) OR of_nat (u8 b)) = [a, b]"
  unfolding append_u16_def append_Nil
  by (simp only: byte_of_eqI(1) [OF split_u16(1) [OF of_nat_byte(1) of_nat_byte(1)]]
      byte_of_eqI(1) [OF split_u16(2) [OF of_nat_byte(1) of_nat_byte(1)]])

lemma bytes_u32:
  "be32 (push_bit 24 (of_nat (u8 a)) OR push_bit 16 (of_nat (u8 b)) OR push_bit 8 (of_nat (u8 c)) OR of_nat (u8 d)) =
    [a, b, c, d]"
  unfolding append_u32_def append_Nil
  by (simp only: split_u32 [OF of_nat_byte(2) of_nat_byte(2) of_nat_byte(2) of_nat_byte(2), THEN byte_of_eqI(2)])

interpretation u16: cursor_reader u16_at be16 "\<lambda>_. True"
proof unfold_locales
  show "u16_at (pre @ be16 v @ post) (length pre) = Inr (v, length pre + length (be16 v))" for v pre post
    by (simp add: u16_at_def read_u16_def append_u16_def nth_append join_u16)
  show "True \<and> off' = off + length (be16 v) \<and> off' \<le> length data \<and> take (length (be16 v)) (drop off data) = be16 v"
    if "u16_at data off = Inr (v, off')" for data off v off'
  proof -
    from that have len: "off + 2 \<le> length data" and off': "off' = off + 2"
      and v: "v = push_bit 8 (of_nat (u8 (data ! off))) OR of_nat (u8 (data ! (off + 1)))"
      by (auto simp: u16_at_def read_u16_def split: if_splits)
    have "be16 v = [data ! off, data ! (off + 1)]"
      unfolding v by (rule bytes_u16)
    moreover have "drop off data = data ! off # data ! (off + 1) # drop (off + 2) data"
      using len by (simp add: take_drop_Cons)
    ultimately show ?thesis using len off' by simp
  qed
qed

interpretation u32: cursor_reader u32_at be32 "\<lambda>_. True"
proof unfold_locales
  show "u32_at (pre @ be32 v @ post) (length pre) = Inr (v, length pre + length (be32 v))" for v pre post
    by (simp add: u32_at_def read_u32_def append_u32_def nth_append join_u32)
  show "True \<and> off' = off + length (be32 v) \<and> off' \<le> length data \<and> take (length (be32 v)) (drop off data) = be32 v"
    if "u32_at data off = Inr (v, off')" for data off v off'
  proof -
    from that have len: "off + 4 \<le> length data" and off': "off' = off + 4"
      and v: "v = push_bit 24 (of_nat (u8 (data ! off))) OR push_bit 16 (of_nat (u8 (data ! (off + 1)))) OR
        push_bit 8 (of_nat (u8 (data ! (off + 2)))) OR of_nat (u8 (data ! (off + 3)))"
      by (auto simp: u32_at_def read_u32_def split: if_splits)
    have "be32 v = [data ! off, data ! (off + 1), data ! (off + 2), data ! (off + 3)]"
      unfolding v by (rule bytes_u32)
    moreover have "drop off data =
        data ! off # data ! (off + 1) # data ! (off + 2) # data ! (off + 3) # drop (off + 4) data"
      using len by (simp add: take_drop_Cons eval_nat_numeral)
    ultimately show ?thesis using len off' by simp
  qed
qed

interpretation cstr: cursor_reader read_cstring cstring "\<lambda>s. NUL_byte \<notin> set s"
proof unfold_locales
  show "read_cstring (pre @ cstring s @ post) (length pre) = Inr (s, length pre + length (cstring s))"
    if "NUL_byte \<notin> set s" for s pre post
  proof -
    have "takeWhile (\<lambda>c. c \<noteq> NUL_byte) (s @ NUL_byte # post) = s" 
      by (subst takeWhile_append2) (use that in auto)
    then show ?thesis by (simp add: read_cstring_def find_from_def substr_def)
  qed
  show "NUL_byte \<notin> set s \<and> off' = off + length (cstring s) \<and> off' \<le> length data \<and>
      take (length (cstring s)) (drop off data) = cstring s"
    if "read_cstring data off = Inr (s, off')" for data off s off'
  proof -
    from that obtain k where k: "find_from (\<lambda>c. c = NUL_byte) data off = Some k"
      and s: "s = take (k - off) (drop off data)" "off' = k + 1"
      by (auto simp: read_cstring_def substr_def split: option.splits)
    note b = find_from_bounds [OF k] and h = find_from_holds [OF k] and before = find_from_before [OF k]
    have "NUL_byte \<notin> set s"
      using before b unfolding s(1) by (auto simp: in_set_conv_nth)
    moreover have "take (Suc (k - off)) (drop off data) = s @ [NUL_byte]"
      using b h s take_Suc_conv_app_nth [of "k - off" "drop off data"] by (simp add: diff_less_mono)
    moreover have "length s = k - off" using s b by (auto simp: min_def)
    ultimately show ?thesis using s b by simp
  qed
qed

subsection \<open>Framing\<close>

text \<open>A complete message: tag, length of the rest, body.\<close>

definition frame :: "char \<Rightarrow> bytes \<Rightarrow> bytes" where
  "frame tag body = tag # be32 (of_nat (4 + length body)) @ body"

lemma length_frame [simp, wire_simps]: "length (frame tag body) = 5 + length body"
  by (simp add: frame_def)

lemma update_length_field:
  "(out @ [t, a, b, c, d] @ body) [length out + 1 := a', length out + 2 := b', length out + 3 := c',
     length out + 4 := d'] = out @ [t, a', b', c', d'] @ body"
  by (simp add: list_update_append eval_nat_numeral)

lemma finish_frame:
  "finish_message (append_u32 (out @ [tag]) 0 @ body) (length out) =
     (if 4 + length body < 2 ^ 32 then Inr (out @ frame tag body)
      else Inl (Length_error ''PostgreSQL message is too large''))"
proof -
  have buf: "append_u32 (out @ [tag]) 0 @ body =
      out @ [tag, byte_of (0 :: 32 word), byte_of (0 :: 32 word), byte_of (0 :: 32 word), byte_of (0 :: 32 word)] @ body"
    by (simp add: append_u32_def)
  have len: "length (append_u32 (out @ [tag]) 0 @ body) - length out - 1 = 4 + length body" by simp
  show ?thesis
    unfolding finish_message_def Let_def len unfolding buf update_length_field
    by (auto simp: frame_def append_u32_def)
qed

end
