(* ===== verification/PgLexer.thy ===== *)
theory PgLexer
  imports Prelude
begin

section \<open>Literals, comments and parameter markers in SQL text\<close>

text \<open>
  The driver has two lexers for the same regions of SQL text, in which a question mark is not a
  parameter marker: the scanners of \<^verbatim>\<open>core/database/postgres/pg_sql_dialect.cpp\<close> (\<open>quoted_end\<close>,
  \<open>comment_end\<close>, \<open>dollar_tag_at\<close>, \<open>dollar_end\<close>), which jump to the end of a region, and the character
  automaton \<open>replace_parameter_markers\<close> of \<^verbatim>\<open>core/database/postgres/pg_protocol_parser.cpp\<close>, which
  copies the text and replaces the markers. The lemmas show that they agree on every text.
\<close>

subsection \<open>The scanners of the dialect\<close>

definition identifier_continue :: "char \<Rightarrow> bool" where
  "identifier_continue ch \<longleftrightarrow> is_alnum ch \<or> ch = CHR ''_'' \<or> ch = CHR ''$'' \<or> 0x80 \<le> u8 ch"

definition dollar_tag_at :: "string \<Rightarrow> nat \<Rightarrow> string option" where
  "dollar_tag_at sql position =
     (if sql ! position \<noteq> CHR ''$'' \<or> (0 < position \<and> identifier_continue (sql ! (position - 1))) then None
      else
        case find_from (\<lambda>c. c = CHR ''$'') sql (position + 1) of
          None \<Rightarrow> None
        | Some e \<Rightarrow>
            let name = substr (position + 1) (e - position - 1) sql
            in if name \<noteq> [] \<and> \<not> is_alpha (hd name) \<and> hd name \<noteq> CHR ''_'' then None
               else if \<not> list_all (\<lambda>c. is_alnum c \<or> c = CHR ''_'') name then None
               else Some (substr position (e - position + 1) sql))"

text \<open>The condition under which a quote opens an escape string, as both lexers have it.\<close>

definition escape_string_at :: "string \<Rightarrow> nat \<Rightarrow> bool" where
  "escape_string_at sql position \<longleftrightarrow>
     sql ! position = CHR 0x27 \<and> 0 < position \<and>
     (sql ! (position - 1) = CHR ''E'' \<or> sql ! (position - 1) = CHR ''e'') \<and>
     (position = 1 \<or> \<not> identifier_continue (sql ! (position - 2)))"

function quoted_scan :: "string \<Rightarrow> char \<Rightarrow> bool \<Rightarrow> nat \<Rightarrow> nat option" where
  "quoted_scan sql quote escape_string i =
     (if i < length sql then
        if escape_string \<and> sql ! i = CHR 0x5C \<and> i + 1 < length sql then quoted_scan sql quote escape_string (i + 2)
        else if sql ! i \<noteq> quote then quoted_scan sql quote escape_string (i + 1)
        else if i + 1 < length sql \<and> sql ! (i + 1) = quote then quoted_scan sql quote escape_string (i + 2)
        else Some (i + 1)
      else None)"
  by pat_completeness auto
termination
  by (relation "measure (\<lambda>(sql, q, e, i). length sql - i)") auto

definition quoted_end :: "string \<Rightarrow> nat \<Rightarrow> nat option" where
  "quoted_end sql position = quoted_scan sql (sql ! position) (escape_string_at sql position) (position + 1)"

function block_scan :: "string \<Rightarrow> nat \<Rightarrow> nat \<Rightarrow> nat option" where
  "block_scan sql depth i =
     (if i + 1 < length sql then
        if substr i 2 sql = ''/*'' then block_scan sql (depth + 1) (i + 2)
        else if substr i 2 sql = ''*/'' then
          if depth - 1 = 0 then Some (i + 2) else block_scan sql (depth - 1) (i + 2)
        else block_scan sql depth (i + 1)
      else None)"
  by pat_completeness auto
termination
  by (relation "measure (\<lambda>(sql, d, i). length sql - i)") auto

definition comment_end :: "string \<Rightarrow> nat \<Rightarrow> nat option" where
  "comment_end sql position =
     (if substr position 2 sql = ''--'' then
        (case find_from (\<lambda>c. c = CHR 0x0D \<or> c = CHR 0x0A) sql (position + 2) of
           None \<Rightarrow> Some (length sql) | Some e \<Rightarrow> Some (e + 1))
      else if substr position 2 sql = ''/*'' then block_scan sql 1 (position + 2)
      else None)"

text \<open>\<^verbatim>\<open>sql.find(tag, from)\<close>.\<close>

function find_sub :: "string \<Rightarrow> string \<Rightarrow> nat \<Rightarrow> nat option" where
  "find_sub sql tag i =
     (if i < length sql then
        if starts_with (drop i sql) tag then Some i else find_sub sql tag (i + 1)
      else None)"
  by pat_completeness auto
termination
  by (relation "measure (\<lambda>(sql, t, i). length sql - i)") auto

definition dollar_end :: "string \<Rightarrow> nat \<Rightarrow> nat option" where
  "dollar_end sql position =
     (case dollar_tag_at sql position of
        None \<Rightarrow> None
      | Some tag \<Rightarrow>
          (case find_sub sql tag (position + length tag) of None \<Rightarrow> None | Some e \<Rightarrow> Some (e + length tag)))"

declare quoted_scan.simps [simp del] block_scan.simps [simp del] find_sub.simps [simp del]

subsection \<open>The marker automaton\<close>

definition is_dollar_tag_start :: "char \<Rightarrow> bool" where
  "is_dollar_tag_start ch \<longleftrightarrow> is_alpha ch \<or> ch = CHR ''_''"

definition is_dollar_tag_continue :: "char \<Rightarrow> bool" where
  "is_dollar_tag_continue ch \<longleftrightarrow> is_alnum ch \<or> ch = CHR ''_''"

definition is_identifier_continue :: "char \<Rightarrow> bool" where
  "is_identifier_continue ch \<longleftrightarrow> is_dollar_tag_continue ch \<or> ch = CHR ''$'' \<or> 0x80 \<le> u8 ch"

datatype marker_mode = Normal | SingleQuote | EscapeString | DoubleQuote | LineComment | BlockComment

record marker_state =
  mode :: marker_mode
  block_depth :: nat
  marker_count :: nat
  dollar_delimiter :: string
  pos :: nat
  copied :: string

text \<open>One turn of the loop at \<open>pos < length sql\<close>; \<open>emit k s\<close> copies \<open>s\<close> and moves on by \<open>k\<close>.\<close>

definition emit :: "nat \<Rightarrow> string \<Rightarrow> marker_state \<Rightarrow> marker_state" where
  "emit k s st = st\<lparr>pos := pos st + k, copied := copied st @ s\<rparr>"

definition dollar_quote_step :: "string \<Rightarrow> marker_state \<Rightarrow> marker_state" where
  "dollar_quote_step sql st =
     (if starts_with (drop (pos st) sql) (dollar_delimiter st)
      then (emit (length (dollar_delimiter st)) (dollar_delimiter st) st)\<lparr>dollar_delimiter := []\<rparr>
      else emit 1 [sql ! pos st] st)"

definition block_comment_step :: "char \<Rightarrow> char \<Rightarrow> marker_state \<Rightarrow> marker_state" where
  "block_comment_step ch nxt st =
     (if ch = CHR ''/'' \<and> nxt = CHR ''*'' then (emit 2 ''/*'' st)\<lparr>block_depth := block_depth st + 1\<rparr>
      else if ch = CHR ''*'' \<and> nxt = CHR ''/'' then
        (emit 2 ''*/'' st)\<lparr>block_depth := block_depth st - 1,
           mode := if block_depth st - 1 = 0 then Normal else BlockComment\<rparr>
      else emit 1 [ch] st)"

definition quote_step :: "string \<Rightarrow> char \<Rightarrow> marker_state \<Rightarrow> marker_state" where
  "quote_step sql ch st =
     (let quote = (if mode st = DoubleQuote then CHR 0x22 else CHR 0x27);
          i = pos st + 1
      in if ch = quote then
           if i < length sql \<and> sql ! i = quote then emit 2 [ch, sql ! i] st
           else (emit 1 [ch] st)\<lparr>mode := Normal\<rparr>
         else if mode st = EscapeString \<and> ch = CHR 0x5C \<and> i < length sql then emit 2 [ch, sql ! i] st
         else emit 1 [ch] st)"

definition open_dollar_step :: "string \<Rightarrow> char \<Rightarrow> marker_state \<Rightarrow> marker_state" where
  "open_dollar_step sql ch st =
     (let i = pos st;
          e = (if i + 1 < length sql \<and> is_dollar_tag_start (sql ! (i + 1))
               then i + 1 + length (takeWhile is_dollar_tag_continue (drop (i + 1) sql)) else i + 1)
      in if e < length sql \<and> sql ! e = CHR ''$'' then
           let tag = substr i (e - i + 1) sql
           in (emit (e + 1 - i) tag st)\<lparr>dollar_delimiter := tag\<rparr>
         else emit 1 [ch] st)"

definition marker_step :: "string \<Rightarrow> marker_state \<Rightarrow> marker_state" where
  "marker_step sql st =
     (if dollar_delimiter st \<noteq> [] then dollar_quote_step sql st
      else
        let i = pos st;
            ch = sql ! i;
            nxt = (if i + 1 < length sql then sql ! (i + 1) else NUL_byte)
        in if mode st = LineComment then
             (emit 1 [ch] st)\<lparr>mode := if ch = CHR 0x0A \<or> ch = CHR 0x0D then Normal else LineComment\<rparr>
           else if mode st = BlockComment then block_comment_step ch nxt st
           else if mode st = SingleQuote \<or> mode st = EscapeString \<or> mode st = DoubleQuote then quote_step sql ch st
           else if ch = CHR 0x27 \<or> ch = CHR 0x22 then
             let escape_string =
                   (ch = CHR 0x27 \<and> 0 < i \<and> (sql ! (i - 1) = CHR ''E'' \<or> sql ! (i - 1) = CHR ''e'') \<and>
                    (i = 1 \<or> \<not> is_identifier_continue (sql ! (i - 2))))
             in (emit 1 [ch] st)\<lparr>mode := if ch = CHR 0x22 then DoubleQuote
                                          else if escape_string then EscapeString else SingleQuote\<rparr>
           else if ch = CHR ''-'' \<and> nxt = CHR ''-'' then (emit 2 ''--'' st)\<lparr>mode := LineComment\<rparr>
           else if ch = CHR ''/'' \<and> nxt = CHR ''*'' then
             (emit 2 ''/*'' st)\<lparr>mode := BlockComment, block_depth := 1\<rparr>
           else if ch = CHR ''$'' \<and> (i = 0 \<or> \<not> is_identifier_continue (sql ! (i - 1))) then
             open_dollar_step sql ch st
           else if ch = CHR ''?'' then
             (emit 1 (CHR ''$'' # to_string (marker_count st + 1)) st)\<lparr>marker_count := marker_count st + 1\<rparr>
           else emit 1 [ch] st)"

lemmas step_defs = dollar_quote_step_def block_comment_step_def quote_step_def open_dollar_step_def emit_def Let_def

lemma step_progress:
  "dollar_delimiter st \<noteq> [] \<Longrightarrow> pos st < pos (dollar_quote_step sql st)"
  "pos st < pos (block_comment_step ch nxt st)"
  "pos st < pos (quote_step sql ch st)"
  "pos st < pos (open_dollar_step sql ch st)"
  by (simp_all add: step_defs)

lemma marker_step_progress: "pos st < pos (marker_step sql st)"
  unfolding marker_step_def Let_def by (simp add: step_progress emit_def)

function marker_loop :: "string \<Rightarrow> marker_state \<Rightarrow> marker_state" where
  "marker_loop sql st = (if pos st < length sql then marker_loop sql (marker_step sql st) else st)"
  by pat_completeness auto
termination
  by (relation "measure (\<lambda>(sql, st). length sql - pos st)")
    (auto intro: diff_less_mono2 marker_step_progress)

declare marker_loop.simps [simp del]

definition replace_parameter_markers :: "string \<Rightarrow> string \<times> nat" where
  "replace_parameter_markers sql =
     (let st = marker_loop sql
            \<lparr>mode = Normal, block_depth = 0, marker_count = 0, dollar_delimiter = [], pos = 0, copied = []\<rparr>
      in (copied st, marker_count st))"

subsection \<open>The automaton inside a region\<close>

abbreviation cut :: "'a list \<Rightarrow> nat \<Rightarrow> nat \<Rightarrow> 'a list" where
  "cut xs i j \<equiv> take (j - i) (drop i xs)"

lemma slice_append: "i \<le> j \<Longrightarrow> j \<le> k \<Longrightarrow> cut xs i j @ cut xs j k = cut xs i k"
proof -
  assume "i \<le> j" "j \<le> k"
  then have "k - i = (j - i) + (k - j)" "j = i + (j - i)" by simp_all
  then show ?thesis by (metis take_add drop_drop add.commute)
qed

lemma slice_one: "i < length xs \<Longrightarrow> cut xs i (Suc i) = [xs ! i]"
  by (simp add: take_Suc_conv_app_nth)

lemma slice_two: "Suc i < length xs \<Longrightarrow> cut xs i (Suc (Suc i)) = [xs ! i, xs ! Suc i]"
proof -
  assume "Suc i < length xs"
  moreover have "cut xs i (Suc (Suc i)) = cut xs i (Suc i) @ cut xs (Suc i) (Suc (Suc i))"
    by (rule slice_append [symmetric]) auto
  ultimately show ?thesis by (simp only: slice_one Suc_lessD append.simps)
qed

lemma take_two: "Suc i < length xs \<Longrightarrow> take 2 (drop i xs) = [xs ! i, xs ! Suc i]"
  using slice_two [of i xs] by simp

lemma take_one: "i < length xs \<Longrightarrow> take (Suc 0) (drop i xs) = [xs ! i]"
  using slice_one [of i xs] by simp

lemma drop_last_one: "i < length xs \<Longrightarrow> \<not> Suc i < length xs \<Longrightarrow> drop i xs = [xs ! i]"
  using take_one [of i xs] by simp

lemmas copy_simps = take_one take_two drop_last_one

lemma slice_drop: "i \<le> j \<Longrightarrow> cut xs i j @ drop j xs = drop i xs"
  by (metis append_take_drop_id drop_drop le_add_diff_inverse2)

lemma length_slice [simp]: "j \<le> length xs \<Longrightarrow> length (cut xs i j) = j - i"
  by simp

text \<open>What a state of the automaton leads to.\<close>

definition run :: "string \<Rightarrow> marker_state \<Rightarrow> string \<times> nat" where
  "run sql st = (let st' = marker_loop sql st in (copied st', marker_count st'))"

lemma run_step: "pos st < length sql \<Longrightarrow> run sql st = run sql (marker_step sql st)"
  by (simp add: run_def marker_loop.simps [of sql st])

lemma run_end: "\<not> pos st < length sql \<Longrightarrow> run sql st = (copied st, marker_count st)"
  by (simp add: run_def marker_loop.simps [of sql st] Let_def)

text \<open>
  The state after copying the text up to \<open>e\<close> in normal mode, or the end of the run if the region is
  never closed.
\<close>

definition resume :: "string \<Rightarrow> marker_state \<Rightarrow> nat option \<Rightarrow> string \<times> nat" where
  "resume sql st e =
     (case e of
        None \<Rightarrow> (copied st @ drop (pos st) sql, marker_count st)
      | Some e \<Rightarrow> run sql \<lparr>mode = Normal, block_depth = 0, marker_count = marker_count st, dollar_delimiter = [], pos = e,
                   copied = copied st @ cut sql (pos st) e\<rparr>)"

lemma resume_step:
  assumes "pos st' \<le> length sql" "pos st < pos st'" "copied st' = copied st @ cut sql (pos st) (pos st')"
    and "marker_count st' = marker_count st" "\<And>k. e = Some k \<Longrightarrow> pos st' \<le> k"
  shows "resume sql st' e = resume sql st e"
proof (cases e)
  case None
  then show ?thesis using assms slice_drop [of "pos st" "pos st'" sql] by (simp add: resume_def)
next
  case (Some k)
  then show ?thesis using assms slice_append [of "pos st" "pos st'" k sql] by (simp add: resume_def)
qed

lemma resume_closed:
  assumes "marker_step sql st = st'" "pos st < length sql" "mode st' = Normal" "block_depth st' = 0"
    and "dollar_delimiter st' = []" "marker_count st' = marker_count st" "copied st' = copied st @ cut sql (pos st) (pos st')"
  shows "run sql st = resume sql st (Some (pos st'))"
proof -
  have "st' = \<lparr>mode = Normal, block_depth = 0, marker_count = marker_count st, dollar_delimiter = [], pos = pos st',
      copied = copied st @ cut sql (pos st) (pos st')\<rparr>"
    using assms by (cases st') simp
  then show ?thesis using run_step [OF assms(2)] assms(1) by (simp add: resume_def)
qed

lemma quoted_scan_bounds: "quoted_scan sql q esc i = Some e \<Longrightarrow> i < e \<and> e \<le> length sql"
proof (induction sql q esc i rule: quoted_scan.induct)
  case (1 sql q esc i)
  then show ?case by (subst (asm) quoted_scan.simps) (auto split: if_splits)
qed

lemma block_scan_bounds: "block_scan sql d i = Some e \<Longrightarrow> i < e \<and> e \<le> length sql"
proof (induction sql d i rule: block_scan.induct)
  case (1 sql d i)
  then show ?case by (subst (asm) block_scan.simps) (auto split: if_splits)
qed

lemma find_sub_bounds: "find_sub sql tag i = Some e \<Longrightarrow> i \<le> e \<and> e < length sql \<and> starts_with (drop e sql) tag"
proof (induction sql tag i rule: find_sub.induct)
  case (1 sql tag i)
  then show ?case by (subst (asm) find_sub.simps) (auto split: if_splits)
qed

text \<open>
  The contract of a region: while the automaton is inside it copies the text, turn by turn, until it
  returns to the normal mode at the position the scanner gives.
\<close>

locale region =
  fixes sql :: string and inside :: "marker_state \<Rightarrow> bool" and scan :: "marker_state \<Rightarrow> nat option"
  assumes at_end: "inside st \<Longrightarrow> \<not> pos st < length sql \<Longrightarrow> scan st \<in> {None, Some (pos st)}"
    and bounds: "inside st \<Longrightarrow> scan st = Some e \<Longrightarrow> pos st \<le> e \<and> e \<le> length sql"
    and copies: "inside st \<Longrightarrow> pos st < length sql \<Longrightarrow> st' = marker_step sql st \<Longrightarrow>
      pos st' \<le> length sql \<and> marker_count st' = marker_count st \<and> copied st' = copied st @ cut sql (pos st) (pos st')"
    and continues: "inside st \<Longrightarrow> pos st < length sql \<Longrightarrow> st' = marker_step sql st \<Longrightarrow>
      (inside st' \<and> scan st' = scan st) \<or>
      (mode st' = Normal \<and> block_depth st' = 0 \<and> dollar_delimiter st' = [] \<and> scan st = Some (pos st'))"
    and idle: "inside st \<Longrightarrow> \<not> pos st < length sql \<Longrightarrow> drop (pos st) sql = []"
begin

lemma region_run: "inside st \<Longrightarrow> run sql st = resume sql st (scan st)"
proof (induction "length sql - pos st" arbitrary: st rule: less_induct)
  case less
  show ?case
  proof (cases "pos st < length sql")
    case False
    then show ?thesis
      using at_end [OF less.prems False] idle [OF less.prems False] by (auto simp: run_end resume_def)
  next
    case True
    let ?st = "marker_step sql st"
    note copy = copies [OF less.prems True refl]
    from continues [OF less.prems True refl] show ?thesis
    proof
      assume inside: "inside ?st \<and> scan ?st = scan st"
      have "run sql st = resume sql ?st (scan ?st)"
        using less.hyps [of ?st] inside True marker_step_progress [of st sql] run_step [OF True]
        by (simp add: diff_less_mono2)
      also have "\<dots> = resume sql st (scan ?st)"
        using copy inside bounds marker_step_progress [of st sql] by (intro resume_step) auto
      finally show ?thesis using inside by simp
    next
      assume "mode ?st = Normal \<and> block_depth ?st = 0 \<and> dollar_delimiter ?st = [] \<and> scan st = Some (pos ?st)"
      then show ?thesis using resume_closed [OF refl True] copy by simp
    qed
  qed
qed

end

text \<open>Quoted strings and identifiers.\<close>

definition in_quote :: "string \<Rightarrow> marker_state \<Rightarrow> bool" where
  "in_quote sql st \<longleftrightarrow> dollar_delimiter st = [] \<and> block_depth st = 0 \<and> pos st \<le> length sql \<and>
     mode st \<in> {SingleQuote, EscapeString, DoubleQuote}"

definition quote_scan :: "string \<Rightarrow> marker_state \<Rightarrow> nat option" where
  "quote_scan sql st =
     quoted_scan sql (if mode st = DoubleQuote then CHR 0x22 else CHR 0x27) (mode st = EscapeString) (pos st)"

lemma in_quote_step: "in_quote sql st \<Longrightarrow> marker_step sql st = quote_step sql (sql ! pos st) st"
  by (auto simp: in_quote_def marker_step_def Let_def)

interpretation quote: region sql "in_quote sql" "quote_scan sql" for sql
proof
  fix st st'
  assume ins: "in_quote sql st"
  show "\<not> pos st < length sql \<Longrightarrow> quote_scan sql st \<in> {None, Some (pos st)}"
    unfolding quote_scan_def by (subst quoted_scan.simps) simp
  show "\<not> pos st < length sql \<Longrightarrow> drop (pos st) sql = []" by simp
  assume i: "pos st < length sql" and st': "st' = marker_step sql st"
  note step = st' [unfolded in_quote_step [OF ins]]
  show "pos st' \<le> length sql \<and> marker_count st' = marker_count st \<and> copied st' = copied st @ cut sql (pos st) (pos st')"
    using i unfolding step quote_step_def Let_def emit_def by (auto simp: copy_simps)
  show "(in_quote sql st' \<and> quote_scan sql st' = quote_scan sql st) \<or>
      (mode st' = Normal \<and> block_depth st' = 0 \<and> dollar_delimiter st' = [] \<and> quote_scan sql st = Some (pos st'))"
    using i ins unfolding quote_scan_def
    by (subst (2 3) quoted_scan.simps) (auto simp: step quote_step_def Let_def emit_def in_quote_def)
next
  show "in_quote sql st \<Longrightarrow> quote_scan sql st = Some e \<Longrightarrow> pos st \<le> e \<and> e \<le> length sql" for st e
    unfolding quote_scan_def by (drule quoted_scan_bounds) simp
qed

text \<open>Comments.\<close>

definition line_break :: "char \<Rightarrow> bool" where
  "line_break c \<longleftrightarrow> c = CHR 0x0D \<or> c = CHR 0x0A"

lemma line_break_fun: "(\<lambda>c. c = CHR 0x0D \<or> c = CHR 0x0A) = line_break"
  by (simp add: fun_eq_iff line_break_def)

definition in_line_comment :: "string \<Rightarrow> marker_state \<Rightarrow> bool" where
  "in_line_comment sql st \<longleftrightarrow>
     dollar_delimiter st = [] \<and> block_depth st = 0 \<and> pos st \<le> length sql \<and> mode st = LineComment"

definition line_scan :: "string \<Rightarrow> marker_state \<Rightarrow> nat option" where
  "line_scan sql st =
     (case find_from line_break sql (pos st) of None \<Rightarrow> Some (length sql) | Some e \<Rightarrow> Some (e + 1))"

lemma find_from_step:
  "i < length xs \<Longrightarrow> find_from P xs i = (if P (xs ! i) then Some i else find_from P xs (Suc i))"
proof -
  assume i: "i < length xs"
  then have "takeWhile (\<lambda>x. \<not> P x) (drop i xs) =
      (if P (xs ! i) then [] else xs ! i # takeWhile (\<lambda>x. \<not> P x) (drop (Suc i) xs))"
    by (subst Cons_nth_drop_Suc [symmetric]) auto
  with i show ?thesis by (simp add: find_from_def Let_def)
qed

lemma in_line_comment_step:
  "in_line_comment sql st \<Longrightarrow> marker_step sql st =
    (emit 1 [sql ! pos st] st)\<lparr>mode := if line_break (sql ! pos st) then Normal else LineComment\<rparr>"
  by (auto simp: in_line_comment_def marker_step_def Let_def line_break_def)

interpretation line_comment: region sql "in_line_comment sql" "line_scan sql" for sql
proof
  fix st st'
  assume ins: "in_line_comment sql st"
  show "\<not> pos st < length sql \<Longrightarrow> line_scan sql st \<in> {None, Some (pos st)}"
    using ins by (simp add: line_scan_def find_from_def in_line_comment_def)
  show "\<not> pos st < length sql \<Longrightarrow> drop (pos st) sql = []" by simp
  assume i: "pos st < length sql" and st': "st' = marker_step sql st"
  note step = st' [unfolded in_line_comment_step [OF ins]]
  show "pos st' \<le> length sql \<and> marker_count st' = marker_count st \<and> copied st' = copied st @ cut sql (pos st) (pos st')"
    using i unfolding step emit_def by (simp add: copy_simps)
  show "(in_line_comment sql st' \<and> line_scan sql st' = line_scan sql st) \<or>
      (mode st' = Normal \<and> block_depth st' = 0 \<and> dollar_delimiter st' = [] \<and> line_scan sql st = Some (pos st'))"
    using i ins unfolding line_scan_def step emit_def
    by (subst (2 3) find_from_step) (auto simp: in_line_comment_def)
next
  show "in_line_comment sql st \<Longrightarrow> line_scan sql st = Some e \<Longrightarrow> pos st \<le> e \<and> e \<le> length sql" for st e
    using find_from_bounds [of line_break sql "pos st"]
    by (auto simp: line_scan_def in_line_comment_def split: option.splits)
qed

definition in_block_comment :: "string \<Rightarrow> marker_state \<Rightarrow> bool" where
  "in_block_comment sql st \<longleftrightarrow>
     dollar_delimiter st = [] \<and> 0 < block_depth st \<and> pos st \<le> length sql \<and> mode st = BlockComment"

abbreviation block_comment_scan :: "string \<Rightarrow> marker_state \<Rightarrow> nat option" where
  "block_comment_scan sql st \<equiv> block_scan sql (block_depth st) (pos st)"

lemma in_block_comment_step:
  "in_block_comment sql st \<Longrightarrow> marker_step sql st =
    block_comment_step (sql ! pos st) (if pos st + 1 < length sql then sql ! (pos st + 1) else NUL_byte) st"
  by (auto simp: in_block_comment_def marker_step_def Let_def)

interpretation block_comment: region sql "in_block_comment sql" "block_comment_scan sql" for sql
proof
  fix st st'
  assume ins: "in_block_comment sql st"
  show "\<not> pos st < length sql \<Longrightarrow> block_comment_scan sql st \<in> {None, Some (pos st)}"
    by (subst block_scan.simps) simp
  show "\<not> pos st < length sql \<Longrightarrow> drop (pos st) sql = []" by simp
  assume i: "pos st < length sql" and st': "st' = marker_step sql st"
  note step = st' [unfolded in_block_comment_step [OF ins]]
  show "pos st' \<le> length sql \<and> marker_count st' = marker_count st \<and> copied st' = copied st @ cut sql (pos st) (pos st')"
    using i unfolding step block_comment_step_def emit_def by (auto simp: copy_simps)
  show "(in_block_comment sql st' \<and> block_comment_scan sql st' = block_comment_scan sql st) \<or>
      (mode st' = Normal \<and> block_depth st' = 0 \<and> dollar_delimiter st' = [] \<and> block_comment_scan sql st = Some (pos st'))"
  proof (cases "pos st + 1 < length sql")
    case True
    then show ?thesis using ins unfolding step block_comment_step_def emit_def
      by (subst (2 3) block_scan.simps) (auto simp: in_block_comment_def substr_def take_two)
  next
    case False
    then show ?thesis using i ins unfolding step block_comment_step_def emit_def
      by (subst (1 2) block_scan.simps) (auto simp: in_block_comment_def)
  qed
next
  show "in_block_comment sql st \<Longrightarrow> block_comment_scan sql st = Some e \<Longrightarrow> pos st \<le> e \<and> e \<le> length sql" for st e
    by (drule block_scan_bounds) simp
qed

text \<open>Dollar-quoted strings.\<close>

definition in_dollar_quote :: "string \<Rightarrow> marker_state \<Rightarrow> bool" where
  "in_dollar_quote sql st \<longleftrightarrow>
     dollar_delimiter st \<noteq> [] \<and> block_depth st = 0 \<and> pos st \<le> length sql \<and> mode st = Normal"

definition dollar_scan :: "string \<Rightarrow> marker_state \<Rightarrow> nat option" where
  "dollar_scan sql st =
     (case find_sub sql (dollar_delimiter st) (pos st) of None \<Rightarrow> None | Some e \<Rightarrow> Some (e + length (dollar_delimiter st)))"

lemma starts_with_cut: "starts_with (drop i xs) p \<Longrightarrow> take (length p) (drop i xs) = p"
  by (simp add: starts_with_def)

lemma starts_with_length: "starts_with (drop i xs) p \<Longrightarrow> p \<noteq> [] \<Longrightarrow> i + length p \<le> length xs"
proof -
  assume "starts_with (drop i xs) p" "p \<noteq> []"
  then obtain ys where ys: "drop i xs = p @ ys" using starts_withD by blast
  then have "length (drop i xs) = length p + length ys" by simp
  moreover have "i < length xs" using ys \<open>p \<noteq> []\<close> by (cases "i < length xs") auto
  ultimately show ?thesis by simp
qed

interpretation dollar: region sql "in_dollar_quote sql" "dollar_scan sql" for sql
proof
  fix st st'
  assume ins: "in_dollar_quote sql st"
  show "\<not> pos st < length sql \<Longrightarrow> dollar_scan sql st \<in> {None, Some (pos st)}"
    unfolding dollar_scan_def by (subst find_sub.simps) simp
  show "\<not> pos st < length sql \<Longrightarrow> drop (pos st) sql = []" by simp
  assume i: "pos st < length sql" and st': "st' = marker_step sql st"
  have step: "st' = dollar_quote_step sql st" using ins by (simp add: st' marker_step_def in_dollar_quote_def)
  note long = starts_with_length [of "pos st" sql "dollar_delimiter st"]
  show "pos st' \<le> length sql \<and> marker_count st' = marker_count st \<and> copied st' = copied st @ cut sql (pos st) (pos st')"
    using i long ins unfolding step dollar_quote_step_def emit_def
    by (auto simp: copy_simps starts_with_cut in_dollar_quote_def)
  show "(in_dollar_quote sql st' \<and> dollar_scan sql st' = dollar_scan sql st) \<or>
      (mode st' = Normal \<and> block_depth st' = 0 \<and> dollar_delimiter st' = [] \<and> dollar_scan sql st = Some (pos st'))"
  proof -
    have "find_sub sql (dollar_delimiter st) (pos st) =
        (if starts_with (drop (pos st) sql) (dollar_delimiter st) then Some (pos st)
         else find_sub sql (dollar_delimiter st) (Suc (pos st)))"
      using i by (subst find_sub.simps) simp
    then show ?thesis
      using i ins unfolding dollar_scan_def step dollar_quote_step_def emit_def
      by (cases "starts_with (drop (pos st) sql) (dollar_delimiter st)") (simp_all add: in_dollar_quote_def split: option.split)
  qed
next
  show "in_dollar_quote sql st \<Longrightarrow> dollar_scan sql st = Some e \<Longrightarrow> pos st \<le> e \<and> e \<le> length sql" for st e
    using find_sub_bounds [of sql "dollar_delimiter st" "pos st"] starts_with_length [of _ sql "dollar_delimiter st"]
    by (fastforce simp: dollar_scan_def in_dollar_quote_def split: option.splits)
qed

subsection \<open>Entering a region\<close>

lemma identifier_continue_eq: "is_identifier_continue = identifier_continue"
  by (auto simp: fun_eq_iff is_identifier_continue_def is_dollar_tag_continue_def identifier_continue_def)

lemma tag_continue_not_dollar: "is_dollar_tag_continue c \<Longrightarrow> c \<noteq> CHR ''$''"
  by (auto simp: is_dollar_tag_continue_def ctype_defs)

lemma tag_start_continue: "is_dollar_tag_start c \<Longrightarrow> is_dollar_tag_continue c"
  by (auto simp: is_dollar_tag_start_def is_dollar_tag_continue_def is_alnum_def)

lemma takeWhile_stop: "length (takeWhile P r) < length r \<Longrightarrow> r = takeWhile P r @ r ! length (takeWhile P r) # drop (Suc (length (takeWhile P r))) r"
  by (metis Cons_nth_drop_Suc append_take_drop_id takeWhile_eq_take)

lemma takeWhile_until: "\<forall>x \<in> set t. P x \<Longrightarrow> \<not> P c \<Longrightarrow> takeWhile P (t @ c # r) = t"
  by (induction t) auto

text \<open>The tag that the automaton reads forward is the one the scanner finds between two dollar signs.\<close>

lemma dollar_tag_forward:
  fixes r :: string
  defines "t \<equiv> takeWhile is_dollar_tag_continue r" and "name \<equiv> takeWhile (\<lambda>c. \<not> c = CHR ''$'') r"
  shows "length t < length r \<and> r ! length t = CHR ''$'' \<longleftrightarrow> length name < length r \<and> list_all is_dollar_tag_continue name"
    and "length t < length r \<and> r ! length t = CHR ''$'' \<Longrightarrow> t = name"
proof -
  have forward: "t = name" if stop: "length t < length r \<and> r ! length t = CHR ''$''"
  proof -
    obtain r' where r: "r = t @ CHR ''$'' # r'"
      using takeWhile_stop [of is_dollar_tag_continue r] stop by (auto simp: t_def)
    have "\<forall>c \<in> set t. \<not> c = CHR ''$''"
      unfolding t_def using set_takeWhileD tag_continue_not_dollar by fast
    then have "takeWhile (\<lambda>c. \<not> c = CHR ''$'') (t @ CHR ''$'' # r') = t" by (rule takeWhile_until) simp
    then show ?thesis unfolding name_def r [symmetric] by (rule sym)
  qed
  have backward: "t = name" if all: "length name < length r" "list_all is_dollar_tag_continue name"
  proof -
    have "r ! length name = CHR ''$''"
      using nth_length_takeWhile [of "\<lambda>c. \<not> c = CHR ''$''" r] that by (simp add: name_def)
    then obtain r' where r: "r = name @ CHR ''$'' # r'"
      using takeWhile_stop [of "\<lambda>c. \<not> c = CHR ''$''" r] all by (auto simp: name_def)
    have "\<forall>c \<in> set name. is_dollar_tag_continue c" using that by (simp add: list_all_iff)
    then have "takeWhile is_dollar_tag_continue (name @ CHR ''$'' # r') = name"
      by (rule takeWhile_until) (use tag_continue_not_dollar in blast)
    then show ?thesis unfolding t_def r [symmetric] .
  qed
  show "length t < length r \<and> r ! length t = CHR ''$'' \<Longrightarrow> t = name" by (rule forward)
  show "length t < length r \<and> r ! length t = CHR ''$'' \<longleftrightarrow> length name < length r \<and> list_all is_dollar_tag_continue name"
  proof
    assume stop: "length t < length r \<and> r ! length t = CHR ''$''"
    moreover have "list_all is_dollar_tag_continue t" unfolding t_def by (auto simp: list_all_iff dest: set_takeWhileD)
    ultimately show "length name < length r \<and> list_all is_dollar_tag_continue name" using forward [OF stop] by simp
  next
    assume name: "length name < length r \<and> list_all is_dollar_tag_continue name"
    then show "length t < length r \<and> r ! length t = CHR ''$''"
      using backward nth_length_takeWhile [of "\<lambda>c. \<not> c = CHR ''$''" r] by (simp add: name_def)
  qed
qed

lemma tag_text:
  assumes "i < length sql" "sql ! i = CHR ''$''" "k < length (drop (Suc i) sql)" "drop (Suc i) sql ! k = CHR ''$''"
  shows "substr i (Suc (Suc k)) sql = CHR ''$'' # take k (drop (Suc i) sql) @ ''$''"
proof -
  have "drop i sql = CHR ''$'' # drop (Suc i) sql" using assms(1,2) by (metis Cons_nth_drop_Suc)
  then show ?thesis using assms(3,4) by (simp add: substr_def take_Suc_conv_app_nth)
qed

lemma dollar_tag_at_eq:
  fixes sql :: string and i :: nat
  defines "r \<equiv> drop (Suc i) sql" and "name \<equiv> takeWhile (\<lambda>c. \<not> c = CHR ''$'') (drop (Suc i) sql)"
  assumes i: "i < length sql" "sql ! i = CHR ''$''" "i = 0 \<or> \<not> identifier_continue (sql ! (i - 1))"
  shows "dollar_tag_at sql i =
    (if length name < length r \<and> list_all is_dollar_tag_continue name \<and> (name = [] \<or> is_dollar_tag_start (hd name))
     then Some (CHR ''$'' # name @ ''$'') else None)"
proof (cases "length name < length r")
  case True
  then have e: "find_from (\<lambda>c. c = CHR ''$'') sql (i + 1) = Some (i + 1 + length name)"
    by (simp add: find_from_def r_def name_def)
  have "r ! length name = CHR ''$''"
    using nth_length_takeWhile [of "\<lambda>c. \<not> c = CHR ''$''" r] True by (simp add: name_def r_def)
  then have tag: "substr i (i + 1 + length name - i + 1) sql = CHR ''$'' # name @ ''$''"
    using tag_text [OF i(1,2), of "length name"] True by (simp add: r_def name_def takeWhile_eq_take [symmetric])
  have name: "substr (i + 1) (i + 1 + length name - i - 1) sql = name"
    by (simp add: substr_def name_def takeWhile_eq_take [symmetric])
  show ?thesis
    using True i unfolding dollar_tag_at_def e option.case Let_def name tag
    by (auto simp: is_dollar_tag_start_def is_dollar_tag_continue_def list_all_iff)
next
  case False
  then have "find_from (\<lambda>c. c = CHR ''$'') sql (i + 1) = None"
    by (simp add: find_from_def r_def name_def)
  then show ?thesis using False by (simp add: dollar_tag_at_def)
qed

lemma open_dollar_eq:
  assumes i: "pos st < length sql" "sql ! pos st = CHR ''$''" "pos st = 0 \<or> \<not> identifier_continue (sql ! (pos st - 1))"
  shows "open_dollar_step sql (CHR ''$'') st =
    (case dollar_tag_at sql (pos st) of
       None \<Rightarrow> emit 1 ''$'' st
     | Some tag \<Rightarrow> (emit (length tag) tag st)\<lparr>dollar_delimiter := tag\<rparr>)"
proof -
  define r where "r = drop (Suc (pos st)) sql"
  define t where "t = takeWhile is_dollar_tag_continue r"
  define name where "name = takeWhile (\<lambda>c. \<not> c = CHR ''$'') r"
  define k where "k = (if r \<noteq> [] \<and> is_dollar_tag_start (hd r) then length t else 0)"
  have nth: "Suc (pos st + j) < length sql \<longleftrightarrow> j < length r" "j < length r \<Longrightarrow> sql ! Suc (pos st + j) = r ! j" for j
    by (auto simp: r_def)
  have hd: "pos st + 1 < length sql \<and> is_dollar_tag_start (sql ! (pos st + 1)) \<longleftrightarrow> r \<noteq> [] \<and> is_dollar_tag_start (hd r)"
    using nth [of 0] by (auto simp: hd_conv_nth)
  have step: "open_dollar_step sql (CHR ''$'') st =
    (if k < length r \<and> r ! k = CHR ''$''
     then (emit (k + 2) (CHR ''$'' # take k r @ ''$'') st)\<lparr>dollar_delimiter := CHR ''$'' # take k r @ ''$''\<rparr>
     else emit 1 ''$'' st)"
  proof -
    have e: "(if pos st + 1 < length sql \<and> is_dollar_tag_start (sql ! (pos st + 1))
        then pos st + 1 + length (takeWhile is_dollar_tag_continue (drop (pos st + 1) sql)) else pos st + 1) = Suc (pos st + k)"
      unfolding hd by (simp add: k_def t_def r_def)
    have "substr (pos st) (Suc (Suc k)) sql = CHR ''$'' # take k r @ ''$''" if "k < length r" "r ! k = CHR ''$''"
      using tag_text [OF i(1,2), of k] that by (simp add: r_def)
    then show ?thesis unfolding open_dollar_step_def Let_def e using nth [of k] by auto
  qed
  have tag: "k < length r \<and> r ! k = CHR ''$'' \<longleftrightarrow>
      length name < length r \<and> list_all is_dollar_tag_continue name \<and> (name = [] \<or> is_dollar_tag_start (hd name))"
    and same: "k < length r \<and> r ! k = CHR ''$'' \<Longrightarrow> take k r = name"
  proof -
    have "(k < length r \<and> r ! k = CHR ''$'' \<longleftrightarrow>
        length name < length r \<and> list_all is_dollar_tag_continue name \<and> (name = [] \<or> is_dollar_tag_start (hd name))) \<and>
      (k < length r \<and> r ! k = CHR ''$'' \<longrightarrow> take k r = name)"
    proof (cases "r \<noteq> [] \<and> is_dollar_tag_start (hd r)")
      case True
      then have "hd r \<noteq> CHR ''$''" using tag_continue_not_dollar tag_start_continue by blast
      with True have "hd name = hd r" by (cases r) (simp_all add: name_def)
      moreover have "k = length t" "take (length t) r = t" using True by (simp_all add: k_def t_def takeWhile_eq_take [symmetric])
      ultimately show ?thesis using dollar_tag_forward [of r, folded t_def name_def] True by metis
    next
      case False
      then have "k = 0" unfolding k_def by (simp only: if_False)
      with False show ?thesis by (cases r) (auto simp: name_def)
    qed
    then show "k < length r \<and> r ! k = CHR ''$'' \<longleftrightarrow>
        length name < length r \<and> list_all is_dollar_tag_continue name \<and> (name = [] \<or> is_dollar_tag_start (hd name))"
      and "k < length r \<and> r ! k = CHR ''$'' \<Longrightarrow> take k r = name" by blast+
  qed
  show ?thesis
    unfolding step dollar_tag_at_eq [OF i] r_def [symmetric] name_def [symmetric] tag [symmetric]
    using same by (auto simp: min_def)
qed

text \<open>
  A region of either lexer, and where it ends: \<open>None\<close> if none starts at \<open>i\<close>, \<open>Some None\<close> if it is
  never closed. The order of the tests is the one of \<open>escape_end\<close> and \<open>call_arguments\<close> of the dialect.
\<close>

definition region_at :: "string \<Rightarrow> nat \<Rightarrow> nat option option" where
  "region_at sql i =
     (if sql ! i = CHR 0x27 \<or> sql ! i = CHR 0x22 then Some (quoted_end sql i)
      else if substr i 2 sql = ''--'' \<or> substr i 2 sql = ''/*'' then Some (comment_end sql i)
      else if sql ! i = CHR ''$'' \<and> dollar_tag_at sql i \<noteq> None then Some (dollar_end sql i)
      else None)"

lemma substr_two: "i < length sql \<Longrightarrow>
  substr i 2 sql = [a, b] \<longleftrightarrow> i + 1 < length sql \<and> sql ! i = a \<and> sql ! (i + 1) = b"
  by (cases "Suc i < length sql") (auto simp: substr_def take_two drop_last_one)

lemma dollar_tag_at_cut:
  assumes "dollar_tag_at sql i = Some tag"
  shows "tag \<noteq> []" "i + length tag \<le> length sql" "cut sql i (i + length tag) = tag"
    "sql ! i = CHR ''$''" "i = 0 \<or> \<not> identifier_continue (sql ! (i - 1))"
proof -
  obtain e where e: "find_from (\<lambda>c. c = CHR ''$'') sql (i + 1) = Some e" and tag: "tag = substr i (e - i + 1) sql"
    and rest: "sql ! i = CHR ''$''" "i = 0 \<or> \<not> identifier_continue (sql ! (i - 1))"
    using assms by (auto simp: dollar_tag_at_def Let_def split: if_splits option.splits)
  from find_from_bounds [OF e] have len: "length tag = e - i + 1" "i < e" "e < length sql" by (auto simp: tag)
  then show "tag \<noteq> []" "i + length tag \<le> length sql" "cut sql i (i + length tag) = tag" by (auto simp: tag substr_def Suc_diff_le)
  show "sql ! i = CHR ''$''" "i = 0 \<or> \<not> identifier_continue (sql ! (i - 1))" by (rule rest)+
qed

lemma dollar_end_bounds:
  assumes "dollar_end sql i = Some e"
  shows "\<exists>tag. dollar_tag_at sql i = Some tag \<and> tag \<noteq> [] \<and> i + length tag \<le> e \<and> e \<le> length sql"
proof -
  obtain tag k where tag: "dollar_tag_at sql i = Some tag" "find_sub sql tag (i + length tag) = Some k" "e = k + length tag"
    using assms by (auto simp: dollar_end_def split: option.splits)
  then show ?thesis
    using find_sub_bounds [OF tag(2)] starts_with_length [of k sql tag] dollar_tag_at_cut(1) [OF tag(1)] by auto
qed

lemma region_at_bounds:
  assumes "region_at sql i = Some (Some e)" "i < length sql"
  shows "i < e \<and> e \<le> length sql"
proof -
  have "quoted_end sql i = Some e \<Longrightarrow> ?thesis"
    using quoted_scan_bounds by (fastforce simp: quoted_end_def)
  moreover have "comment_end sql i = Some e \<Longrightarrow> ?thesis"
    using assms(2) block_scan_bounds [of sql 1 "i + 2" e] find_from_bounds [of _ sql "i + 2"]
    by (fastforce simp: comment_end_def split: if_splits option.splits)
  moreover have "dollar_end sql i = Some e \<Longrightarrow> ?thesis"
    using dollar_end_bounds [of sql i e] by (auto simp: neq_Nil_conv)
  ultimately show ?thesis using assms(1) by (auto simp: region_at_def split: if_splits)
qed

text \<open>The normal mode between regions.\<close>

definition between :: "string \<Rightarrow> marker_state \<Rightarrow> bool" where
  "between sql st \<longleftrightarrow> mode st = Normal \<and> block_depth st = 0 \<and> dollar_delimiter st = [] \<and> pos st \<le> length sql"

lemma enter:
  assumes "run sql st = run sql st'" "run sql st' = resume sql st' e"
    and "pos st < pos st'" "pos st' \<le> length sql" "copied st' = copied st @ cut sql (pos st) (pos st')"
    and "marker_count st' = marker_count st" "\<And>k. e = Some k \<Longrightarrow> pos st' \<le> k"
  shows "run sql st = resume sql st e"
  using assms(1,2) resume_step [OF assms(4,3,5,6,7)] by simp

lemma enter_quote:
  assumes "between sql st" "pos st < length sql" "sql ! pos st = CHR 0x27 \<or> sql ! pos st = CHR 0x22"
  shows "run sql st = resume sql st (quoted_end sql (pos st))"
proof (rule enter)
  let ?st = "marker_step sql st"
  have st: "?st = (emit 1 [sql ! pos st] st)\<lparr>mode := if sql ! pos st = CHR 0x22 then DoubleQuote
      else if escape_string_at sql (pos st) then EscapeString else SingleQuote\<rparr>"
    using assms by (auto simp: marker_step_def between_def Let_def identifier_continue_eq escape_string_at_def)
  show "run sql st = run sql ?st" by (rule run_step [OF assms(2)])
  have "in_quote sql ?st" using assms by (auto simp: st in_quote_def between_def emit_def)
  then have "run sql ?st = resume sql ?st (quote_scan sql ?st)" by (rule quote.region_run)
  also have "quote_scan sql ?st = quoted_end sql (pos st)"
    using assms(3) by (auto simp: quote_scan_def quoted_end_def st emit_def escape_string_at_def)
  finally show "run sql ?st = resume sql ?st (quoted_end sql (pos st))" .
  show "pos st < pos ?st" "pos ?st \<le> length sql" "copied ?st = copied st @ cut sql (pos st) (pos ?st)"
    "marker_count ?st = marker_count st"
    using assms(2) by (simp_all add: st emit_def copy_simps)
  show "quoted_end sql (pos st) = Some k \<Longrightarrow> pos ?st \<le> k" for k
    using quoted_scan_bounds by (fastforce simp: st emit_def quoted_end_def)
qed

lemma enter_comment:
  assumes "between sql st" "pos st < length sql" "substr (pos st) 2 sql = ''--'' \<or> substr (pos st) 2 sql = ''/*''"
  shows "run sql st = resume sql st (comment_end sql (pos st))"
proof (rule enter)
  let ?st = "marker_step sql st"
  have two: "pos st + 1 < length sql" using assms(2,3) by (auto simp: substr_two)
  have st: "?st = (if substr (pos st) 2 sql = ''--'' then (emit 2 ''--'' st)\<lparr>mode := LineComment\<rparr>
      else (emit 2 ''/*'' st)\<lparr>mode := BlockComment, block_depth := 1\<rparr>)"
  proof (cases "substr (pos st) 2 sql = ''--''")
    case True
    then have "sql ! pos st = CHR ''-''" "sql ! (pos st + 1) = CHR ''-''" using assms(2) by (simp_all add: substr_two)
    with True two assms(1) show ?thesis by (simp add: marker_step_def between_def Let_def)
  next
    case False
    then have "substr (pos st) 2 sql = ''/*''" using assms(3) by blast
    then have "sql ! pos st = CHR ''/''" "sql ! (pos st + 1) = CHR ''*''" using assms(2) by (simp_all add: substr_two)
    with False two assms(1) show ?thesis by (simp add: marker_step_def between_def Let_def)
  qed
  show "run sql st = run sql ?st" by (rule run_step [OF assms(2)])
  show "run sql ?st = resume sql ?st (comment_end sql (pos st))"
  proof (cases "substr (pos st) 2 sql = ''--''")
    case True
    then have "in_line_comment sql ?st" using assms(1) two by (auto simp: st in_line_comment_def between_def emit_def)
    then have "run sql ?st = resume sql ?st (line_scan sql ?st)" by (rule line_comment.region_run)
    moreover have "line_scan sql ?st = comment_end sql (pos st)"
      using True unfolding line_scan_def comment_end_def line_break_fun by (simp add: st emit_def)
    ultimately show ?thesis by simp
  next
    case False
    then have "in_block_comment sql ?st" using assms(1) two by (auto simp: st in_block_comment_def between_def emit_def)
    then have "run sql ?st = resume sql ?st (block_comment_scan sql ?st)" by (rule block_comment.region_run)
    then show ?thesis using False assms(3) by (simp add: comment_end_def st emit_def)
  qed
  show "pos st < pos ?st" "pos ?st \<le> length sql" "marker_count ?st = marker_count st"
    using two by (auto simp: st emit_def)
  show "copied ?st = copied st @ cut sql (pos st) (pos ?st)"
    using assms(3) by (auto simp: st emit_def substr_def)
  show "comment_end sql (pos st) = Some k \<Longrightarrow> pos ?st \<le> k" for k
    using two block_scan_bounds [of sql 1 "pos st + 2" k] find_from_bounds [of _ sql "pos st + 2"]
    by (fastforce simp: comment_end_def st emit_def split: if_splits option.splits)
qed

lemma enter_dollar:
  assumes "between sql st" "pos st < length sql" "dollar_tag_at sql (pos st) = Some tag"
  shows "run sql st = resume sql st (dollar_end sql (pos st))"
proof (rule enter)
  let ?st = "marker_step sql st"
  note cut = dollar_tag_at_cut [OF assms(3)]
  have st: "?st = (emit (length tag) tag st)\<lparr>dollar_delimiter := tag\<rparr>"
    using assms cut(4,5) open_dollar_eq [OF assms(2) cut(4,5)]
    by (auto simp: marker_step_def between_def Let_def identifier_continue_eq)
  show "run sql st = run sql ?st" by (rule run_step [OF assms(2)])
  have "in_dollar_quote sql ?st" using assms(1) cut by (auto simp: st in_dollar_quote_def between_def emit_def)
  then have "run sql ?st = resume sql ?st (dollar_scan sql ?st)" by (rule dollar.region_run)
  also have "dollar_scan sql ?st = dollar_end sql (pos st)"
    using assms(3) by (simp add: dollar_scan_def dollar_end_def st emit_def split: option.split)
  finally show "run sql ?st = resume sql ?st (dollar_end sql (pos st))" .
  show "pos st < pos ?st" "pos ?st \<le> length sql" "marker_count ?st = marker_count st"
    "copied ?st = copied st @ cut sql (pos st) (pos ?st)"
    using cut by (simp_all add: st emit_def)
  show "dollar_end sql (pos st) = Some k \<Longrightarrow> pos ?st \<le> k" for k
    using dollar_end_bounds [of sql "pos st" k] assms(3) by (auto simp: st emit_def)
qed

subsection \<open>The rewritten text\<close>

text \<open>The positions of the question marks outside all regions, as the scanners of the dialect see them.\<close>

function marker_positions :: "string \<Rightarrow> nat \<Rightarrow> nat list" where
  "marker_positions sql i =
     (if i < length sql then
        (case region_at sql i of
           Some None \<Rightarrow> []
         | Some (Some e) \<Rightarrow> marker_positions sql e
         | None \<Rightarrow> if sql ! i = CHR ''?'' then i # marker_positions sql (i + 1) else marker_positions sql (i + 1))
      else [])"
  by pat_completeness auto
termination
  by (relation "measure (\<lambda>(sql, i). length sql - i)") (auto dest!: region_at_bounds)

declare marker_positions.simps [simp del]

text \<open>The text with the marker at each position replaced by a numbered one, everything else copied.\<close>

fun render :: "string \<Rightarrow> nat \<Rightarrow> nat list \<Rightarrow> nat \<Rightarrow> string" where
  "render sql i [] n = drop i sql"
| "render sql i (p # ps) n = cut sql i p @ CHR ''$'' # to_string n @ render sql (Suc p) ps (Suc n)"

lemma marker_positions_ge:
  "p \<in> set (marker_positions sql i) \<Longrightarrow> i \<le> p \<and> p < length sql \<and> sql ! p = CHR ''?''"
proof (induction sql i rule: marker_positions.induct)
  case (1 sql i)
  show ?case
    using 1(4) 1(1) 1(2,3) region_at_bounds [of sql i]
    by (subst (asm) marker_positions.simps) (force split: if_splits option.splits)
qed

lemma marker_positions_sorted: "sorted_wrt (<) (marker_positions sql i)"
proof (induction sql i rule: marker_positions.induct)
  case (1 sql i)
  then show ?case
    by (subst marker_positions.simps) (auto split: option.split dest!: marker_positions_ge)
qed

lemma render_skip:
  "i \<le> e \<Longrightarrow> \<forall>p \<in> set ps. e \<le> p \<Longrightarrow> cut sql i e @ render sql e ps n = render sql i ps n"
  by (cases ps) (simp_all add: slice_drop slice_append flip: append_assoc)

lemma between_step:
  assumes "between sql st" "pos st < length sql" "region_at sql (pos st) = None"
  shows "marker_step sql st =
    (if sql ! pos st = CHR ''?''
     then (emit 1 (CHR ''$'' # to_string (marker_count st + 1)) st)\<lparr>marker_count := marker_count st + 1\<rparr>
     else emit 1 [sql ! pos st] st)"
proof -
  have no: "sql ! pos st \<noteq> CHR 0x27" "sql ! pos st \<noteq> CHR 0x22" "substr (pos st) 2 sql \<noteq> ''--''"
    "substr (pos st) 2 sql \<noteq> ''/*''" "sql ! pos st = CHR ''$'' \<Longrightarrow> dollar_tag_at sql (pos st) = None"
    using assms(3) by (auto simp: region_at_def split: if_splits)
  have dollar: "sql ! pos st = CHR ''$'' \<Longrightarrow> pos st = 0 \<or> \<not> identifier_continue (sql ! (pos st - 1)) \<Longrightarrow>
      open_dollar_step sql (CHR ''$'') st = emit 1 [sql ! pos st] st"
    using open_dollar_eq [OF assms(2)] no(5) by simp
  show ?thesis
    using assms(1,2) no(1-4) dollar
    by (auto simp: marker_step_def between_def Let_def identifier_continue_eq substr_two)
qed

lemma run_between:
  "between sql st \<Longrightarrow> run sql st =
    (copied st @ render sql (pos st) (marker_positions sql (pos st)) (marker_count st + 1),
     marker_count st + length (marker_positions sql (pos st)))"
proof (induction "length sql - pos st" arbitrary: st rule: less_induct)
  case less
  show ?case
  proof (cases "pos st < length sql")
    case False
    then show ?thesis by (subst (1 2) marker_positions.simps) (simp add: run_end)
  next
    case True
    show ?thesis
    proof (cases "region_at sql (pos st)")
      case (Some r)
      then have run: "run sql st = resume sql st r"
        using enter_quote [OF less.prems True] enter_comment [OF less.prems True] enter_dollar [OF less.prems True]
        by (auto simp: region_at_def split: if_splits)
      show ?thesis
      proof (cases r)
        case None
        then show ?thesis
          using run Some True by (subst (1 2) marker_positions.simps) (simp add: resume_def)
      next
        case e: (Some e)
        let ?st = "\<lparr>mode = Normal, block_depth = 0, marker_count = marker_count st, dollar_delimiter = [], pos = e,
          copied = copied st @ cut sql (pos st) e\<rparr>"
        have b: "pos st < e" "e \<le> length sql" using region_at_bounds Some e True by blast+
        have "run sql ?st = (copied ?st @ render sql e (marker_positions sql e) (marker_count st + 1),
            marker_count st + length (marker_positions sql e))"
          using less.hyps [of ?st] b True by (simp add: between_def)
        moreover have "marker_positions sql (pos st) = marker_positions sql e"
          using Some e True by (subst marker_positions.simps) simp
        ultimately show ?thesis
          using run e b render_skip [of "pos st" e "marker_positions sql e" sql] marker_positions_ge
          by (auto simp: resume_def)
      qed
    next
      case None
      let ?st = "marker_step sql st"
      note st = between_step [OF less.prems True None]
      have "between sql ?st" "pos ?st = pos st + 1" using less.prems True by (auto simp: st between_def emit_def)
      then have IH: "run sql st = (copied ?st @ render sql (pos st + 1) (marker_positions sql (pos st + 1)) (marker_count ?st + 1),
          marker_count ?st + length (marker_positions sql (pos st + 1)))"
        using less.hyps [of ?st] True run_step [OF True] by simp
      have "render sql (pos st) (marker_positions sql (pos st + 1)) n =
          [sql ! pos st] @ render sql (pos st + 1) (marker_positions sql (pos st + 1)) n" for n
        using render_skip [of "pos st" "pos st + 1" "marker_positions sql (pos st + 1)" sql n, symmetric]
          marker_positions_ge [of _ sql "pos st + 1"] True by (simp add: take_one)
      then show ?thesis
        using IH None True by (subst (1 2) marker_positions.simps) (simp add: st emit_def)
    qed
  qed
qed

lemma replace_parameter_markers_text:
  "replace_parameter_markers sql = (render sql 0 (marker_positions sql 0) 1, length (marker_positions sql 0))"
  using run_between [of sql "\<lparr>mode = Normal, block_depth = 0, marker_count = 0, dollar_delimiter = [], pos = 0, copied = []\<rparr>"]
  by (simp add: replace_parameter_markers_def run_def between_def Let_def)

text \<open>
  C1: the two lexers agree. Rewriting the parameter markers of any SQL text with the automaton gives the
  text in which the \<open>k\<close>-th question mark outside the string literals, quoted identifiers, comments and
  dollar-quoted strings, as the scanners of the SQL dialect delimit them, is replaced by \<open>$k\<close>, and every
  other character is copied; the count is the number of these question marks.
\<close>

theorem replace_parameter_markers_exact:
  "replace_parameter_markers sql = (render sql 0 (marker_positions sql 0) 1, length (marker_positions sql 0))"
  by (rule replace_parameter_markers_text)

lemma length_sorted_subset:
  "sorted_wrt (<) ps \<Longrightarrow> (\<And>p. p \<in> set ps \<Longrightarrow> p < length xs \<and> P (xs ! p)) \<Longrightarrow> length ps \<le> length (filter P xs)"
proof -
  assume sorted: "sorted_wrt (<) ps" and ps: "\<And>p. p \<in> set ps \<Longrightarrow> p < length xs \<and> P (xs ! p)"
  have "length ps = card (set ps)" using sorted by (simp add: distinct_card strict_sorted_iff)
  also have "\<dots> \<le> card {i. i < length xs \<and> P (xs ! i)}" by (rule card_mono) (auto dest: ps)
  also have "\<dots> = length (filter P xs)" by (simp add: length_filter_conv_card)
  finally show ?thesis .
qed

text \<open>
  The number of markers is at most the number of question marks in the text, and a text without markers
  is passed on unchanged.
\<close>

theorem replace_parameter_markers_bounds:
  "snd (replace_parameter_markers sql) \<le> length (filter (\<lambda>c. c = CHR ''?'') sql) \<and>
   (snd (replace_parameter_markers sql) = 0 \<longrightarrow> fst (replace_parameter_markers sql) = sql)"
  using length_sorted_subset [of "marker_positions sql 0" sql "\<lambda>c. c = CHR ''?''"]
    marker_positions_sorted [of sql 0] marker_positions_ge [of _ sql 0]
  by (auto simp: replace_parameter_markers_text)

theorem replace_parameter_markers_bounds_witness:
  "snd (replace_parameter_markers ''SELECT /* ? */ 1'') = 0 \<and>
   fst (replace_parameter_markers ''SELECT /* ? */ 1'') = ''SELECT /* ? */ 1''"
proof -
  have "snd (replace_parameter_markers ''SELECT /* ? */ 1'') = 0" by code_simp
  then show ?thesis using replace_parameter_markers_bounds by blast
qed

end
