(* ===== verification/OdbcSql.thy ===== *)
theory OdbcSql
  imports PgLexer Utf8
begin

section \<open>ODBC escapes in SQL text\<close>

text \<open>
  \<^verbatim>\<open>translate_odbc_sql\<close> of \<^verbatim>\<open>core/database/postgres/pg_sql_dialect.cpp\<close>, on top of the region scanners of \<open>PgLexer\<close>. A translation is the
  new text or an error with its message. The lemmas show that the text outside the escapes is copied and each outermost
  escape is replaced by the translation of its body.
\<close>

datatype sql_translation_error = Invalid_syntax | Invalid_datetime | Unsupported_sql

datatype sql_dialect_profile = Dialect_PostgreSql | Dialect_Redshift

type_synonym translation = "(sql_translation_error \<times> string) + string"

subsection \<open>Words, literals and brackets\<close>

definition trim_view :: "string \<Rightarrow> string" where
  "trim_view s = rev (dropWhile is_space (rev (dropWhile is_space s)))"

definition starts_with_word :: "string \<Rightarrow> string \<Rightarrow> bool" where
  "starts_with_word s word \<longleftrightarrow>
     length word \<le> length s \<and> map to_lower_char (take (length word) s) = map to_lower_char word \<and>
     (length s = length word \<or> is_space (s ! length word) \<or> s ! length word = CHR ''('')"

definition decimal_int :: "string \<Rightarrow> int option" where
  "decimal_int s =
     (case from_chars (- (2 ^ 31)) (2 ^ 31 - 1) s of
        (n, Fc_parsed v) \<Rightarrow> if n = length s then Some v else None
      | _ \<Rightarrow> None)"

definition literal_leap_year :: "int \<Rightarrow> bool" where
  "literal_leap_year year \<longleftrightarrow> year mod 4 = 0 \<and> (year mod 100 \<noteq> 0 \<or> year mod 400 = 0)"

definition month_days :: "int list" where
  "month_days = [31, 28, 31, 30, 31, 30, 31, 31, 30, 31, 30, 31]"

definition literal_date :: "string \<Rightarrow> bool" where
  "literal_date s \<longleftrightarrow>
     length s = 10 \<and> s ! 4 = CHR ''-'' \<and> s ! 7 = CHR ''-'' \<and>
     (case (decimal_int (substr 0 4 s), decimal_int (substr 5 2 s), decimal_int (substr 8 2 s)) of
        (Some year, Some month, Some day) \<Rightarrow>
          \<not> (year < 1 \<or> month < 1 \<or> 12 < month) \<and> 1 \<le> day \<and>
          day \<le> month_days ! nat (month - 1) + (if month = 2 \<and> literal_leap_year year then 1 else 0)
      | _ \<Rightarrow> False)"

definition literal_time :: "string \<Rightarrow> bool" where
  "literal_time s \<longleftrightarrow>
     \<not> (length s < 8 \<or> s ! 2 \<noteq> CHR '':'' \<or> s ! 5 \<noteq> CHR '':'') \<and>
     list_all is_digit (substr 0 2 s) \<and> list_all is_digit (substr 3 2 s) \<and> list_all is_digit (substr 6 2 s) \<and>
     (case (decimal_int (substr 0 2 s), decimal_int (substr 3 2 s), decimal_int (substr 6 2 s)) of
        (Some h, Some m, Some sec) \<Rightarrow> h \<le> 23 \<and> m \<le> 59 \<and> sec \<le> 59
      | _ \<Rightarrow> False) \<and>
     (length s = 8 \<or> s ! 8 = CHR ''.'' \<and> length s \<noteq> 9 \<and> list_all is_digit (drop 9 s))"

definition quoted_value :: "string \<Rightarrow> string option" where
  "quoted_value s =
     (let v = trim_view s
      in if length v < 2 \<or> hd v \<noteq> CHR 0x27 \<or> last v \<noteq> CHR 0x27 then None else Some (substr 1 (length v - 2) v))"

function escape_scan :: "string \<Rightarrow> nat \<Rightarrow> nat \<Rightarrow> nat option" where
  "escape_scan sql depth i =
     (if i < length sql then
        (case region_at sql i of
           Some None \<Rightarrow> None
         | Some (Some e) \<Rightarrow> escape_scan sql depth e
         | None \<Rightarrow>
             if sql ! i = CHR ''{'' then escape_scan sql (depth + 1) (i + 1)
             else if sql ! i = CHR ''}'' then
               if depth - 1 = 0 then Some i else escape_scan sql (depth - 1) (i + 1)
             else escape_scan sql depth (i + 1))
      else None)"
  by pat_completeness auto
termination
  by (relation "measure (\<lambda>(sql, d, i). length sql - i)") (auto dest!: region_at_bounds)

definition escape_end :: "string \<Rightarrow> nat \<Rightarrow> nat option" where
  "escape_end sql position = escape_scan sql 1 (position + 1)"

definition ascii_word_equal :: "string \<Rightarrow> string \<Rightarrow> bool" where
  "ascii_word_equal s word \<longleftrightarrow> map to_upper_char s = word"

lemma comment_end_bounds:
  assumes "comment_end sql i = Some e" "i < length sql"
  shows "i < e \<and> e \<le> length sql"
  using assms block_scan_bounds [of sql 1 "i + 2" e] find_from_bounds [of _ sql "i + 2"]
  by (fastforce simp: comment_end_def split: if_splits option.splits)

function skip_trivia :: "string \<Rightarrow> nat \<Rightarrow> nat option" where
  "skip_trivia s position =
     (if position < length s then
        if s ! position \<in> {CHR '' '', CHR 0x09, CHR 0x0D, CHR 0x0A, CHR 0x0C, CHR 0x0B} then skip_trivia s (position + 1)
        else if substr position 2 s = ''/*'' \<or> substr position 2 s = ''--'' then
          (case comment_end s position of None \<Rightarrow> None | Some e \<Rightarrow> skip_trivia s e)
        else Some position
      else Some position)"
  by pat_completeness auto
termination
  by (relation "measure (\<lambda>(s, i). length s - i)") (auto dest!: comment_end_bounds)

declare escape_scan.simps [simp del] skip_trivia.simps [simp del]

subsection \<open>Arguments of a call\<close>

text \<open>The loop of \<^verbatim>\<open>call_arguments\<close>; the head of \<open>closers\<close> is the back of the vector.\<close>

function call_arguments_loop :: "nat \<Rightarrow> string \<Rightarrow> string \<Rightarrow> string list \<Rightarrow> nat \<Rightarrow> nat \<Rightarrow> string list option" where
  "call_arguments_loop count f closers args begin_at i =
     (if i < length f then
        (case region_at f i of
           Some None \<Rightarrow> None
         | Some (Some e) \<Rightarrow> call_arguments_loop count f closers args begin_at e
         | None \<Rightarrow>
             let ch = f ! i; close = (ch = CHR '')'' \<and> length closers = 1)
             in if ch = CHR ''('' \<or> ch = CHR ''['' then
                  call_arguments_loop count f ((if ch = CHR ''('' then CHR '')'' else CHR '']'') # closers) args begin_at (i + 1)
                else if ch = CHR '','' \<and> length closers = 1 \<or> close then
                  (let argument = substr begin_at (i - begin_at) f; args' = args @ [argument]
                   in case skip_trivia argument 0 of
                       None \<Rightarrow> None
                     | Some first \<Rightarrow>
                         if first = length argument \<or> length args = count then None
                         else if close then
                           (case skip_trivia f (i + 1) of
                              None \<Rightarrow> None
                            | Some trailing \<Rightarrow> if trailing \<noteq> length f \<or> length args' \<noteq> count then None else Some args')
                         else call_arguments_loop count f closers args' (i + 1) (i + 1))
                else if ch = CHR '')'' \<or> ch = CHR '']'' then
                  if hd closers \<noteq> ch then None else call_arguments_loop count f (tl closers) args begin_at (i + 1)
                else call_arguments_loop count f closers args begin_at (i + 1))
      else None)"
  by pat_completeness auto
termination
  by (relation "measure (\<lambda>(count, f, c, a, b, i). length f - i)") (auto dest!: region_at_bounds)

declare call_arguments_loop.simps [simp del]

definition call_arguments :: "nat \<Rightarrow> string \<Rightarrow> nat \<Rightarrow> string list option" where
  "call_arguments count f name_end =
     (case skip_trivia f name_end of
        None \<Rightarrow> None
      | Some op \<Rightarrow>
          if op = length f \<or> f ! op \<noteq> CHR ''('' then None
          else call_arguments_loop count f '')'' [] (op + 1) (op + 1))"

definition keyword_char :: "char \<Rightarrow> bool" where
  "keyword_char c \<longleftrightarrow> is_upper c \<or> is_lower c \<or> c = CHR ''_''"

definition keyword_argument :: "string \<Rightarrow> string option" where
  "keyword_argument s =
     (case skip_trivia s 0 of
        None \<Rightarrow> None
      | Some start \<Rightarrow>
          let word = takeWhile keyword_char (drop start s); e = start + length word
          in if word = [] then None
             else case skip_trivia s e of
                 None \<Rightarrow> None
               | Some trailing \<Rightarrow> if trailing \<noteq> length s then None else Some word)"

subsection \<open>CONVERT\<close>

text \<open>Keyword, PostgreSQL name and Redshift name of a target type.\<close>

definition convert_targets :: "(string \<times> string \<times> string) list" where
  "convert_targets =
     [(''SQL_SMALLINT'', ''SMALLINT'', ''SMALLINT''),
      (''SQL_INTEGER'', ''INTEGER'', ''INTEGER''),
      (''SQL_BIGINT'', ''BIGINT'', ''BIGINT''),
      (''SQL_REAL'', ''REAL'', ''REAL''),
      (''SQL_FLOAT'', ''DOUBLE PRECISION'', ''DOUBLE PRECISION''),
      (''SQL_DOUBLE'', ''DOUBLE PRECISION'', ''DOUBLE PRECISION''),
      (''SQL_NUMERIC'', ''NUMERIC'', ''DECIMAL(38,18)''),
      (''SQL_DECIMAL'', ''NUMERIC'', ''DECIMAL(38,18)''),
      (''SQL_BIT'', ''BOOLEAN'', ''BOOLEAN''),
      (''SQL_DATE'', ''DATE'', ''DATE''),
      (''SQL_TIME'', ''TIME'', ''TIME''),
      (''SQL_TIMESTAMP'', ''TIMESTAMP'', ''TIMESTAMP''),
      (''SQL_CHAR'', ''TEXT'', ''VARCHAR(65535)''),
      (''SQL_VARCHAR'', ''TEXT'', ''VARCHAR(65535)''),
      (''SQL_LONGVARCHAR'', ''TEXT'', ''VARCHAR(65535)''),
      (''SQL_WCHAR'', ''TEXT'', ''VARCHAR(65535)''),
      (''SQL_WVARCHAR'', ''TEXT'', ''VARCHAR(65535)''),
      (''SQL_WLONGVARCHAR'', ''TEXT'', ''VARCHAR(65535)''),
      (''SQL_BINARY'', ''BYTEA'', ''VARBYTE''),
      (''SQL_VARBINARY'', ''BYTEA'', ''VARBYTE''),
      (''SQL_LONGVARBINARY'', ''BYTEA'', ''VARBYTE''),
      (''SQL_GUID'', ''UUID'', [])]"

definition translate_convert :: "sql_dialect_profile \<Rightarrow> string \<Rightarrow> nat \<Rightarrow> translation" where
  "translate_convert profile f name_end =
     (case call_arguments 2 f name_end of
        None \<Rightarrow> Inl (Invalid_syntax, ''CONVERT requires two arguments'')
      | Some args \<Rightarrow>
          (case keyword_argument (args ! 1) of
             None \<Rightarrow> Inl (Invalid_syntax, ''CONVERT requires one type keyword'')
           | Some target \<Rightarrow>
               (case find (\<lambda>(k, pg, rs). ascii_word_equal target k) convert_targets of
                  Some (k, pg, rs) \<Rightarrow>
                    let native = (if profile = Dialect_PostgreSql then pg else rs)
                    in if native = [] then Inl (Unsupported_sql, ''CONVERT target is not supported by this profile'')
                       else Inr (''CAST('' @ args ! 0 @ '' AS '' @ native @ '')'')
                | None \<Rightarrow> Inl (Unsupported_sql, ''CONVERT target is not supported by this profile''))))"

subsection \<open>TIMESTAMPADD and TIMESTAMPDIFF\<close>

definition timestamp_operand :: "string \<Rightarrow> sql_dialect_profile \<Rightarrow> string" where
  "timestamp_operand argument profile =
     ''CAST(REGEXP_REPLACE(BTRIM(CAST(('' @ argument @
     (if profile = Dialect_PostgreSql
      then ('') AS TEXT)) COLLATE '' @ [CHR 0x22] @ ''C'' @ [CHR 0x22] @ '', '' @ [CHR 0x27] @ ''^(?=[0-9]{2}:)'' @ [CHR 0x27] @ '', CAST(CURRENT_DATE AS TEXT) || '' @ [CHR 0x27] @ '' '' @ [CHR 0x27] @ '') AS TIMESTAMP)'')
      else ('') AS VARCHAR(MAX))), '' @ [CHR 0x27] @ ''^(?=[0-9]{2}:)'' @ [CHR 0x27] @ '', CAST(CURRENT_DATE AS VARCHAR(10)) || '' @ [CHR 0x27] @ '' '' @ [CHR 0x27] @ '', 1, '' @ [CHR 0x27] @ ''p'' @ [CHR 0x27] @ '') AS TIMESTAMP)''))"

record timestamp_unit =
  unit_keyword :: string
  unit_native :: string
  unit_interval :: string
  unit_seconds :: nat

definition timestamp_units :: "timestamp_unit list" where
  "timestamp_units = map (\<lambda>(k, n, p, s). \<lparr>unit_keyword = k, unit_native = n, unit_interval = p, unit_seconds = s\<rparr>)
     [(''SQL_TSI_SECOND'', ''second'', ''1 second'', 1),
      (''SQL_TSI_MINUTE'', ''minute'', ''1 minute'', 60),
      (''SQL_TSI_HOUR'', ''hour'', ''1 hour'', 3600),
      (''SQL_TSI_DAY'', ''day'', ''1 day'', 86400),
      (''SQL_TSI_WEEK'', ''week'', ''7 days'', 604800),
      (''SQL_TSI_MONTH'', ''month'', ''1 month'', 0),
      (''SQL_TSI_QUARTER'', ''quarter'', ''3 months'', 0),
      (''SQL_TSI_YEAR'', ''year'', ''1 year'', 0)]"

definition pg_boundary_ordinal :: "string \<Rightarrow> timestamp_unit \<Rightarrow> string" where
  "pg_boundary_ordinal argument u =
     (let timestamp = timestamp_operand argument Dialect_PostgreSql
      in if unit_seconds u \<noteq> 0
         then (''(EXTRACT(EPOCH FROM DATE_TRUNC('' @ [CHR 0x27]) @ unit_native u @ ([CHR 0x27] @ '', '') @ timestamp @ '')) / '' @ to_string (unit_seconds u) @ '')''
         else
           let sc = (if unit_native u = ''month'' then ''12'' else if unit_native u = ''quarter'' then ''4'' else ''1'')
           in (''EXTRACT(YEAR FROM (AGE(DATE_TRUNC('' @ [CHR 0x27]) @ unit_native u @ ([CHR 0x27] @ '', '') @ timestamp @ (''), TIMESTAMP '' @ [CHR 0x27] @ ''2000-01-01'' @ [CHR 0x27] @ '') * '') @ sc @ ''))'')"

definition timestamp_call :: "sql_dialect_profile \<Rightarrow> bool \<Rightarrow> timestamp_unit \<Rightarrow> string list \<Rightarrow> string" where
  "timestamp_call profile addition u args =
     (if profile = Dialect_Redshift then
        let calendar_year = (addition \<and> unit_native u = ''year'')
        in (if addition then ''DATEADD('' else ''DATEDIFF('') @ (if calendar_year then ''month'' else unit_native u) @ '', '' @
           (if addition
            then ''CAST(('' @ args ! 1 @ '') AS INTEGER)'' @ (if calendar_year then '' * 12'' else [])
            else timestamp_operand (args ! 1) profile) @
           '', '' @ timestamp_operand (args ! 2) profile @ '')''
      else if addition then
        ''(CAST(('' @ args ! 1 @ ('') AS BIGINT) * INTERVAL '' @ [CHR 0x27]) @ unit_interval u @ ([CHR 0x27] @ '' + '') @ timestamp_operand (args ! 2) profile @ '')''
      else
        ''CAST(-('' @ pg_boundary_ordinal (args ! 1) u @ '' - '' @ pg_boundary_ordinal (args ! 2) u @ '') AS BIGINT)'')"

definition translate_timestamp :: "sql_dialect_profile \<Rightarrow> string \<Rightarrow> nat \<Rightarrow> bool \<Rightarrow> translation" where
  "translate_timestamp profile f name_end addition =
     (case call_arguments 3 f name_end of
        None \<Rightarrow> Inl (Invalid_syntax, ''Timestamp escape requires three arguments'')
      | Some args \<Rightarrow>
          (case keyword_argument (args ! 0) of
             None \<Rightarrow> Inl (Invalid_syntax, ''Timestamp escape requires one interval keyword'')
           | Some keyword \<Rightarrow>
               (case find (\<lambda>u. ascii_word_equal keyword (unit_keyword u)) timestamp_units of
                  None \<Rightarrow> Inl (Unsupported_sql, ''Timestamp interval is not supported by this profile'')
                | Some u \<Rightarrow>
                    if \<not> addition \<and> unit_native u = ''week''
                    then Inl (Unsupported_sql, ''Timestamp interval is not supported by this profile'')
                    else Inr (timestamp_call profile addition u args))))"

subsection \<open>Functions of Redshift\<close>

text \<open>The message for a region that is never closed.\<close>

definition unclosed_message :: "string \<Rightarrow> string \<Rightarrow> nat \<Rightarrow> string" where
  "unclosed_message name f i =
     ''Unclosed '' @ name @
     (if f ! i = CHR 0x27 \<or> f ! i = CHR 0x22 then '' quoted argument''
      else if substr i 2 f = ''--'' \<or> substr i 2 f = ''/*'' then '' comment'' else '' dollar argument'')"

text \<open>
  The loop that \<^verbatim>\<open>translate_locate\<close>, \<^verbatim>\<open>translate_length\<close>, \<^verbatim>\<open>translate_calendar_component\<close>, \<^verbatim>\<open>translate_clock_component\<close>,
  \<^verbatim>\<open>translate_day_ordinal_component\<close> and \<^verbatim>\<open>translate_logarithm\<close> share, with the words of their messages, the size of
  their argument array and the least number of arguments.
\<close>

function outer_arguments_loop ::
  "string \<Rightarrow> nat \<Rightarrow> nat \<Rightarrow> string \<Rightarrow> nat \<Rightarrow> string list \<Rightarrow> nat \<Rightarrow> nat \<Rightarrow> sql_translation_error \<times> string + string list" where
  "outer_arguments_loop name limit least f depth args begin_at i =
     (if i < length f then
        (case region_at f i of
           Some None \<Rightarrow> Inl (Invalid_syntax, unclosed_message name f i)
         | Some (Some e) \<Rightarrow> outer_arguments_loop name limit least f depth args begin_at e
         | None \<Rightarrow>
             let ch = f ! i; close = (ch = CHR '')'' \<and> depth = 1)
             in if ch = CHR ''('' then outer_arguments_loop name limit least f (depth + 1) args begin_at (i + 1)
                else if ch = CHR '','' \<and> depth = 1 \<or> close then
                  (let argument = substr begin_at (i - begin_at) f; args' = args @ [argument]
                   in if (case skip_trivia argument 0 of None \<Rightarrow> True | Some first \<Rightarrow> first = length argument) \<or> length args = limit
                      then Inl (Invalid_syntax, ''Invalid '' @ name @ '' argument count or empty argument'')
                      else if close then
                        if skip_trivia f (i + 1) \<noteq> Some (length f) \<or> length args' < least
                        then Inl (Invalid_syntax, ''Invalid '' @ name @ '' call structure'') else Inr args'
                      else outer_arguments_loop name limit least f depth args' (i + 1) (i + 1))
                else if ch = CHR '')'' then outer_arguments_loop name limit least f (depth - 1) args begin_at (i + 1)
                else outer_arguments_loop name limit least f depth args begin_at (i + 1))
      else Inl (Invalid_syntax, ''Unclosed '' @ name @ '' call''))"
  by pat_completeness auto
termination
  by (relation "measure (\<lambda>(n, l, m, f, d, a, b, i). length f - i)") (auto dest!: region_at_bounds)

declare outer_arguments_loop.simps [simp del]

definition outer_arguments :: "string \<Rightarrow> nat \<Rightarrow> nat \<Rightarrow> string \<Rightarrow> nat \<Rightarrow> sql_translation_error \<times> string + string list" where
  "outer_arguments name limit least f name_end =
     (let missing = Inl (Invalid_syntax, ''ODBC '' @ name @ '' requires an argument list'')
      in case skip_trivia f name_end of
          None \<Rightarrow> missing
        | Some op \<Rightarrow>
            if op = length f \<or> f ! op \<noteq> CHR ''('' then missing
            else outer_arguments_loop name limit least f 1 [] (op + 1) (op + 1))"

definition translate_locate :: "string \<Rightarrow> nat \<Rightarrow> translation" where
  "translate_locate f name_end =
     bind_result (outer_arguments ''LOCATE'' 3 2 f name_end) (\<lambda>args.
       if length args = 3 then Inl (Unsupported_sql, ''LOCATE start-position argument is not supported'')
       else Inr (''POSITION('' @ args ! 0 @ '' IN '' @ args ! 1 @ '')''))"

definition translate_length :: "string \<Rightarrow> nat \<Rightarrow> translation" where
  "translate_length f name_end =
     bind_result (outer_arguments ''LENGTH'' 1 1 f name_end) (\<lambda>args. Inr (''LENGTH(RTRIM('' @ args ! 0 @ ('', '' @ [CHR 0x27] @ '' '' @ [CHR 0x27] @ ''))'')))"

definition translate_calendar_component :: "string \<Rightarrow> nat \<Rightarrow> string \<Rightarrow> translation" where
  "translate_calendar_component f name_end part =
     bind_result (outer_arguments ''calendar component'' 1 1 f name_end) (\<lambda>args.
       Inr (''CAST(DATE_PART('' @ part @ '', '' @ args ! 0 @ '') AS INTEGER)''))"

definition translate_clock_component :: "string \<Rightarrow> nat \<Rightarrow> string \<Rightarrow> translation" where
  "translate_clock_component f name_end part =
     bind_result (outer_arguments ''clock component'' 1 1 f name_end) (\<lambda>args.
       Inr (''CAST(FLOOR(EXTRACT('' @ part @ '' FROM '' @ args ! 0 @ '')) AS INTEGER)''))"

definition translate_day_ordinal_component :: "string \<Rightarrow> nat \<Rightarrow> string \<Rightarrow> translation" where
  "translate_day_ordinal_component f name_end part =
     bind_result (outer_arguments ''day ordinal component'' 1 1 f name_end) (\<lambda>args.
       Inr (''EXTRACT('' @ part @ '' FROM '' @ args ! 0 @ '')''))"

definition translate_logarithm :: "string \<Rightarrow> nat \<Rightarrow> string \<Rightarrow> translation" where
  "translate_logarithm f name_end native_function =
     bind_result (outer_arguments ''logarithm'' 1 1 f name_end) (\<lambda>args.
       Inr (native_function @ ''('' @ args ! 0 @ '')''))"

definition translate_current_time :: "string \<Rightarrow> nat \<Rightarrow> string \<Rightarrow> translation" where
  "translate_current_time f name_end name =
     (let after = (\<lambda>position c. case position of
            Some p \<Rightarrow> if p < length f \<and> f ! p = c then skip_trivia f (p + 1) else None
          | None \<Rightarrow> None);
          end_at = after (after (skip_trivia f name_end) (CHR ''('')) (CHR '')'')
      in if end_at \<noteq> Some (length f)
         then Inl (Invalid_syntax, ''ODBC current-time escape requires exactly zero arguments'')
         else Inr (if ascii_word_equal name ''NOW'' then ''GETDATE()'' else ''CAST(GETDATE() AS TIME)''))"

text \<open>The translations that only Redshift has; \<open>None\<close> is a name that is none of them.\<close>

definition redshift_function :: "string \<Rightarrow> nat \<Rightarrow> string \<Rightarrow> translation option" where
  "redshift_function f name_end name =
     (let is = ascii_word_equal name
      in if is ''LOCATE'' then Some (translate_locate f name_end)
         else if is ''LENGTH'' then Some (translate_length f name_end)
         else if is ''YEAR'' then Some (translate_calendar_component f name_end ''year'')
         else if is ''MONTH'' then Some (translate_calendar_component f name_end ''month'')
         else if is ''DAYOFMONTH'' then Some (translate_calendar_component f name_end ''day'')
         else if is ''LOG'' then Some (translate_logarithm f name_end ''LN'')
         else if is ''LOG10'' then Some (translate_logarithm f name_end ''LOG'')
         else if is ''DAYOFWEEK'' then
           Some (bind_result (translate_day_ordinal_component f name_end ''dow'') (\<lambda>sql. Inr (''('' @ sql @ ''+1)'')))
         else if is ''DAYOFYEAR'' then Some (translate_day_ordinal_component f name_end ''doy'')
         else if is ''HOUR'' then Some (translate_clock_component f name_end ''hour'')
         else if is ''MINUTE'' then Some (translate_clock_component f name_end ''minute'')
         else if is ''SECOND'' then Some (translate_clock_component f name_end ''second'')
         else if is ''NOW'' \<or> is ''CURTIME'' then Some (translate_current_time f name_end name)
         else None)"

subsection \<open>Escapes\<close>

definition renamed_function :: "string \<Rightarrow> string" where
  "renamed_function name =
     (if starts_with_word name ''NOW'' then ''CURRENT_TIMESTAMP''
      else if starts_with_word name ''CURTIME'' then ''CURRENT_TIME''
      else if starts_with_word name ''CURDATE'' then ''CURRENT_DATE''
      else if starts_with_word name ''IFNULL'' then ''COALESCE''
      else if starts_with_word name ''LCASE'' then ''LOWER''
      else if starts_with_word name ''UCASE'' then ''UPPER''
      else [])"

text \<open>The call of another name: the text before the first parenthesis is replaced.\<close>

definition rename_function :: "string \<Rightarrow> string" where
  "rename_function sql =
     (let f = trim_view sql
      in case find_from (\<lambda>c. c = CHR ''('') f 0 of
          None \<Rightarrow> sql
        | Some op \<Rightarrow>
            let replacement = renamed_function (trim_view (substr 0 op f));
                keyword_function = starts_with replacement ''CURRENT_'';
                empty_arguments = (case find_last (\<lambda>c. c \<notin> {CHR '' '', CHR 0x09, CHR 0x0D, CHR 0x0A}) f of
                    None \<Rightarrow> False
                  | Some close \<Rightarrow> f ! close = CHR '')'' \<and> trim_view (substr (op + 1) (close - op - 1) f) = [])
            in if replacement = [] then sql
               else if keyword_function \<and> empty_arguments then replacement
               else replacement @ drop op sql)"

text \<open>The rest of the branch for \<^verbatim>\<open>fn\<close>, once the text inside is translated.\<close>

definition translate_function :: "sql_dialect_profile \<Rightarrow> string \<Rightarrow> translation" where
  "translate_function profile sql =
     (let f = trim_view sql
      in case skip_trivia f 0 of
          None \<Rightarrow> Inr (rename_function sql)
        | Some first \<Rightarrow>
            let name = takeWhile identifier_continue (drop first f); name_end = first + length name
            in if ascii_word_equal name ''CONVERT'' then translate_convert profile f name_end
               else if ascii_word_equal name ''TIMESTAMPADD'' then translate_timestamp profile f name_end True
               else if ascii_word_equal name ''TIMESTAMPDIFF'' then translate_timestamp profile f name_end False
               else case (if profile = Dialect_Redshift then redshift_function f name_end name else None) of
                   Some t \<Rightarrow> t
                 | None \<Rightarrow> Inr (rename_function sql))"

definition translate_datetime :: "string \<Rightarrow> string \<Rightarrow> string \<Rightarrow> translation" where
  "translate_datetime body keyword native_keyword =
     (case quoted_value (drop (length keyword) body) of
        None \<Rightarrow> Inl (Invalid_datetime, ''ODBC datetime escape requires a quoted literal'')
      | Some literal \<Rightarrow>
          let valid = (if keyword = ''d'' then literal_date literal
                       else if keyword = ''t'' then literal_time literal
                       else keyword = ''ts'' \<and> 11 < length literal \<and> literal ! 10 = CHR '' '' \<and>
                         literal_date (take 10 literal) \<and> literal_time (drop 11 literal))
          in if \<not> valid then Inl (Invalid_datetime, ''ODBC datetime escape contains an invalid value'')
             else Inr (native_keyword @ [CHR '' '', CHR 0x27] @ literal @ [CHR 0x27]))"

definition translate_like_escape :: "string \<Rightarrow> translation" where
  "translate_like_escape body =
     (case quoted_value (drop 6 body) of
        None \<Rightarrow> Inl (Invalid_syntax, ''ODBC LIKE escape must contain one character'')
      | Some literal \<Rightarrow>
          if literal \<noteq> [CHR 0x27, CHR 0x27] \<and> utf8_code_point_count literal \<noteq> Some 1
          then Inl (Invalid_syntax, ''ODBC LIKE escape must contain one character'')
          else Inr (''ESCAPE '' @ [CHR 0x27] @ literal @ [CHR 0x27]))"

lemma escape_scan_bounds: "escape_scan sql d i = Some e \<Longrightarrow> i \<le> e \<and> e < length sql \<and> sql ! e = CHR ''}''"
proof (induction sql d i rule: escape_scan.induct)
  case (1 sql d i)
  show ?case
    using 1(5) 1(1-4) region_at_bounds [of sql i]
    by (subst (asm) escape_scan.simps) (force split: if_splits option.splits)
qed

lemma escape_end_bounds: "escape_end sql i = Some e \<Longrightarrow> i < e \<and> e < length sql"
  using escape_scan_bounds [of sql 1 "i + 1" e] by (auto simp: escape_end_def)

lemma length_trim_view: "length (trim_view s) \<le> length s"
  unfolding trim_view_def length_rev
  by (rule order.trans [OF length_dropWhile_le]) (simp add: length_dropWhile_le)

lemma starts_with_word_length: "starts_with_word (trim_view s) w \<Longrightarrow> length w \<le> length s"
  using length_trim_view [of s] by (auto simp: starts_with_word_def)

lemma trim_view_word:
  assumes "starts_with_word (trim_view s) w" "w \<noteq> []"
  shows "length (trim_view (drop (length w) (trim_view s))) < length s"
proof -
  have "length (trim_view (drop (length w) (trim_view s))) \<le> length (trim_view s) - length w"
    using length_trim_view [of "drop (length w) (trim_view s)"] by simp
  moreover have "0 < length w" "length w \<le> length (trim_view s)" using assms by (auto simp: starts_with_word_def)
  ultimately show ?thesis using length_trim_view [of s] by linarith
qed

function translate_escape :: "sql_dialect_profile \<Rightarrow> string \<Rightarrow> translation"
  and translate_fragment_loop :: "sql_dialect_profile \<Rightarrow> string \<Rightarrow> nat \<Rightarrow> string \<Rightarrow> translation" where
  "translate_escape profile text_body =
     (let body = trim_view text_body
      in if starts_with_word body ''ts'' then translate_datetime body ''ts'' ''TIMESTAMP''
         else if starts_with_word body ''d'' then translate_datetime body ''d'' ''DATE''
         else if starts_with_word body ''t'' then translate_datetime body ''t'' ''TIME''
         else if starts_with_word body ''fn'' then
           bind_result (translate_fragment_loop profile (trim_view (drop 2 body)) 0 []) (translate_function profile)
         else if starts_with_word body ''oj'' then translate_fragment_loop profile (trim_view (drop 2 body)) 0 []
         else if starts_with_word body ''escape'' then translate_like_escape body
         else if starts_with_word body ''call'' then
           bind_result (translate_fragment_loop profile (trim_view (drop 4 body)) 0 []) (\<lambda>sql. Inr (''CALL '' @ sql))
         else if starts_with body ''?'' then
           Inl (Unsupported_sql, ''ODBC function-return procedure calls are not supported'')
         else Inr (''{'' @ body @ ''}''))"
| "translate_fragment_loop profile sql i output =
     (if i < length sql then
        (case region_at sql i of
           Some (Some e) \<Rightarrow> translate_fragment_loop profile sql e (output @ substr i (e - i) sql)
         | _ \<Rightarrow>
             if sql ! i \<noteq> CHR ''{'' then translate_fragment_loop profile sql (i + 1) (output @ [sql ! i])
             else case escape_end sql i of
                 None \<Rightarrow> Inl (Invalid_syntax, ''ODBC escape clause has no closing brace'')
               | Some e \<Rightarrow>
                   bind_result (translate_escape profile (substr (i + 1) (e - i - 1) sql)) (\<lambda>t.
                     translate_fragment_loop profile sql (e + 1) (output @ t)))
      else Inr output)"
  by pat_completeness auto
termination
proof (relation "measures
    [\<lambda>x. case x of Inl (p, b) \<Rightarrow> length b | Inr (p, sql, i, out) \<Rightarrow> length sql,
     \<lambda>x. case x of Inl (p, b) \<Rightarrow> 0 | Inr (p, sql, i, out) \<Rightarrow> length sql - i]", goal_cases)
  case (2 profile s body)
  then show ?case using trim_view_word [of s "''fn''"] by (simp add: numeral_eq_Suc)
next
  case (3 profile s body)
  then show ?case using trim_view_word [of s "''oj''"] by (simp add: numeral_eq_Suc)
next
  case (4 profile s body)
  then show ?case using trim_view_word [of s "''call''"] by (simp add: numeral_eq_Suc)
qed (auto dest!: region_at_bounds escape_end_bounds)

declare translate_escape.simps [simp del] translate_fragment_loop.simps [simp del]

definition translate_fragment :: "sql_dialect_profile \<Rightarrow> string \<Rightarrow> translation" where
  "translate_fragment profile sql = translate_fragment_loop profile sql 0 []"

definition translate_odbc_sql :: "string \<Rightarrow> sql_dialect_profile \<Rightarrow> translation" where
  "translate_odbc_sql sql profile = translate_fragment profile sql"

subsection \<open>The text outside the escapes is copied\<close>

text \<open>
  The outermost escapes of a text behind \<open>i\<close>: the position of the opening brace, and of the closing one or \<open>None\<close>. Braces
  in literals, comments and dollar strings open none.
\<close>

function escape_spans :: "string \<Rightarrow> nat \<Rightarrow> (nat \<times> nat option) list" where
  "escape_spans sql i =
     (if i < length sql then
        (case region_at sql i of
           Some (Some e) \<Rightarrow> escape_spans sql e
         | _ \<Rightarrow>
             if sql ! i \<noteq> CHR ''{'' then escape_spans sql (i + 1)
             else case escape_end sql i of None \<Rightarrow> [(i, None)] | Some e \<Rightarrow> (i, Some e) # escape_spans sql (e + 1))
      else [])"
  by pat_completeness auto
termination
  by (relation "measure (\<lambda>(sql, i). length sql - i)") (auto dest!: region_at_bounds escape_end_bounds)

declare escape_spans.simps [simp del]

text \<open>The text with each span replaced by the translation of its body.\<close>

fun splice :: "(string \<Rightarrow> translation) \<Rightarrow> string \<Rightarrow> nat \<Rightarrow> (nat \<times> nat option) list \<Rightarrow> translation" where
  "splice tr sql i [] = Inr (drop i sql)"
| "splice tr sql i ((s, None) # spans) = Inl (Invalid_syntax, ''ODBC escape clause has no closing brace'')"
| "splice tr sql i ((s, Some e) # spans) =
     bind_result (tr (cut sql (s + 1) e)) (\<lambda>t.
       bind_result (splice tr sql (e + 1) spans) (\<lambda>rest. Inr (cut sql i s @ t @ rest)))"

lemma escape_spans_ge: "(s, e) \<in> set (escape_spans sql i) \<Longrightarrow> i \<le> s \<and> s < length sql"
proof (induction sql i rule: escape_spans.induct)
  case (1 sql i)
  show ?case
    using 1(6) 1(1-5) region_at_bounds [of sql i] escape_end_bounds [of sql i]
    by (subst (asm) escape_spans.simps) (force split: if_splits option.splits)
qed

text \<open>Copied text moves from the output to the splice.\<close>

lemma splice_skip:
  assumes "i \<le> j" "j \<le> length sql" "\<forall>(s, e) \<in> set spans. j \<le> s"
  shows "splice tr sql i spans = bind_result (splice tr sql j spans) (\<lambda>rest. Inr (cut sql i j @ rest))"
proof (cases "(tr, sql, i, spans)" rule: splice.cases)
  case (1 tr sql i)
  then show ?thesis using assms slice_drop [of i j sql] by simp
next
  case (3 tr sql i s e spans')
  then have "cut sql i j @ cut sql j s = cut sql i s" using assms by (intro slice_append) auto
  with 3 show ?thesis by (auto simp: bind_result_assoc append_assoc [symmetric] simp del: append_assoc)
qed auto

lemma fragment_loop_splice:
  "i \<le> length sql \<Longrightarrow>
    translate_fragment_loop profile sql i out =
      bind_result (splice (translate_escape profile) sql i (escape_spans sql i)) (\<lambda>rest. Inr (out @ rest))"
proof (induction "length sql - i" arbitrary: i out rule: less_induct)
  case less
  have skip: "splice (translate_escape profile) sql i (escape_spans sql j) =
      bind_result (splice (translate_escape profile) sql j (escape_spans sql j)) (\<lambda>rest. Inr (cut sql i j @ rest))"
    if "i \<le> j" "j \<le> length sql" for j
    using that by (intro splice_skip) (auto dest: escape_spans_ge)
  show ?case
  proof (cases "i < length sql")
    case False
    then show ?thesis by (simp add: translate_fragment_loop.simps [of _ sql i] escape_spans.simps [of sql i])
  next
    case True
    consider (region) e where "region_at sql i = Some (Some e)"
      | (text_char) "\<forall>e. region_at sql i \<noteq> Some (Some e)" "sql ! i \<noteq> CHR ''{''"
      | (brace) "\<forall>e. region_at sql i \<noteq> Some (Some e)" "sql ! i = CHR ''{''" by blast
    then show ?thesis
    proof cases
      case (region e)
      then have e: "i < e" "e \<le> length sql" using region_at_bounds True by blast+
      have "translate_fragment_loop profile sql i out = translate_fragment_loop profile sql e (out @ substr i (e - i) sql)"
        "escape_spans sql i = escape_spans sql e"
        using True region by (simp_all add: translate_fragment_loop.simps [of _ sql i] escape_spans.simps [of sql i])
      then show ?thesis using less(1) [of e] e True skip [of e] by (simp add: bind_result_assoc substr_def)
    next
      case text_char
      have "translate_fragment_loop profile sql i out = translate_fragment_loop profile sql (i + 1) (out @ [sql ! i])"
        "escape_spans sql i = escape_spans sql (i + 1)"
        using True text_char
        by (auto simp: translate_fragment_loop.simps [of _ sql i] escape_spans.simps [of sql i] split: option.split)
      then show ?thesis using less(1) [of "i + 1"] True skip [of "i + 1"] by (simp add: bind_result_assoc take_one)
    next
      case brace
      show ?thesis
      proof (cases "escape_end sql i")
        case None
        then show ?thesis using True brace
          by (auto simp: translate_fragment_loop.simps [of _ sql i] escape_spans.simps [of sql i] split: option.split)
      next
        case (Some e)
        then have e: "i < e" "e < length sql" using escape_end_bounds by blast+
        have "translate_fragment_loop profile sql i out =
            bind_result (translate_escape profile (substr (i + 1) (e - i - 1) sql)) (\<lambda>t.
              translate_fragment_loop profile sql (e + 1) (out @ t))"
          "escape_spans sql i = (i, Some e) # escape_spans sql (e + 1)"
          using True brace Some
          by (auto simp: translate_fragment_loop.simps [of _ sql i] escape_spans.simps [of sql i] split: option.split)
        moreover have "translate_fragment_loop profile sql (e + 1) (out @ t) =
            bind_result (splice (translate_escape profile) sql (e + 1) (escape_spans sql (e + 1))) (\<lambda>rest. Inr ((out @ t) @ rest))" for t
          using less(1) [of "e + 1"] e by simp
        ultimately show ?thesis by (simp add: bind_result_assoc substr_def)
      qed
    qed
  qed
qed

text \<open>
  C9: the translation touches only the escapes. The result is the text with every outermost escape clause replaced by the translation of its
  body and all else copied, in order; braces inside string literals, quoted names, comments and dollar strings are not
  escapes, and an escape that is never closed is an error. So a text without escapes is unchanged.
\<close>

theorem translate_odbc_sql_exact:
  "translate_odbc_sql sql profile = splice (translate_escape profile) sql 0 (escape_spans sql 0) \<and>
   (escape_spans sql 0 = [] \<longrightarrow> translate_odbc_sql sql profile = Inr sql)"
  using fragment_loop_splice [of 0 sql profile "[]"]
  by (cases "splice (translate_escape profile) sql 0 (escape_spans sql 0)") (auto simp: translate_odbc_sql_def translate_fragment_def)

theorem translate_odbc_sql_exact_witness:
  "let sql = ''SELECT '' @ [CHR 0x27] @ ''{d}'' @ [CHR 0x27] in
   escape_spans sql 0 = [] \<and> translate_odbc_sql sql Dialect_Redshift = Inr sql"
proof -
  have "escape_spans (''SELECT '' @ [CHR 0x27] @ ''{d}'' @ [CHR 0x27]) 0 = []" by code_simp
  then show ?thesis
    using translate_odbc_sql_exact [of "''SELECT '' @ [CHR 0x27] @ ''{d}'' @ [CHR 0x27]" Dialect_Redshift] by (simp add: Let_def)
qed

subsection \<open>A comment at the end of an escape\<close>


end
