(* ===== verification/PgQuery.thy ===== *)
theory PgQuery
  imports PgWire PgLexer
begin

section \<open>Requests to the server\<close>

text \<open>
  The request builders of \<^verbatim>\<open>core/database/postgres/pg_protocol_parser.cpp\<close>: startup, TLS request, simple
  query, prepared query and statement description. A builder counts the bytes of its request against
  \<^verbatim>\<open>max_wire_bytes\<close> before it writes any of them. The lemmas give the exact bytes of a request, show that
  the count is their number, and say when a builder succeeds.

  Conversions of the C library and of the floating-point environment are parameters: \<open>float_env\<close> holds
  whether the context could be set up (\<open>ready\<close>) and restored (\<open>restored\<close>), and the results of
  \<^verbatim>\<open>strtof_l\<close> (size 4) and \<^verbatim>\<open>strtod_l\<close> (size 8).
\<close>

subsection \<open>Native floating-point parameters\<close>

datatype conversion_errno = Errno_zero | Errno_range | Errno_other

record ieee_conversion =
  consumed :: nat
  bits :: "64 word"
  is_finite :: bool
  is_zero :: bool
  conversion_errno :: conversion_errno

record float_env =
  ready :: bool
  restored :: bool
  strto :: "nat \<Rightarrow> string \<Rightarrow> ieee_conversion"

text \<open>
  Whether a text is a complete finite decimal, and whether its coefficient has a nonzero digit. The
  position-based loops of the source are runs of digits of the remaining text.
\<close>

definition native_ieee_decimal :: "string \<Rightarrow> bool \<times> bool" where
  "native_ieee_decimal text =
     (let t = (if text \<noteq> [] \<and> hd text = CHR ''-'' then tl text else text);
          whole = takeWhile is_digit t;
          r = dropWhile is_digit t;
          point = (r \<noteq> [] \<and> hd r = CHR ''.'');
          fraction = (if point then takeWhile is_digit (tl r) else []);
          r = (if point then dropWhile is_digit (tl r) else r);
          nonzero = list_ex (\<lambda>c. c \<noteq> CHR ''0'') (whole @ fraction)
      in if whole @ fraction = [] then (False, nonzero)
         else if r \<noteq> [] \<and> (hd r = CHR ''e'' \<or> hd r = CHR ''E'') then
           let r = (if tl r \<noteq> [] \<and> (hd (tl r) = CHR ''+'' \<or> hd (tl r) = CHR ''-'') then tl (tl r) else tl r)
           in (takeWhile is_digit r \<noteq> [] \<and> dropWhile is_digit r = [], nonzero)
         else (r = [], nonzero))"

text \<open>\<^verbatim>\<open>encode_native_ieee\<close> for a type of \<open>sz\<close> bytes.\<close>

definition encode_native_ieee :: "float_env \<Rightarrow> nat \<Rightarrow> string \<Rightarrow> bytes option" where
  "encode_native_ieee env sz text =
     (let (eligible, nonzero_coefficient) = native_ieee_decimal text
      in if \<not> eligible then None
         else if \<not> ready env then None
         else
           let v = strto env sz text
           in if consumed v = length text \<and> is_finite v \<and>
                 (conversion_errno v = Errno_zero \<or> conversion_errno v = Errno_range) \<and>
                 (\<not> is_zero v \<or> \<not> nonzero_coefficient)
              then Some (map (\<lambda>i. byte_of (drop_bit (8 * (sz - 1 - i)) (bits v))) [0..<sz])
              else None)"

text \<open>\<open>context\<close> is whether the request owns a conversion context at all.\<close>

definition native_ieee_parameter ::
  "float_env \<Rightarrow> bool \<Rightarrow> pg_catalog_profile \<Rightarrow> query_parameter \<Rightarrow> bytes option" where
  "native_ieee_parameter env has_context profile param =
     (case param_value param of
        None \<Rightarrow> None
      | Some v \<Rightarrow>
          if \<not> has_context \<or> \<not> ready env \<or> profile \<noteq> Redshift \<or> binary_input param \<or> v = [] \<or> 2 ^ 31 - 1 < length v then None
          else if param_type param = Float32 then encode_native_ieee env 4 v
          else if param_type param = Float64 then encode_native_ieee env 8 v
          else None)"

subsection \<open>Startup and simple query\<close>

text \<open>The \<^verbatim>\<open>add\<close> lambda of a builder: the new count, or the exception.\<close>

definition add_bytes :: "nat \<Rightarrow> nat \<Rightarrow> nat \<Rightarrow> nat result" where
  "add_bytes max_wire_bytes bytes n =
     (if max_wire_bytes < bytes \<or> max_wire_bytes - bytes < n then Inl Request_wire_limit_exceeded
      else Inr (bytes + n))"

definition startup_sizes :: "pg_catalog_profile \<Rightarrow> string \<Rightarrow> string \<Rightarrow> (string \<times> string) list \<Rightarrow> nat list" where
  "startup_sizes profile user database params =
     (if user \<noteq> [] then [6, length user] else []) @ [10, length database] @
     concat (map (\<lambda>(key, v). [length key, 1, length v, 1]) params) @
     (if profile = Redshift \<and> ''extra_float_digits'' \<notin> fst ` set params then [18 + 1 + 2] else [])"

text \<open>\<open>params\<close> is the \<^verbatim>\<open>std::map\<close> of run-time parameters in its iteration order.\<close>

definition create_startup_message ::
  "pg_catalog_profile \<Rightarrow> string \<Rightarrow> string \<Rightarrow> (string \<times> string) list \<Rightarrow> nat \<Rightarrow> bytes result" where
  "create_startup_message profile user database params max_wire_bytes =
     bind_result (fold_result (add_bytes max_wire_bytes) 9 (startup_sizes profile user database params))
       (\<lambda>bytes.
          if 2 ^ 32 - 1 < bytes then Inl Request_wire_limit_exceeded
          else
            let kv = (if user \<noteq> [] then [(''user'', user)] else []) @ [(''database'', database)] @ params @
                     (if profile = Redshift \<and> ''extra_float_digits'' \<notin> fst ` set params
                      then [(''extra_float_digits'', ''2'')] else [])
            in if list_ex (\<lambda>(key, v). NUL_byte \<in> set key \<or> NUL_byte \<in> set v) kv
               then Inl (Invalid_argument ''PostgreSQL startup field contains an embedded NUL byte'')
               else Inr (be32 (of_nat bytes) @ be32 196608 @
                         concat (map (\<lambda>(key, v). cstring key @ cstring v) kv) @ [NUL_byte]))"

definition create_ssl_request :: bytes where
  "create_ssl_request = be32 8 @ be32 80877103"

definition create_simple_query :: "string \<Rightarrow> nat \<Rightarrow> bytes result" where
  "create_simple_query sql max_wire_bytes =
     (if max_wire_bytes < 6 \<or> min (max_wire_bytes - 6) (2 ^ 32 - 1 - 5) < length sql
      then Inl Request_wire_limit_exceeded
      else bind_result (reject_sql_nul sql)
        (\<lambda>_. Inr (CHR ''Q'' # be32 (of_nat (4 + length sql + 1)) @ cstring sql)))"

subsection \<open>The extended query exchange\<close>

definition raw_binary :: "pg_catalog_profile \<Rightarrow> query_parameter \<Rightarrow> bool" where
  "raw_binary profile param \<longleftrightarrow> profile = Redshift \<and> param_type param = Binary"

definition text_binary :: "pg_catalog_profile \<Rightarrow> query_parameter \<Rightarrow> bool" where
  "text_binary profile param \<longleftrightarrow> \<not> raw_binary profile param \<and> (param_type param = Binary \<or> binary_input param)"

text \<open>Whether a parameter travels in the binary format: the test of \<^verbatim>\<open>explicit_formats\<close> and of its format code.\<close>

definition native_format :: "float_env \<Rightarrow> bool \<Rightarrow> pg_catalog_profile \<Rightarrow> query_parameter \<Rightarrow> bool" where
  "native_format env ctx profile param \<longleftrightarrow>
     raw_binary profile param \<or> native_ieee_parameter env ctx profile param \<noteq> None"

definition value_limit :: "bool \<Rightarrow> nat" where
  "value_limit binary = (if binary then (2 ^ 31 - 1 - 2) div 2 else 2 ^ 31 - 1)"

definition add_wire :: "nat \<Rightarrow> nat \<Rightarrow> nat \<Rightarrow> nat result" where
  "add_wire max_wire_bytes wire_bytes n =
     (if max_wire_bytes - wire_bytes < n then Inl Request_wire_limit_exceeded else Inr (wire_bytes + n))"

text \<open>One turn of the sizing loop, and the whole count.\<close>

definition count_parameter ::
  "float_env \<Rightarrow> bool \<Rightarrow> pg_catalog_profile \<Rightarrow> nat \<Rightarrow> nat \<Rightarrow> query_parameter \<Rightarrow> nat result" where
  "count_parameter env ctx profile max_wire_bytes wire_bytes param =
     (case param_value param of
        None \<Rightarrow> Inr wire_bytes
      | Some v \<Rightarrow>
          (case native_ieee_parameter env ctx profile param of
             Some native \<Rightarrow> add_wire max_wire_bytes wire_bytes (length native)
           | None \<Rightarrow>
               let binary = text_binary profile param
               in if value_limit binary < length v
                  then Inl (Length_error ''PostgreSQL parameter value is too large'')
                  else add_wire max_wire_bytes wire_bytes (if binary then 2 + 2 * length v else length v)))"

definition count_wire_bytes ::
  "float_env \<Rightarrow> bool \<Rightarrow> pg_catalog_profile \<Rightarrow> string \<Rightarrow> query_parameter list \<Rightarrow> bool \<Rightarrow> nat \<Rightarrow> nat result" where
  "count_wire_bytes env ctx profile rewritten_sql params explicit_formats max_wire_bytes =
     bind_result (fold_result (add_wire max_wire_bytes) 0
         ([51, length rewritten_sql, 8 * length params] @ (if explicit_formats then [2 * length params] else [])))
       (\<lambda>wire_bytes. fold_result (count_parameter env ctx profile max_wire_bytes) wire_bytes params)"

text \<open>A message of the exchange: \<^verbatim>\<open>begin_message\<close>, the statements that append its body, \<^verbatim>\<open>finish_message\<close>.\<close>

definition with_message :: "bytes \<Rightarrow> char \<Rightarrow> (bytes \<Rightarrow> bytes result) \<Rightarrow> bytes result" where
  "with_message out tag body =
     (let (out', start) = begin_message out tag in bind_result (body out') (\<lambda>out''. finish_message out'' start))"

definition write_parse :: "bytes \<Rightarrow> string \<Rightarrow> 32 word list \<Rightarrow> bytes result" where
  "write_parse out sql oids =
     with_message out (CHR ''P'') (\<lambda>out.
       let out = append_cstring out [];
           out = append_cstring out sql;
           out = append_u16 out (of_nat (length oids))
       in Inr (foldl append_u32 out oids))"

definition write_describe :: "bytes \<Rightarrow> char \<Rightarrow> bytes result" where
  "write_describe out kind = with_message out (CHR ''D'') (\<lambda>out. Inr (append_cstring (out @ [kind]) []))"

definition write_value ::
  "float_env \<Rightarrow> bool \<Rightarrow> pg_catalog_profile \<Rightarrow> bytes \<Rightarrow> query_parameter \<Rightarrow> bytes result" where
  "write_value env ctx profile out param =
     (case param_value param of
        None \<Rightarrow> Inr (append_u32 out 0xffffffff)
      | Some v \<Rightarrow>
          (case native_ieee_parameter env ctx profile param of
             Some native \<Rightarrow> Inr (append_u32 out (of_nat (length native)) @ native)
           | None \<Rightarrow>
               let binary = text_binary profile param
               in if value_limit binary < length v
                  then Inl (Length_error ''PostgreSQL parameter value is too large'')
                  else
                    bind_result (if binary then bind_result (encode_hex v) (\<lambda>h. Inr (CHR 0x5C # CHR ''x'' # h)) else Inr v)
                      (\<lambda>b. Inr (append_u32 out (of_nat (length b)) @ b))))"

definition write_bind ::
  "float_env \<Rightarrow> bool \<Rightarrow> pg_catalog_profile \<Rightarrow> bytes \<Rightarrow> query_parameter list \<Rightarrow> bool \<Rightarrow> bytes result" where
  "write_bind env ctx profile out params explicit_formats =
     with_message out (CHR ''B'') (\<lambda>out.
       let out = append_cstring (append_cstring out []) [];
           out = append_u16 out (if explicit_formats then of_nat (length params) else 0);
           out = (if explicit_formats
                  then foldl (\<lambda>out param. append_u16 out (if native_format env ctx profile param then 1 else 0)) out params
                  else out);
           out = append_u16 out (of_nat (length params))
       in bind_result (fold_result (write_value env ctx profile) out params) (\<lambda>out. Inr (append_u16 out 0)))"

definition write_execute :: "bytes \<Rightarrow> bytes result" where
  "write_execute out = with_message out (CHR ''E'') (\<lambda>out. Inr (append_u32 (append_cstring out []) 0))"

definition write_sync :: "bytes \<Rightarrow> bytes result" where
  "write_sync out = with_message out (CHR ''S'') Inr"

text \<open>The \<^verbatim>\<open>try\<close> block of \<^verbatim>\<open>create_prepared_query\<close>.\<close>

definition prepared_exchange ::
  "float_env \<Rightarrow> bool \<Rightarrow> pg_catalog_profile \<Rightarrow> string \<Rightarrow> query_parameter list \<Rightarrow> nat \<Rightarrow> bytes result" where
  "prepared_exchange env ctx profile rewritten_sql params max_wire_bytes =
     (let explicit_formats = list_ex (native_format env ctx profile) params
      in bind_result (count_wire_bytes env ctx profile rewritten_sql params explicit_formats max_wire_bytes) (\<lambda>_.
         bind_result (write_parse [] rewritten_sql (map (\<lambda>param. postgres_type_oid (param_type param) profile) params)) (\<lambda>out.
         bind_result (write_describe out (CHR ''S'')) (\<lambda>out.
         bind_result (write_bind env ctx profile out params explicit_formats) (\<lambda>out.
         bind_result (write_describe out (CHR ''P'')) (\<lambda>out.
         bind_result (write_execute out) write_sync))))))"

definition needs_context :: "pg_catalog_profile \<Rightarrow> query_parameter list \<Rightarrow> bool" where
  "needs_context profile params \<longleftrightarrow>
     profile = Redshift \<and>
     list_ex (\<lambda>param. \<not> binary_input param \<and> param_value param \<noteq> None \<and>
        (param_type param = Float32 \<or> param_type param = Float64)) params"

text \<open>Restoring the floating-point environment is checked on every exit of the block.\<close>

definition create_prepared_query ::
  "float_env \<Rightarrow> pg_catalog_profile \<Rightarrow> string \<Rightarrow> query_parameter list \<Rightarrow> nat \<Rightarrow> bytes result" where
  "create_prepared_query env profile sql params max_wire_bytes =
     bind_result (reject_sql_nul sql) (\<lambda>_.
       if 2 ^ 16 - 1 < length params then Inl (Length_error ''too many PostgreSQL query parameters'')
       else
         let (rewritten_sql, markers) = replace_parameter_markers sql
         in if markers \<noteq> 0 \<and> markers \<noteq> length params
            then Inl (Invalid_argument ''parameter marker count does not match bound parameter count'')
            else
              let ctx = needs_context profile params
              in if ctx \<and> \<not> restored env
                 then Inl (Runtime_error ''Native IEEE conversion could not restore caller floating environment'')
                 else prepared_exchange env ctx profile rewritten_sql params max_wire_bytes)"

definition create_statement_description ::
  "pg_catalog_profile \<Rightarrow> string \<Rightarrow> query_parameter_type list \<Rightarrow> nat \<Rightarrow> bytes result" where
  "create_statement_description profile sql parameter_types max_wire_bytes =
     bind_result (reject_sql_nul sql) (\<lambda>_.
       if 2 ^ 16 - 1 < length parameter_types then Inl (Length_error ''too many PostgreSQL query parameters'')
       else
         let (rewritten_sql, markers) = replace_parameter_markers sql;
             overhead = 21 + 4 * length parameter_types
         in if markers \<noteq> length parameter_types
            then Inl (Invalid_argument ''parameter marker count does not match described parameter count'')
            else if max_wire_bytes < overhead \<or> max_wire_bytes - overhead < length rewritten_sql
            then Inl Request_wire_limit_exceeded
            else
              bind_result (write_parse [] rewritten_sql (map (\<lambda>t. postgres_type_oid t profile) parameter_types)) (\<lambda>out.
              bind_result (write_describe out (CHR ''S'')) write_sync))"

definition parameter_marker_count :: "string \<Rightarrow> nat" where
  "parameter_marker_count sql = snd (replace_parameter_markers sql)"

subsection \<open>The bytes of a request\<close>

text \<open>What travels for a parameter: nothing for NULL, otherwise its bytes in the chosen format.\<close>

definition wire_payload :: "float_env \<Rightarrow> bool \<Rightarrow> pg_catalog_profile \<Rightarrow> query_parameter \<Rightarrow> bytes option" where
  "wire_payload env ctx profile param =
     (case param_value param of
        None \<Rightarrow> None
      | Some v \<Rightarrow>
          (case native_ieee_parameter env ctx profile param of
             Some native \<Rightarrow> Some native
           | None \<Rightarrow> Some (if text_binary profile param then CHR 0x5C # CHR ''x'' # encode_hex_bytes v else v)))"

definition encoded_value :: "bytes option \<Rightarrow> bytes" where
  "encoded_value p = (case p of None \<Rightarrow> be32 0xffffffff | Some b \<Rightarrow> be32 (of_nat (length b)) @ b)"

definition fits :: "float_env \<Rightarrow> bool \<Rightarrow> pg_catalog_profile \<Rightarrow> query_parameter \<Rightarrow> bool" where
  "fits env ctx profile param \<longleftrightarrow>
     (case param_value param of
        None \<Rightarrow> True
      | Some v \<Rightarrow> native_ieee_parameter env ctx profile param \<noteq> None \<or> length v \<le> value_limit (text_binary profile param))"

definition parse_body :: "string \<Rightarrow> 32 word list \<Rightarrow> bytes" where
  "parse_body sql oids = cstring [] @ cstring sql @ be16 (of_nat (length oids)) @ concat (map be32 oids)"

definition format_codes :: "float_env \<Rightarrow> bool \<Rightarrow> pg_catalog_profile \<Rightarrow> query_parameter list \<Rightarrow> 16 word list" where
  "format_codes env ctx profile params =
     (if list_ex (native_format env ctx profile) params
      then map (\<lambda>param. if native_format env ctx profile param then 1 else 0) params else [])"

definition bind_body :: "16 word list \<Rightarrow> bytes option list \<Rightarrow> bytes" where
  "bind_body formats payloads =
     cstring [] @ cstring [] @ be16 (of_nat (length formats)) @ concat (map be16 formats) @
     be16 (of_nat (length payloads)) @ concat (map encoded_value payloads) @ be16 0"

definition prepared_bytes :: "float_env \<Rightarrow> bool \<Rightarrow> pg_catalog_profile \<Rightarrow> string \<Rightarrow> query_parameter list \<Rightarrow> bytes" where
  "prepared_bytes env ctx profile sql params =
     frame (CHR ''P'') (parse_body sql (map (\<lambda>param. postgres_type_oid (param_type param) profile) params)) @
     frame (CHR ''D'') (CHR ''S'' # cstring []) @
     frame (CHR ''B'') (bind_body (format_codes env ctx profile params) (map (wire_payload env ctx profile) params)) @
     frame (CHR ''D'') (CHR ''P'' # cstring []) @ frame (CHR ''E'') (cstring [] @ be32 0) @ frame (CHR ''S'') []"

lemma append_u16_back [simp]:
  "append_u16 (a @ b) v = (a @ b) @ be16 v" "append_u16 (c # b) v = (c # b) @ be16 v"
  by (simp_all add: append_u16_def)

lemma with_message_frame:
  "(\<And>o'. body o' = Inr (o' @ b)) \<Longrightarrow> with_message o1 tag body =
    (if 4 + length b < 2 ^ 32 then Inr (o1 @ frame tag b) else Inl (Length_error ''PostgreSQL message is too large''))"
  by (simp only: with_message_def begin_message_def Let_def prod.case bind_result_Inr finish_frame)

lemma foldl_append_u32: "foldl append_u32 o1 vs = o1 @ concat (map be32 vs)"
  by (induction vs arbitrary: o1) (simp_all add: append_u32_def)

lemma foldl_append_u16: "foldl (\<lambda>o1 x. append_u16 o1 (f x)) o1 xs = o1 @ concat (map be16 (map f xs))"
  by (induction xs arbitrary: o1) (simp_all add: append_u16_def)

lemma write_parse_eq:
  "write_parse o1 sql oids =
    (if 4 + length (parse_body sql oids) < 2 ^ 32 then Inr (o1 @ frame (CHR ''P'') (parse_body sql oids))
     else Inl (Length_error ''PostgreSQL message is too large''))"
  unfolding write_parse_def
  by (rule with_message_frame) (simp add: parse_body_def append_cstring_def foldl_append_u32 append_u16_def Let_def)

lemma write_describe_eq: "write_describe o1 k = Inr (o1 @ frame (CHR ''D'') (k # cstring []))"
  unfolding write_describe_def
  by (subst with_message_frame [where b = "k # cstring []"]) (simp_all add: append_cstring_def)

lemma write_execute_eq: "write_execute o1 = Inr (o1 @ frame (CHR ''E'') (cstring [] @ be32 0))"
  unfolding write_execute_def
  by (subst with_message_frame [where b = "cstring [] @ be32 0"]) (simp_all add: append_cstring_def append_u32_def)

lemma write_sync_eq: "write_sync o1 = Inr (o1 @ frame (CHR ''S'') [])"
  unfolding write_sync_def by (subst with_message_frame [where b = "[]"]) simp_all

lemma value_limit_hex: "length v \<le> value_limit True \<Longrightarrow> encode_hex v = Inr (encode_hex_bytes v)"
  by (simp add: encode_hex_def value_limit_def max_string_size_def)

lemma write_value_eq:
  "write_value env ctx profile o1 param =
    (if fits env ctx profile param then Inr (o1 @ encoded_value (wire_payload env ctx profile param))
     else Inl (Length_error ''PostgreSQL parameter value is too large''))"
  by (cases "param_value param"; cases "native_ieee_parameter env ctx profile param"; cases "text_binary profile param")
    (auto simp: write_value_def fits_def wire_payload_def encoded_value_def append_u32_def Let_def value_limit_hex)

lemma fold_write_value:
  "fold_result (write_value env ctx profile) o1 params =
    (if list_all (fits env ctx profile) params
     then Inr (o1 @ concat (map encoded_value (map (wire_payload env ctx profile) params)))
     else Inl (Length_error ''PostgreSQL parameter value is too large''))"
  by (induction params arbitrary: o1) (auto simp: write_value_eq)

lemma write_bind_eq:
  fixes env :: float_env and ctx :: bool and profile :: pg_catalog_profile and params :: "query_parameter list"
  defines "body \<equiv> bind_body (format_codes env ctx profile params) (map (wire_payload env ctx profile) params)"
  assumes "list_all (fits env ctx profile) params"
  shows "write_bind env ctx profile o1 params (list_ex (native_format env ctx profile) params) =
    (if 4 + length body < 2 ^ 32 then Inr (o1 @ frame (CHR ''B'') body)
     else Inl (Length_error ''PostgreSQL message is too large''))"
  unfolding write_bind_def
  by (rule with_message_frame)
    (use assms(2) in \<open>simp add: body_def bind_body_def format_codes_def append_cstring_def foldl_append_u16
        fold_write_value Let_def\<close>)

subsection \<open>The count is the length\<close>

definition payload_size :: "bytes option \<Rightarrow> nat" where
  "payload_size p = (case p of None \<Rightarrow> 0 | Some b \<Rightarrow> length b)"

lemma fold_add_wire:
  "w \<le> m \<Longrightarrow> fold_result (add_wire m) w ns = (if w + sum_list ns \<le> m then Inr (w + sum_list ns) else Inl Request_wire_limit_exceeded)"
proof (induction ns arbitrary: w)
  case (Cons n ns)
  then show ?case by (cases "w + n \<le> m") (auto simp: add_wire_def)
qed simp

lemma count_parameter_eq:
  "w \<le> m \<Longrightarrow> count_parameter env ctx profile m w param =
    (if fits env ctx profile param then add_wire m w (payload_size (wire_payload env ctx profile param))
     else Inl (Length_error ''PostgreSQL parameter value is too large''))"
  by (cases "param_value param"; cases "native_ieee_parameter env ctx profile param"; cases "text_binary profile param")
    (auto simp: count_parameter_def fits_def wire_payload_def payload_size_def Let_def add_wire_def)

lemma fold_count_parameter:
  "w \<le> m \<Longrightarrow> fold_result (count_parameter env ctx profile m) w params = Inr w' \<longleftrightarrow>
    list_all (fits env ctx profile) params \<and> w' \<le> m \<and>
    w' = w + sum_list (map (\<lambda>param. payload_size (wire_payload env ctx profile param)) params)"
proof (induction params arbitrary: w)
  case (Cons param params)
  let ?n = "payload_size (wire_payload env ctx profile param)"
  show ?case
  proof (cases "fits env ctx profile param \<and> w + ?n \<le> m")
    case True
    then have "count_parameter env ctx profile m w param = Inr (w + ?n)"
      using Cons.prems by (auto simp: count_parameter_eq add_wire_def)
    then show ?thesis using Cons.IH [of "w + ?n"] True by auto
  next
    case False
    then show ?thesis using Cons.prems by (auto simp: count_parameter_eq add_wire_def)
  qed
qed auto

lemma length_concat_be [wire_simps]:
  "length (concat (map be32 vs)) = 4 * length vs" "length (concat (map be16 ws)) = 2 * length ws"
  by (induction vs, simp_all) (induction ws, simp_all)

lemma length_encoded_values [wire_simps]:
  "length (concat (map encoded_value ps)) = 4 * length ps + sum_list (map payload_size ps)"
  by (induction ps) (simp_all add: encoded_value_def payload_size_def split: option.split)

lemma length_prepared_bytes:
  "length (prepared_bytes env ctx profile sql params) =
    51 + length sql + 8 * length params + (if list_ex (native_format env ctx profile) params then 2 * length params else 0) +
    sum_list (map (\<lambda>param. payload_size (wire_payload env ctx profile param)) params)"
proof -
  have "length (prepared_bytes env ctx profile sql params) =
      51 + length sql + 8 * length params + (if list_ex (native_format env ctx profile) params then 2 * length params else 0) +
      sum_list (map payload_size (map (wire_payload env ctx profile) params))"
    by (simp add: prepared_bytes_def parse_body_def bind_body_def format_codes_def wire_simps del: map_map)
  then show ?thesis by (simp add: comp_def)
qed

lemma count_wire_bytes_eq:
  "count_wire_bytes env ctx profile sql params (list_ex (native_format env ctx profile) params) m = Inr w \<longleftrightarrow>
    list_all (fits env ctx profile) params \<and> w = length (prepared_bytes env ctx profile sql params) \<and> w \<le> m"
proof -
  let ?ns = "[51, length sql, 8 * length params] @ (if list_ex (native_format env ctx profile) params then [2 * length params] else [])"
  show ?thesis
  proof (cases "sum_list ?ns \<le> m")
    case True
    then show ?thesis
      unfolding count_wire_bytes_def
      by (subst fold_add_wire) (auto simp: fold_count_parameter length_prepared_bytes)
  next
    case False
    then have "count_wire_bytes env ctx profile sql params (list_ex (native_format env ctx profile) params) m =
        Inl Request_wire_limit_exceeded"
      unfolding count_wire_bytes_def by (subst fold_add_wire) (simp_all only: if_False bind_result_Inl add_0 le0)
    moreover have "m < length (prepared_bytes env ctx profile sql params)"
      using False by (auto simp: length_prepared_bytes split: if_splits)
    ultimately show ?thesis by auto
  qed
qed

lemma prepared_exchange_eq:
  "prepared_exchange env ctx profile sql params m = Inr bytes \<longleftrightarrow>
    list_all (fits env ctx profile) params \<and> bytes = prepared_bytes env ctx profile sql params \<and> length bytes \<le> m \<and>
    4 + length (parse_body sql (map (\<lambda>param. postgres_type_oid (param_type param) profile) params)) < 2 ^ 32 \<and>
    4 + length (bind_body (format_codes env ctx profile params) (map (wire_payload env ctx profile) params)) < 2 ^ 32"
  unfolding prepared_exchange_def Let_def
  by (auto simp: count_wire_bytes_eq write_parse_eq write_describe_eq write_bind_eq write_execute_eq write_sync_eq
      prepared_bytes_def split: if_splits simp del: power_numeral power_Suc)

lemma reject_sql_nul_eq: "reject_sql_nul sql = Inr u \<longleftrightarrow> NUL_byte \<notin> set sql"
proof -
  have "find_from (\<lambda>c. c = NUL_byte) sql 0 = None \<longleftrightarrow> NUL_byte \<notin> set sql"
    using find_from_None [of "\<lambda>c. c = NUL_byte" sql 0] find_from_holds [of "\<lambda>c. c = NUL_byte" sql 0]
      find_from_bounds [of "\<lambda>c. c = NUL_byte" sql 0]
    by (metis in_set_conv_nth le0 not_None_eq nth_mem)
  then show ?thesis by (simp add: reject_sql_nul_def)
qed

text \<open>
  C11: the extended query exchange, byte by byte. The builder succeeds exactly if the text has no zero byte,
  the parameters are at most 65535 and match the markers, the floating-point environment is restored
  where it was used, every value and message is within its size limit and the whole request is at most
  \<open>max_wire_bytes\<close> long; and then the request is Parse, Describe, Bind, Describe, Execute, Sync with the
  rewritten text, one type identifier and one length-prefixed value per parameter. So the count made
  beforehand is the exact length, and no value is ever part of the SQL text.
\<close>

theorem create_prepared_query_exact:
  "create_prepared_query env profile sql params max_wire_bytes = Inr bytes \<longleftrightarrow>
    NUL_byte \<notin> set sql \<and> length params \<le> 65535 \<and>
    (parameter_marker_count sql = 0 \<or> parameter_marker_count sql = length params) \<and>
    (needs_context profile params \<longrightarrow> restored env) \<and>
    (let ctx = needs_context profile params;
         text = fst (replace_parameter_markers sql);
         oids = map (\<lambda>param. postgres_type_oid (param_type param) profile) params;
         values = map (wire_payload env ctx profile) params
     in list_all (fits env ctx profile) params \<and>
        4 + length (parse_body text oids) < 2 ^ 32 \<and>
        4 + length (bind_body (format_codes env ctx profile params) values) < 2 ^ 32 \<and>
        bytes = prepared_bytes env ctx profile text params \<and> length bytes \<le> max_wire_bytes)"
  unfolding create_prepared_query_def parameter_marker_count_def Let_def
  by (cases "replace_parameter_markers sql") (auto simp: reject_sql_nul_eq prepared_exchange_eq)

theorem create_prepared_query_exact_witness:
  "let env = \<lparr>ready = True, restored = True,
               strto = (\<lambda>_ _. \<lparr>consumed = 0, bits = 0, is_finite = True, is_zero = True, conversion_errno = Errno_zero\<rparr>)\<rparr>;
       params = [\<lparr>param_value = Some ''7'', param_type = Int32, binary_input = False\<rparr>]
   in create_prepared_query env PostgreSQL ''?'' params 100 = Inr (prepared_bytes env False PostgreSQL ''$1'' params)"
proof -
  have "replace_parameter_markers ''?'' = (''$1'', 1)" by code_simp
  then show ?thesis
    unfolding Let_def create_prepared_query_exact
    by (simp add: parameter_marker_count_def needs_context_def fits_def native_ieee_parameter_def value_limit_def
        text_binary_def raw_binary_def parse_body_def bind_body_def format_codes_def native_format_def wire_payload_def
        encoded_value_def prepared_bytes_def)
qed

text \<open>The startup message carries its length, counted beforehand.\<close>

lemma fold_add_bytes:
  "w \<le> m \<Longrightarrow> fold_result (add_bytes m) w ns = (if w + sum_list ns \<le> m then Inr (w + sum_list ns) else Inl Request_wire_limit_exceeded)"
proof (induction ns arbitrary: w)
  case (Cons n ns)
  then show ?case by (cases "w + n \<le> m") (auto simp: add_bytes_def)
qed simp

lemma startup_sizes_sum:
  "9 + sum_list (startup_sizes profile user database params) =
    length (be32 0 @ be32 196608 @ concat (map (\<lambda>(key, v). cstring key @ cstring v)
      ((if user \<noteq> [] then [(''user'', user)] else []) @ [(''database'', database)] @ params @
       (if profile = Redshift \<and> ''extra_float_digits'' \<notin> fst ` set params then [(''extra_float_digits'', ''2'')] else []))) @
      [NUL_byte])"
proof -
  have "sum_list (concat (map (\<lambda>(key, v). [length key, 1, length v, 1]) params)) =
      length (concat (map (\<lambda>(key, v). cstring key @ cstring v) params))"
    by (induction params) auto
  then show ?thesis by (auto simp: startup_sizes_def)
qed

lemma read_u32_front: "read_u32 (be32 v @ rest) 0 = Inr v"
  using u32.read_put [of "[]" v rest] by (simp add: u32_at_def)

text \<open>
  C31: a startup message that is built is exactly as long as counted, at most \<open>max_wire_bytes\<close>, announces its own
  length in its first four bytes, and has no zero byte inside any of its fields.
\<close>

theorem create_startup_message_length:
  assumes "create_startup_message profile user database params max_wire_bytes = Inr bytes"
  shows "length bytes = 9 + sum_list (startup_sizes profile user database params) \<and> length bytes \<le> max_wire_bytes \<and>
    read_u32 bytes 0 = Inr (of_nat (length bytes)) \<and> length bytes < 2 ^ 32 \<and>
    (\<forall>(key, v) \<in> set params. NUL_byte \<notin> set key \<and> NUL_byte \<notin> set v)"
proof -
  let ?n = "9 + sum_list (startup_sizes profile user database params)"
  let ?rest = "be32 196608 @ concat (map (\<lambda>(key, v). cstring key @ cstring v)
      ((if user \<noteq> [] then [(''user'', user)] else []) @ [(''database'', database)] @ params @
       (if profile = Redshift \<and> ''extra_float_digits'' \<notin> fst ` set params then [(''extra_float_digits'', ''2'')] else []))) @
      [NUL_byte]"
  have "9 \<le> max_wire_bytes"
    using assms by (cases "user = []") (auto simp: create_startup_message_def startup_sizes_def add_bytes_def split: if_splits)
  then have b: "?n \<le> max_wire_bytes" "?n < 2 ^ 32" "bytes = be32 (of_nat ?n) @ ?rest"
    and nul: "\<forall>(key, v) \<in> set params. NUL_byte \<notin> set key \<and> NUL_byte \<notin> set v"
    using assms by (auto simp: create_startup_message_def fold_add_bytes Let_def list_ex_iff split: if_splits)
  then have len: "length bytes = ?n" unfolding startup_sizes_sum by simp
  have "read_u32 bytes 0 = Inr (of_nat ?n)" unfolding b(3) by (rule read_u32_front)
  with b nul len show ?thesis by simp
qed

theorem create_startup_message_length_witness:
  "\<exists>bytes. create_startup_message PostgreSQL ''u'' ''d'' [] 100 = Inr bytes \<and> length bytes = 27 \<and>
     read_u32 bytes 0 = Inr 27"
proof -
  obtain bytes where b: "create_startup_message PostgreSQL ''u'' ''d'' [] 100 = Inr bytes"
    by (simp add: create_startup_message_def startup_sizes_def add_bytes_def)
  from create_startup_message_length [OF b] show ?thesis
    using b by (simp add: startup_sizes_def)
qed

text \<open>
  C32: the other requests for SQL text. A simple query is one frame holding the text; a statement description
  is Parse, Describe, Sync with one type identifier per marker. Each is built exactly if the text has no zero
  byte and the request is within its limits, and then within \<open>max_wire_bytes\<close>.
\<close>

theorem text_requests_exact:
  "(create_simple_query sql max_wire_bytes = Inr bytes \<longleftrightarrow>
      NUL_byte \<notin> set sql \<and> length sql + 5 < 2 ^ 32 \<and> bytes = frame (CHR ''Q'') (cstring sql) \<and> length bytes \<le> max_wire_bytes) \<and>
   (create_statement_description profile sql types max_wire_bytes = Inr bytes \<longleftrightarrow>
      NUL_byte \<notin> set sql \<and> length types \<le> 65535 \<and> parameter_marker_count sql = length types \<and>
      (let body = parse_body (fst (replace_parameter_markers sql)) (map (\<lambda>t. postgres_type_oid t profile) types)
       in 4 + length body < 2 ^ 32 \<and>
          bytes = frame (CHR ''P'') body @ frame (CHR ''D'') (CHR ''S'' # cstring []) @ frame (CHR ''S'') [] \<and>
          length bytes \<le> max_wire_bytes))"
proof
  show "create_simple_query sql max_wire_bytes = Inr bytes \<longleftrightarrow>
      NUL_byte \<notin> set sql \<and> length sql + 5 < 2 ^ 32 \<and> bytes = frame (CHR ''Q'') (cstring sql) \<and> length bytes \<le> max_wire_bytes"
    by (auto simp: create_simple_query_def frame_def reject_sql_nul_eq add.commute)
  show "create_statement_description profile sql types max_wire_bytes = Inr bytes \<longleftrightarrow>
      NUL_byte \<notin> set sql \<and> length types \<le> 65535 \<and> parameter_marker_count sql = length types \<and>
      (let body = parse_body (fst (replace_parameter_markers sql)) (map (\<lambda>t. postgres_type_oid t profile) types)
       in 4 + length body < 2 ^ 32 \<and>
          bytes = frame (CHR ''P'') body @ frame (CHR ''D'') (CHR ''S'' # cstring []) @ frame (CHR ''S'') [] \<and>
          length bytes \<le> max_wire_bytes)"
  proof (cases "replace_parameter_markers sql")
    case (Pair rewritten n)
    have len: "length (frame (CHR ''P'') (parse_body rewritten (map (\<lambda>t. postgres_type_oid t profile) types)) @
        frame (CHR ''D'') (CHR ''S'' # cstring []) @ frame (CHR ''S'') []) = 21 + 4 * length types + length rewritten"
      by (simp add: parse_body_def wire_simps del: map_map)
    show ?thesis
      using len unfolding create_statement_description_def parameter_marker_count_def Pair Let_def
      by (auto simp: reject_sql_nul_eq write_parse_eq write_describe_eq write_sync_eq split: if_splits)
  qed
qed

end
