(* ===== verification/PgMessages.thy ===== *)
theory PgMessages
  imports PgQuery Utf8
begin

section \<open>Messages from the server\<close>

text \<open>
  The readers of \<^verbatim>\<open>core/database/postgres/pg_protocol_parser.cpp\<close> for server messages, and
  \<^verbatim>\<open>core/database/postgres/pg_command.cpp\<close>. The list-valued messages (DataRow, RowDescription,
  ParameterDescription) are counted loops over a cursor reader; each accepts exactly the encodings of
  its lists.
\<close>

record pg_message =
  tag :: char
  body :: bytes

subsection \<open>Data rows\<close>

text \<open>One turn of the loop of \<^verbatim>\<open>parse_data_row\<close>: the cell and the offset after it.\<close>

definition cell_at :: "bytes \<Rightarrow> nat \<Rightarrow> (string option \<times> nat) result" where
  "cell_at payload offset =
     bind_result (read_u32 payload offset) (\<lambda>len.
       let offset = offset + 4
       in if len = 0xffffffff then Inr (None, offset)
          else if 0x7fffffff < len \<or> length payload - offset < unat len
          then Inl (Runtime_error ''invalid PostgreSQL DataRow column length'')
          else Inr (Some (substr offset (unat len) payload), offset + unat len))"

definition parse_data_row :: "bytes \<Rightarrow> string option list result" where
  "parse_data_row payload =
     bind_result (u16_at payload 0) (\<lambda>(column_count, offset).
     bind_result (read_n cell_at (unat column_count) payload offset) (\<lambda>(row, offset).
       if offset \<noteq> length payload then Inl (Runtime_error ''invalid PostgreSQL DataRow length'') else Inr row))"

subsection \<open>Column and parameter descriptions\<close>

record parsed_column =
  column_name :: string
  type_id :: "32 word"
  type_size :: "16 word"
  type_modifier :: "32 word"
  format_code :: "16 word"
  table_oid :: "32 word"
  column_attribute_number :: "16 word"

definition column_at :: "bytes \<Rightarrow> nat \<Rightarrow> (parsed_column \<times> nat) result" where
  "column_at payload offset =
     bind_result (read_cstring payload offset) (\<lambda>(name, offset).
     bind_result (u32_at payload offset) (\<lambda>(toid, offset).
     bind_result (u16_at payload offset) (\<lambda>(attr, offset).
     bind_result (u32_at payload offset) (\<lambda>(tid, offset).
     bind_result (u16_at payload offset) (\<lambda>(tsize, offset).
     bind_result (u32_at payload offset) (\<lambda>(tmod, offset).
     bind_result (u16_at payload offset) (\<lambda>(fmt, offset).
       if 1 < fmt then Inl (Runtime_error ''invalid PostgreSQL result format code'')
       else Inr (\<lparr>column_name = name, type_id = tid, type_size = tsize, type_modifier = tmod, format_code = fmt,
                  table_oid = toid, column_attribute_number = attr\<rparr>, offset))))))))"

definition parse_row_description :: "bytes \<Rightarrow> parsed_column list result" where
  "parse_row_description payload =
     bind_result (u16_at payload 0) (\<lambda>(count, offset).
     bind_result (read_n column_at (unat count) payload offset) (\<lambda>(columns, offset).
       if offset \<noteq> length payload then Inl (Runtime_error ''invalid PostgreSQL RowDescription length'')
       else Inr columns))"

definition parse_parameter_description :: "bytes \<Rightarrow> 32 word list result" where
  "parse_parameter_description payload =
     bind_result (u16_at payload 0) (\<lambda>(count, offset).
     bind_result (read_n u32_at (unat count) payload offset) (\<lambda>(oids, offset).
       if offset \<noteq> length payload then Inl (Runtime_error ''invalid PostgreSQL ParameterDescription length'')
       else Inr oids))"

subsection \<open>Command tags\<close>

definition command_affected_rows :: "string \<Rightarrow> nat" where
  "command_affected_rows command_tag =
     (let number = (case find_last (\<lambda>c. c = CHR '' '') command_tag of
                      None \<Rightarrow> command_tag | Some separator \<Rightarrow> drop (separator + 1) command_tag)
      in if number = [] \<or> \<not> is_digit (hd number) then 0
         else case from_chars 0 (2 ^ 64 - 1) number of
             (e, Fc_parsed rows) \<Rightarrow> if e = length number then nat rows else 0
           | _ \<Rightarrow> 0)"

datatype statement_kind =
    Unknown | SelectCursor | Insert | UpdateWhere | DeleteWhere | Call | Grant | Revoke | AlterDomain | AlterTable
  | CreateAssertion | CreateCharacterSet | CreateCollation | CreateDomain | CreateIndex | CreateSchema | CreateTable
  | CreateTranslation | CreateView | DropAssertion | DropCharacterSet | DropCollation | DropDomain | DropIndex
  | DropSchema | DropTable | DropTranslation | DropView

definition command_mappings :: "(string \<times> statement_kind) list" where
  "command_mappings =
     [(''SELECT'', SelectCursor), (''INSERT'', Insert), (''UPDATE'', UpdateWhere), (''DELETE'', DeleteWhere),
      (''CALL'', Call), (''GRANT'', Grant), (''REVOKE'', Revoke), (''ALTER DOMAIN'', AlterDomain),
      (''ALTER TABLE'', AlterTable), (''CREATE ASSERTION'', CreateAssertion),
      (''CREATE CHARACTER SET'', CreateCharacterSet), (''CREATE COLLATION'', CreateCollation),
      (''CREATE DOMAIN'', CreateDomain), (''CREATE INDEX'', CreateIndex), (''CREATE UNIQUE INDEX'', CreateIndex),
      (''CREATE SCHEMA'', CreateSchema), (''CREATE TABLE'', CreateTable), (''CREATE TEMP TABLE'', CreateTable),
      (''CREATE TEMPORARY TABLE'', CreateTable), (''CREATE UNLOGGED TABLE'', CreateTable),
      (''CREATE TRANSLATION'', CreateTranslation), (''CREATE VIEW'', CreateView),
      (''DROP ASSERTION'', DropAssertion), (''DROP CHARACTER SET'', DropCharacterSet),
      (''DROP COLLATION'', DropCollation), (''DROP DOMAIN'', DropDomain), (''DROP INDEX'', DropIndex),
      (''DROP SCHEMA'', DropSchema), (''DROP TABLE'', DropTable), (''DROP TRANSLATION'', DropTranslation),
      (''DROP VIEW'', DropView)]"

definition matches_command :: "string \<Rightarrow> string \<Rightarrow> bool" where
  "matches_command normalized prefix \<longleftrightarrow>
     starts_with normalized prefix \<and>
     (length normalized = length prefix \<or> is_space (normalized ! length prefix))"

definition classify_command_tag :: "string \<Rightarrow> statement_kind" where
  "classify_command_tag command_tag =
     (let rest = dropWhile (\<lambda>c. c \<in> {CHR '' '', CHR 0x09, CHR 0x0D, CHR 0x0A}) command_tag
      in if rest = [] then Unknown
         else case find (\<lambda>(prefix, kind). matches_command (map to_upper_char rest) prefix) command_mappings of
             None \<Rightarrow> Unknown | Some (prefix, kind) \<Rightarrow> kind)"

subsection \<open>Errors and notices\<close>

text \<open>The loop of \<^verbatim>\<open>decode_error_fields\<close>; \<open>fs\<close> is the \<^verbatim>\<open>std::map\<close>.\<close>

function error_fields_loop :: "bytes \<Rightarrow> nat \<Rightarrow> (char \<rightharpoonup> string) \<Rightarrow> ((char \<rightharpoonup> string) \<times> nat) result" where
  "error_fields_loop payload offset fs =
     (if offset < length payload \<and> payload ! offset \<noteq> NUL_byte then
        (case find_from (\<lambda>c. c = NUL_byte) payload (offset + 1) of
           None \<Rightarrow> Inl (Runtime_error ''Unterminated PostgreSQL error field'')
         | Some e \<Rightarrow>
             let code = payload ! offset;
                 v = replace_invalid_utf8 (substr (offset + 1) (e - (offset + 1)) payload)
             in if fs code \<noteq> None then Inl (Runtime_error ''Duplicate PostgreSQL error field'')
                else error_fields_loop payload (e + 1) (fs(code \<mapsto> v)))
      else Inr (fs, offset))"
  by pat_completeness auto
termination
  by (relation "measure (\<lambda>(payload, offset, fs). length payload - offset)") (auto dest!: find_from_bounds)

declare error_fields_loop.simps [simp del]

definition sqlstate_char :: "char \<Rightarrow> bool" where
  "sqlstate_char ch \<longleftrightarrow> is_digit ch \<or> is_upper ch"

definition decode_error_fields :: "bytes \<Rightarrow> (char \<rightharpoonup> string) result" where
  "decode_error_fields payload =
     bind_result (error_fields_loop payload 0 Map.empty) (\<lambda>(fs, offset).
       case (fs (CHR ''S''), fs (CHR ''C''), fs (CHR ''M'')) of
         (Some severity, Some sqlstate, Some message) \<Rightarrow>
           if offset + 1 \<noteq> length payload \<or> message = []
           then Inl (Runtime_error ''Invalid PostgreSQL error/notice payload'')
           else if length sqlstate \<noteq> 5 \<or> \<not> list_all sqlstate_char sqlstate
           then Inl (Runtime_error ''Invalid PostgreSQL SQLSTATE'')
           else Inr fs
       | _ \<Rightarrow> Inl (Runtime_error ''Invalid PostgreSQL error/notice payload''))"

definition error_field :: "(char \<rightharpoonup> string) \<Rightarrow> char \<Rightarrow> string" where
  "error_field fs code = (case fs code of None \<Rightarrow> [] | Some v \<Rightarrow> v)"

definition is_terminal_error_response :: "pg_message \<Rightarrow> bool result" where
  "is_terminal_error_response msg =
     (if tag msg \<noteq> CHR ''E'' then Inr False
      else bind_result (decode_error_fields (body msg)) (\<lambda>fs.
        case fs (CHR ''V'') of
          Some severity \<Rightarrow>
            if severity \<noteq> ''ERROR'' \<and> severity \<noteq> ''FATAL'' \<and> severity \<noteq> ''PANIC''
            then Inl (Runtime_error ''Invalid PostgreSQL error severity'')
            else Inr (severity = ''FATAL'' \<or> severity = ''PANIC'')
        | None \<Rightarrow>
            let severity = error_field fs (CHR ''S'')
            in if severity = [] then Inl (Runtime_error ''Empty PostgreSQL error severity'')
               else Inr (severity = ''FATAL'' \<or> severity = ''PANIC'')))"

definition extract_error_message :: "pg_message \<Rightarrow> string result" where
  "extract_error_message msg =
     (if tag msg \<noteq> CHR ''E'' then Inr []
      else bind_result (decode_error_fields (body msg)) (\<lambda>fs. Inr (error_field fs (CHR ''M''))))"

definition extract_error_sqlstate :: "pg_message \<Rightarrow> string result" where
  "extract_error_sqlstate msg =
     (if tag msg \<noteq> CHR ''E'' then Inr []
      else bind_result (decode_error_fields (body msg)) (\<lambda>fs. Inr (error_field fs (CHR ''C''))))"

subsection \<open>Framing\<close>

definition parse_message :: "bytes \<Rightarrow> pg_message result" where
  "parse_message data =
     (if length data < 5 then Inl (Runtime_error ''Message too short'')
      else bind_result (read_u32 data 1) (\<lambda>len.
        let t = data ! 0;
            payload = drop 5 data
        in if len < 4 \<or> length data - 1 \<noteq> unat len then Inl (Runtime_error ''Invalid message length'')
           else if t \<in> {CHR ''1'', CHR ''2'', CHR ''3'', CHR ''n'', CHR ''I'', CHR ''s''} \<and> len \<noteq> 4
           then Inl (Runtime_error ''Invalid PostgreSQL fixed-length response'')
           else if t = CHR ''K'' \<and> length payload \<noteq> 8
           then Inl (Runtime_error ''Invalid PostgreSQL 3.0 BackendKeyData length'')
           else if t = CHR ''N'' then
             bind_result (decode_error_fields payload) (\<lambda>_. Inr \<lparr>tag = t, body = payload\<rparr>)
           else if t = CHR ''A'' then
             if length payload < 6 then Inl (Runtime_error ''truncated PostgreSQL NotificationResponse'')
             else
               bind_result (read_cstring payload 4) (\<lambda>(_, offset).
               bind_result (read_cstring payload offset) (\<lambda>(_, offset).
                 if offset \<noteq> length payload then Inl (Runtime_error ''invalid PostgreSQL NotificationResponse length'')
                 else Inr \<lparr>tag = t, body = payload\<rparr>))
           else Inr \<lparr>tag = t, body = payload\<rparr>))"

definition is_ready_for_query :: "pg_message \<Rightarrow> bool result" where
  "is_ready_for_query msg =
     (if tag msg \<noteq> CHR ''Z'' then Inr False
      else if body msg \<notin> {''I'', ''T'', ''E''} then Inl (Runtime_error ''Invalid PostgreSQL ReadyForQuery payload'')
      else Inr True)"

definition is_error_response :: "pg_message \<Rightarrow> bool" where
  "is_error_response msg \<longleftrightarrow> tag msg = CHR ''E''"

subsection \<open>The readers are exact\<close>

definition wf_cell :: "string option \<Rightarrow> bool" where
  "wf_cell c \<longleftrightarrow> (case c of None \<Rightarrow> True | Some b \<Rightarrow> length b < 2 ^ 31)"

lemma unat_of_nat_32: "n < 2 ^ 32 \<Longrightarrow> unat (of_nat n :: 32 word) = n"
  by (simp add: unat_of_nat)

lemma read_u32_at: "read_u32 (pre @ be32 v @ post) (length pre) = Inr v"
  using u32.read_put [of pre v post] by (simp add: u32_at_def)

lemma read_u32_sound:
  assumes "read_u32 data off = Inr v" "off \<le> length data"
  shows "off + 4 \<le> length data" "take 4 (drop off data) = be32 v"
  using u32.read_sound [of data off v "off + 4"] assms by (auto simp: u32_at_def)

interpretation cell: cursor_reader cell_at encoded_value wf_cell
proof unfold_locales
  show "cell_at (pre @ encoded_value c @ post) (length pre) = Inr (c, length pre + length (encoded_value c))"
    if wf: "wf_cell c" for c pre post
  proof (cases c)
    case None
    then show ?thesis by (simp add: cell_at_def encoded_value_def read_u32_at)
  next
    case (Some b)
    then have len: "unat (of_nat (length b) :: 32 word) = length b" and small: "length b < 2 ^ 31"
      using wf by (simp_all add: wf_cell_def unat_of_nat)
    have "\<not> 0x7fffffff < (of_nat (length b) :: 32 word)" "(of_nat (length b) :: 32 word) \<noteq> 0xffffffff"
      using small len by (auto simp: word_less_nat_alt dest: arg_cong [where f = unat])
    then show ?thesis
      using Some len read_u32_at [of pre "of_nat (length b)" "b @ post"]
      by (simp add: cell_at_def encoded_value_def substr_def Let_def)
  qed
  show "wf_cell c \<and> off' = off + length (encoded_value c) \<and> off' \<le> length data \<and>
      take (length (encoded_value c)) (drop off data) = encoded_value c"
    if r: "cell_at data off = Inr (c, off')" and off: "off \<le> length data" for data off c off'
  proof -
    obtain len where len: "read_u32 data off = Inr len" using r by (auto simp: cell_at_def)
    note b = read_u32_sound [OF len off]
    show ?thesis
    proof (cases c)
      case None
      then have "len = 0xffffffff" "off' = off + 4" using r len by (auto simp: cell_at_def Let_def split: if_splits)
      then show ?thesis using None b by (simp add: wf_cell_def encoded_value_def)
    next
      case (Some v)
      then have v: "v = take (unat len) (drop (off + 4) data)" "off' = off + 4 + unat len"
        and lim: "\<not> 0x7fffffff < len" "unat len \<le> length data - (off + 4)"
        using r len by (auto simp: cell_at_def Let_def substr_def split: if_splits)
      have "unat len \<le> unat (0x7fffffff :: 32 word)" using lim(1) by (simp only: not_less word_le_nat_alt)
      then have small: "unat len < 2 ^ 31" by simp
      have lv: "length v = unat len" using v(1) lim(2) by simp
      then have enc: "encoded_value c = be32 len @ v" using Some by (simp add: encoded_value_def)
      have "take (4 + unat len) (drop off data) = be32 len @ v"
        using take_drop_add [OF b(2) v(1) [symmetric]] .
      then show ?thesis using Some enc lv small v(2) lim(2) b(1) by (simp add: wf_cell_def)
    qed
  qed
qed

definition put_column :: "parsed_column \<Rightarrow> bytes" where
  "put_column c =
     cstring (column_name c) @ be32 (table_oid c) @ be16 (column_attribute_number c) @ be32 (type_id c) @
     be16 (type_size c) @ be32 (type_modifier c) @ be16 (format_code c)"

definition wf_column :: "parsed_column \<Rightarrow> bool" where
  "wf_column c \<longleftrightarrow> NUL_byte \<notin> set (column_name c) \<and> format_code c \<le> 1"

text \<open>After its name a column is three pairs of a 32 bit and a 16 bit number.\<close>

abbreviation u32_u16_at :: "bytes \<Rightarrow> nat \<Rightarrow> ((32 word \<times> 16 word) \<times> nat) result" where
  "u32_u16_at \<equiv> read_pair u32_at u16_at"

abbreviation be32_be16 :: "32 word \<times> 16 word \<Rightarrow> bytes" where
  "be32_be16 \<equiv> put_pair be32 be16"

interpretation numbers: cursor_reader_pair u32_at be32 "\<lambda>_. True" u16_at be16 "\<lambda>_. True" ..

interpretation last_numbers: cursor_reader_pair
  u32_u16_at be32_be16 "pred_prod (\<lambda>_. True) (\<lambda>_. True)" u32_u16_at be32_be16 "pred_prod (\<lambda>_. True) (\<lambda>_. True)" ..

interpretation all_numbers: cursor_reader_pair
  u32_u16_at be32_be16 "pred_prod (\<lambda>_. True) (\<lambda>_. True)"
  "read_pair u32_u16_at u32_u16_at" "put_pair be32_be16 be32_be16"
  "pred_prod (pred_prod (\<lambda>_. True) (\<lambda>_. True)) (pred_prod (\<lambda>_. True) (\<lambda>_. True))" ..

abbreviation numbers_wf :: "(32 word \<times> 16 word) \<times> (32 word \<times> 16 word) \<times> (32 word \<times> 16 word) \<Rightarrow> bool" where
  "numbers_wf \<equiv> pred_prod (pred_prod (\<lambda>_. True) (\<lambda>_. True))
     (pred_prod (pred_prod (\<lambda>_. True) (\<lambda>_. True)) (pred_prod (\<lambda>_. True) (\<lambda>_. True)))"

interpretation column_fields: cursor_reader_pair
  read_cstring cstring "\<lambda>s. NUL_byte \<notin> set s"
  "read_pair u32_u16_at (read_pair u32_u16_at u32_u16_at)" "put_pair be32_be16 (put_pair be32_be16 be32_be16)" numbers_wf ..

definition column_of :: "string \<times> (32 word \<times> 16 word) \<times> (32 word \<times> 16 word) \<times> (32 word \<times> 16 word) \<Rightarrow> parsed_column" where
  "column_of = (\<lambda>(name, (toid, attr), (tid, tsize), (tmod, fmt)).
     \<lparr>column_name = name, type_id = tid, type_size = tsize, type_modifier = tmod, format_code = fmt,
      table_oid = toid, column_attribute_number = attr\<rparr>)"

definition of_column :: "parsed_column \<Rightarrow> string \<times> (32 word \<times> 16 word) \<times> (32 word \<times> 16 word) \<times> (32 word \<times> 16 word)" where
  "of_column c = (column_name c, (table_oid c, column_attribute_number c), (type_id c, type_size c), (type_modifier c, format_code c))"

lemma column_of_inverse [simp]: "column_of (of_column c) = c" "of_column (column_of t) = t"
  by (simp_all add: column_of_def of_column_def split: prod.split)

lemma column_at_fields:
  "column_at payload offset =
     bind_result (read_pair read_cstring (read_pair u32_u16_at (read_pair u32_u16_at u32_u16_at)) payload offset)
       (\<lambda>(t, offset). if 1 < format_code (column_of t)
                      then Inl (Runtime_error ''invalid PostgreSQL result format code'')
                      else Inr (column_of t, offset))"
  by (simp add: column_at_def read_pair_def bind_result_assoc case_prod_unfold column_of_def cong: if_cong)

lemma put_column_fields:
  "put_column c = put_pair cstring (put_pair be32_be16 (put_pair be32_be16 be32_be16)) (of_column c)"
  by (simp add: put_column_def put_pair_def of_column_def)

lemma wf_column_fields:
  "wf_column c \<longleftrightarrow> pred_prod (\<lambda>s. NUL_byte \<notin> set s) numbers_wf (of_column c) \<and> \<not> 1 < format_code c"
  by (auto simp: wf_column_def of_column_def)

interpretation column: cursor_reader column_at put_column wf_column
proof unfold_locales
  show "column_at (pre @ put_column c @ post) (length pre) = Inr (c, length pre + length (put_column c))"
    if "wf_column c" for c pre post
    using that column_fields.pair.read_put [of "of_column c" pre post]
    by (simp add: column_at_fields wf_column_fields put_column_fields)
  show "wf_column c \<and> off' = off + length (put_column c) \<and> off' \<le> length data \<and>
      take (length (put_column c)) (drop off data) = put_column c"
    if r: "column_at data off = Inr (c, off')" and off: "off \<le> length data" for data off c off'
  proof -
    obtain t where t: "read_pair read_cstring (read_pair u32_u16_at (read_pair u32_u16_at u32_u16_at)) data off = Inr (t, off')"
      and c: "c = column_of t" "\<not> 1 < format_code c"
      using r by (auto simp: column_at_fields split: if_splits)
    from column_fields.pair.read_sound [OF t off] c show ?thesis
      by (simp add: wf_column_fields put_column_fields)
  qed
qed

text \<open>A message that is a 16 bit count and that many items is decoded exactly when nothing is left over.\<close>

definition read_counted :: "error \<Rightarrow> (bytes \<Rightarrow> nat \<Rightarrow> ('a \<times> nat) result) \<Rightarrow> bytes \<Rightarrow> 'a list result" where
  "read_counted e rd payload =
     bind_result (u16_at payload 0) (\<lambda>(count, offset).
     bind_result (read_n rd (unat count) payload offset) (\<lambda>(xs, offset).
       if offset \<noteq> length payload then Inl e else Inr xs))"

definition counted :: "('a \<Rightarrow> bytes) \<Rightarrow> 'a list \<Rightarrow> bytes" where
  "counted put xs = be16 (of_nat (length xs)) @ concat (map put xs)"

context cursor_reader
begin

lemma read_counted_exact:
  "read_counted e rd payload = Inr xs \<longleftrightarrow> length xs < 2 ^ 16 \<and> (\<forall>x \<in> set xs. wf x) \<and> payload = counted put xs"
proof
  assume "read_counted e rd payload = Inr xs"
  then obtain c off where c: "u16_at payload 0 = Inr (c, off)" and r: "read_n rd (unat c) payload off = Inr (xs, length payload)"
    by (auto simp: read_counted_def split: if_splits)
  from u16.read_sound [OF c] have off: "off = 2" "off \<le> length payload" "take 2 payload = be16 c" by (auto simp: numeral_2_eq_2)
  from read_n_sound [OF r off(2)] off(1)
  have xs: "length xs = unat c" "\<forall>x \<in> set xs. wf x" "length payload = 2 + length (concat (map put xs))"
    "take (length (concat (map put xs))) (drop 2 payload) = concat (map put xs)" by auto
  have "unat c < 2 ^ 16" using unsigned_less [where w = c] by simp
  moreover have "payload = be16 c @ concat (map put xs)"
    using append_take_drop_id [of 2 payload] off(3) xs(3,4) by simp
  ultimately show "length xs < 2 ^ 16 \<and> (\<forall>x \<in> set xs. wf x) \<and> payload = counted put xs"
    using xs(1,2) by (simp add: counted_def)
next
  assume a: "length xs < 2 ^ 16 \<and> (\<forall>x \<in> set xs. wf x) \<and> payload = counted put xs"
  then have len: "unat (of_nat (length xs) :: 16 word) = length xs" by (simp add: unat_of_nat)
  show "read_counted e rd payload = Inr xs"
    using a len u16.read_put [of "[]" "of_nat (length xs)" "concat (map put xs)"]
      read_n_put [of xs "be16 (of_nat (length xs))" "[]"]
    by (simp add: read_counted_def counted_def)
qed

end

lemma parse_counted:
  "parse_data_row = read_counted (Runtime_error ''invalid PostgreSQL DataRow length'') cell_at"
  "parse_row_description = read_counted (Runtime_error ''invalid PostgreSQL RowDescription length'') column_at"
  "parse_parameter_description = read_counted (Runtime_error ''invalid PostgreSQL ParameterDescription length'') u32_at"
  by (rule ext, simp add: read_counted_def parse_data_row_def parse_row_description_def parse_parameter_description_def)+

lemma parse_data_row_iff:
  "parse_data_row payload = Inr row \<longleftrightarrow>
     length row < 2 ^ 16 \<and> list_all wf_cell row \<and> payload = counted encoded_value row"
  unfolding parse_counted list_all_iff by (rule cell.read_counted_exact)

lemma parse_row_description_iff:
  "parse_row_description payload = Inr columns \<longleftrightarrow>
     length columns < 2 ^ 16 \<and> list_all wf_column columns \<and> payload = counted put_column columns"
  unfolding parse_counted list_all_iff by (rule column.read_counted_exact)

lemma parse_parameter_description_iff:
  "parse_parameter_description payload = Inr oids \<longleftrightarrow> length oids < 2 ^ 16 \<and> payload = counted be32 oids"
  unfolding parse_counted using u32.read_counted_exact by simp

text \<open>
  C17: DataRow, RowDescription and ParameterDescription payloads are accepted exactly when they are the
  encoding of a list of at most 65535 items, and the decoder returns that list: cells shorter than
  \<open>2 ^ 31\<close> bytes or NULL, columns with a NUL-free name and a format code of 0 or 1, and type OIDs. In
  particular truncated payloads, trailing bytes and oversized lengths are all refused.
\<close>

theorem list_messages_exact:
  "(parse_data_row payload = Inr row \<longleftrightarrow>
      length row < 2 ^ 16 \<and> list_all wf_cell row \<and> payload = counted encoded_value row) \<and>
   (parse_row_description payload = Inr columns \<longleftrightarrow>
      length columns < 2 ^ 16 \<and> list_all wf_column columns \<and> payload = counted put_column columns) \<and>
   (parse_parameter_description payload = Inr oids \<longleftrightarrow> length oids < 2 ^ 16 \<and> payload = counted be32 oids)"
  by (intro conjI parse_data_row_iff parse_row_description_iff parse_parameter_description_iff)

subsection \<open>Errors and frames are decoded exactly\<close>

definition put_field :: "char \<times> string \<Rightarrow> bytes" where
  "put_field = (\<lambda>(code, t). code # cstring t)"

definition wf_field :: "char \<times> string \<Rightarrow> bool" where
  "wf_field = (\<lambda>(code, t). code \<noteq> NUL_byte \<and> NUL_byte \<notin> set t)"

definition repaired_fields :: "(char \<times> string) list \<Rightarrow> (char \<rightharpoonup> string)" where
  "repaired_fields fs = map_of (map (\<lambda>(code, t). (code, replace_invalid_utf8 t)) fs)"

lemma repaired_fields_simps:
  "repaired_fields [] = Map.empty"
  "repaired_fields ((code, t) # fs) = (repaired_fields fs)(code \<mapsto> replace_invalid_utf8 t)"
  by (simp_all add: repaired_fields_def)

lemma dom_repaired_fields [simp]: "dom (repaired_fields fs) = fst ` set fs"
  by (simp add: repaired_fields_def dom_map_of_conv_image_fst image_image case_prod_unfold)

lemma repaired_fields_Cons:
  assumes "code \<notin> fst ` set fs"
  shows "m ++ repaired_fields ((code, t) # fs) = m(code \<mapsto> replace_invalid_utf8 t) ++ repaired_fields fs"
proof (rule ext)
  fix x
  have "repaired_fields fs code = None" using assms dom_repaired_fields [of fs] by blast
  then show "(m ++ repaired_fields ((code, t) # fs)) x = (m(code \<mapsto> replace_invalid_utf8 t) ++ repaired_fields fs) x"
    by (auto simp: repaired_fields_simps map_add_def split: option.split)
qed

lemma error_fields_loop_cstring:
  "error_fields_loop payload offset fs =
     (if offset < length payload \<and> payload ! offset \<noteq> NUL_byte then
        (case read_cstring payload (offset + 1) of
           Inl _ \<Rightarrow> Inl (Runtime_error ''Unterminated PostgreSQL error field'')
         | Inr (t, offset') \<Rightarrow>
             if fs (payload ! offset) \<noteq> None then Inl (Runtime_error ''Duplicate PostgreSQL error field'')
             else error_fields_loop payload offset' (fs(payload ! offset \<mapsto> replace_invalid_utf8 t)))
      else Inr (fs, offset))"
  by (subst error_fields_loop.simps) (simp add: read_cstring_def Let_def split: option.split)

lemma error_fields_loop_put:
  "list_all wf_field fs \<Longrightarrow> distinct (map fst fs) \<Longrightarrow> dom m \<inter> fst ` set fs = {} \<Longrightarrow>
   error_fields_loop (pre @ concat (map put_field fs) @ NUL_byte # post) (length pre) m =
     Inr (m ++ repaired_fields fs, length pre + length (concat (map put_field fs)))"
proof (induction fs arbitrary: pre m)
  case Nil
  show ?case by (subst error_fields_loop_cstring) (simp add: repaired_fields_simps nth_append)
next
  case (Cons f fs)
  obtain code t where f: "f = (code, t)" by (cases f)
  let ?rest = "concat (map put_field fs) @ NUL_byte # post"
  have wf: "code \<noteq> NUL_byte" "NUL_byte \<notin> set t" "list_all wf_field fs" and d: "code \<notin> fst ` set fs" "distinct (map fst fs)" and m: "m code = None"
    "dom m \<inter> fst ` set fs = {}"
    using Cons.prems f by (auto simp: wf_field_def)
  have IH: "error_fields_loop ((pre @ put_field f) @ ?rest) (length (pre @ put_field f)) (m(code \<mapsto> replace_invalid_utf8 t)) =
      Inr (m(code \<mapsto> replace_invalid_utf8 t) ++ repaired_fields fs, length (pre @ put_field f) + length (concat (map put_field fs)))"
  proof (rule Cons.IH)
    show "dom (m(code \<mapsto> replace_invalid_utf8 t)) \<inter> fst ` set fs = {}"
      unfolding dom_fun_upd using d(1) m(2) by simp
  qed (use wf d in simp_all)
  have "read_cstring (pre @ code # cstring t @ ?rest) (Suc (length pre)) = Inr (t, Suc (length pre) + length (cstring t))"
    using cstr.read_put [of t "pre @ [code]" ?rest] wf(2) by simp
  with IH wf d m f repaired_fields_Cons [OF d(1), of m t] show ?case
    by (subst error_fields_loop_cstring) (simp add: put_field_def nth_append)
qed

lemma error_fields_loop_sound:
  "error_fields_loop payload offset m = Inr (m', offset') \<Longrightarrow> offset \<le> length payload \<Longrightarrow>
    \<exists>fs. list_all wf_field fs \<and> distinct (map fst fs) \<and> dom m \<inter> fst ` set fs = {} \<and> m' = m ++ repaired_fields fs \<and>
      offset' = offset + length (concat (map put_field fs)) \<and>
      take (length (concat (map put_field fs))) (drop offset payload) = concat (map put_field fs) \<and>
      (offset' < length payload \<longrightarrow> payload ! offset' = NUL_byte)"
proof (induction payload offset m rule: error_fields_loop.induct)
  case (1 payload offset m)
  show ?case
  proof (cases "offset < length payload \<and> payload ! offset \<noteq> NUL_byte")
    case False
    with "1.prems" have "m' = m" "offset' = offset" by (simp_all add: error_fields_loop_cstring [of payload offset m])
    with False show ?thesis by (intro exI [of _ "[]"]) (auto simp: repaired_fields_simps)
  next
    case True
    let ?code = "payload ! offset"
    obtain e where e: "find_from (\<lambda>c. c = NUL_byte) payload (offset + 1) = Some e"
      using "1.prems"(1) True by (subst (asm) error_fields_loop.simps) (auto split: option.splits)
    define t where "t = substr (offset + 1) (e - (offset + 1)) payload"
    have fresh: "m ?code = None" and rec: "error_fields_loop payload (e + 1) (m(?code \<mapsto> replace_invalid_utf8 t)) = Inr (m', offset')"
      using "1.prems"(1) True e by (subst (asm) error_fields_loop.simps, auto simp: Let_def t_def split: if_splits)+
    have rd: "read_cstring payload (offset + 1) = Inr (t, e + 1)" using e by (simp add: read_cstring_def t_def)
    from cstr.read_sound [OF rd] True
    have t: "NUL_byte \<notin> set t" "e + 1 = offset + 1 + length (cstring t)" "e + 1 \<le> length payload"
      "take (length (cstring t)) (drop (offset + 1) payload) = cstring t" by auto
    have "\<not> m ?code \<noteq> None" using fresh by simp
    from "1.IH" [OF True e refl refl this rec [unfolded t_def] t(3), folded t_def]
    obtain fs where fs: "list_all wf_field fs" "distinct (map fst fs)"
      "dom (m(?code \<mapsto> replace_invalid_utf8 t)) \<inter> fst ` set fs = {}"
      "m' = m(?code \<mapsto> replace_invalid_utf8 t) ++ repaired_fields fs"
      "offset' = e + 1 + length (concat (map put_field fs))"
      "take (length (concat (map put_field fs))) (drop (e + 1) payload) = concat (map put_field fs)"
      "offset' < length payload \<longrightarrow> payload ! offset' = NUL_byte"
      by blast
    have code: "?code \<notin> fst ` set fs" using fs(3) by auto
    have "take 1 (drop offset payload) = [?code]" using True by (simp add: take_Suc_conv_app_nth hd_drop_conv_nth take_Suc)
    from take_drop_add [OF this t(4)]
    have f: "take (1 + length (cstring t)) (drop offset payload) = put_field (?code, t)" by (simp add: put_field_def)
    have "take (1 + length (cstring t) + length (concat (map put_field fs))) (drop offset payload) =
        put_field (?code, t) @ concat (map put_field fs)"
      by (rule take_drop_add [OF f]) (use fs(6) t(2) in \<open>simp add: add.assoc\<close>)
    with fs t True fresh code repaired_fields_Cons [OF code, of m t] show ?thesis
      by (intro exI [of _ "(?code, t) # fs"]) (auto simp: wf_field_def put_field_def)
  qed
qed

text \<open>What the mandatory fields must look like.\<close>

definition valid_fields :: "(char \<rightharpoonup> string) \<Rightarrow> bool" where
  "valid_fields m \<longleftrightarrow>
     m (CHR ''S'') \<noteq> None \<and>
     (case m (CHR ''C'') of None \<Rightarrow> False | Some c \<Rightarrow> length c = 5 \<and> list_all sqlstate_char c) \<and>
     (case m (CHR ''M'') of None \<Rightarrow> False | Some t \<Rightarrow> t \<noteq> [])"

definition error_payload :: "(char \<times> string) list \<Rightarrow> bytes" where
  "error_payload fs = concat (map put_field fs) @ [NUL_byte]"

lemma decode_error_fields_loop:
  "decode_error_fields payload = Inr m \<longleftrightarrow>
     error_fields_loop payload 0 Map.empty = Inr (m, length payload - 1) \<and> payload \<noteq> [] \<and> valid_fields m"
proof (cases "error_fields_loop payload 0 Map.empty")
  case (Inr r)
  obtain fs offset where r: "r = (fs, offset)" by (cases r)
  show ?thesis
    using Inr r
    by (cases "fs (CHR ''S'')"; cases "fs (CHR ''C'')"; cases "fs (CHR ''M'')"; cases payload)
      (auto simp: decode_error_fields_def valid_fields_def)
qed (simp add: decode_error_fields_def)

lemma decode_error_fields_exact:
  "decode_error_fields payload = Inr m \<longleftrightarrow>
     (\<exists>fs. payload = error_payload fs \<and> list_all wf_field fs \<and> distinct (map fst fs) \<and>
           m = repaired_fields fs \<and> valid_fields m)"
proof
  assume "decode_error_fields payload = Inr m"
  then have l: "error_fields_loop payload 0 Map.empty = Inr (m, length payload - 1)" and v: "payload \<noteq> []" "valid_fields m"
    by (simp_all add: decode_error_fields_loop)
  from error_fields_loop_sound [OF l] obtain fs where
    fs: "list_all wf_field fs" "distinct (map fst fs)" "m = repaired_fields fs"
      "length payload - 1 = length (concat (map put_field fs))"
      "take (length (concat (map put_field fs))) payload = concat (map put_field fs)"
      "payload ! (length payload - 1) = NUL_byte"
    using v(1) by auto
  have "butlast payload = concat (map put_field fs)" using fs(4,5) by (simp add: butlast_conv_take)
  moreover have "last payload = NUL_byte" using fs(6) v(1) by (simp add: last_conv_nth)
  ultimately have "payload = error_payload fs"
    unfolding error_payload_def using append_butlast_last_id [OF v(1)] by simp
  with fs(1-3) v(2) show "\<exists>fs. payload = error_payload fs \<and> list_all wf_field fs \<and> distinct (map fst fs) \<and>
      m = repaired_fields fs \<and> valid_fields m" by blast
next
  assume "\<exists>fs. payload = error_payload fs \<and> list_all wf_field fs \<and> distinct (map fst fs) \<and>
      m = repaired_fields fs \<and> valid_fields m"
  then obtain fs where fs: "payload = error_payload fs" "list_all wf_field fs" "distinct (map fst fs)"
    "m = repaired_fields fs" "valid_fields m" by blast
  from error_fields_loop_put [OF fs(2,3), of Map.empty "[]" "[]"] fs(1,4,5)
  show "decode_error_fields payload = Inr m"
    by (simp add: decode_error_fields_loop error_payload_def)
qed

text \<open>
  C29: an ErrorResponse or NoticeResponse payload is accepted exactly when it is a sequence of fields
  with distinct non-NUL codes, each a NUL-terminated string, closed by one NUL, that has a severity, a
  SQLSTATE of five digits or capital letters and a non-empty message; the decoded fields are the strings
  of the payload with invalid UTF-8 replaced.
\<close>

theorem error_fields_exact:
  "decode_error_fields payload = Inr m \<longleftrightarrow>
     (\<exists>fs. payload = error_payload fs \<and> list_all wf_field fs \<and> distinct (map fst fs) \<and>
           m = repaired_fields fs \<and> valid_fields m)"
  by (rule decode_error_fields_exact)

subsection \<open>Framing is the inverse of the frames the client writes\<close>

lemma parse_message_sound:
  assumes "parse_message data = Inr m"
  shows "data = frame (tag m) (body m) \<and> length (body m) + 4 < 2 ^ 32"
proof -
  obtain len where len: "read_u32 data 1 = Inr len" and d: "5 \<le> length data" "length data - 1 = unat len"
    and m: "tag m = data ! 0" "body m = drop 5 data"
    using assms by (auto simp: parse_message_def Let_def case_prod_unfold split: if_splits)
  have b: "take 4 (drop 1 data) = be32 len" using read_u32_sound [OF len] d(1) by simp
  have "unat len < 2 ^ 32" using unsigned_less [where w = len] by simp
  moreover have "4 + length (body m) = unat len" using d m(2) by simp
  moreover have "drop 1 data = be32 len @ body m"
    using b m(2) append_take_drop_id [of 4 "drop 1 data"] by (simp add: add.commute)
  moreover have "data = tag m # drop 1 data" using d(1) m(1) by (cases data) auto
  ultimately show ?thesis by (auto simp: frame_def)
qed

text \<open>The tags whose bodies the parser inspects already at this stage.\<close>

definition framed_tags :: "char set" where
  "framed_tags = set ''123nIsKNA''"

lemma parse_message_frame:
  assumes "t \<notin> framed_tags" "length b + 4 < 2 ^ 32"
  shows "parse_message (frame t b) = Inr \<lparr>tag = t, body = b\<rparr>"
proof -
  have "unat (of_nat (4 + length b) :: 32 word) = 4 + length b" using assms(2) by (simp only: unat_of_nat_32)
  moreover from this have "\<not> (of_nat (4 + length b) :: 32 word) < 4" by (simp add: word_less_nat_alt)
  moreover have "read_u32 (frame t b) 1 = Inr (of_nat (4 + length b))"
    using read_u32_at [of "[t]" "of_nat (4 + length b)" b] by (simp add: frame_def)
  moreover have "drop 5 (frame t b) = b" "frame t b ! 0 = t" by (simp_all add: frame_def)
  ultimately show ?thesis using assms(1) by (simp add: parse_message_def framed_tags_def)
qed

text \<open>
  C30: a received message is accepted only if its bytes are exactly the frame of the tag and body it
  returns, with a length field that does not wrap; and every frame whose tag has no fixed layout is
  accepted and returned unchanged.
\<close>

theorem parse_message_framing:
  "(parse_message data = Inr m \<longrightarrow> data = frame (tag m) (body m) \<and> length (body m) + 4 < 2 ^ 32) \<and>
   (t \<notin> framed_tags \<and> length b + 4 < 2 ^ 32 \<longrightarrow> parse_message (frame t b) = Inr \<lparr>tag = t, body = b\<rparr>)"
  using parse_message_sound parse_message_frame by blast

theorem parse_message_framing_witness:
  "parse_message (frame (CHR ''D'') ''abc'') = Inr \<lparr>tag = CHR ''D'', body = ''abc''\<rparr>"
  using parse_message_framing [of "frame (CHR ''D'') ''abc''" "\<lparr>tag = CHR ''D'', body = ''abc''\<rparr>" "CHR ''D''" "''abc''"] by (simp add: framed_tags_def)

end
