(* ===== verification/Backend.thy ===== *)
theory Backend
  imports Prelude
begin

section \<open>Backend results\<close>

text \<open>
  The owning error and result types of \<^verbatim>\<open>sdk/include/odbcpp/database/backend_result.h\<close> and the error
  codes of \<^verbatim>\<open>sdk/include/odbcpp/util/result.h\<close>. The \<^verbatim>\<open>std::error_code\<close> values the program
  distinguishes are those of its own category and \<^verbatim>\<open>std::errc::timed_out\<close>; every other code is
  \<open>Other_code\<close>.
\<close>

datatype db_error_code =
    Success | ConnectionFailed | AuthenticationFailed | QueryFailed | Timeout | NetworkError | TLSError
  | InvalidParameter | NotConnected | ProtocolError | UnsupportedFeature | ResourceLimit | AllocationFailure

definition db_error_message :: "db_error_code \<Rightarrow> string" where
  "db_error_message ev = (case ev of
       Success \<Rightarrow> ''Success'' | ConnectionFailed \<Rightarrow> ''Connection failed''
     | AuthenticationFailed \<Rightarrow> ''Authentication failed'' | QueryFailed \<Rightarrow> ''Query failed''
     | Timeout \<Rightarrow> ''Operation timed out'' | NetworkError \<Rightarrow> ''Network error'' | TLSError \<Rightarrow> ''TLS/SSL error''
     | InvalidParameter \<Rightarrow> ''Invalid parameter'' | NotConnected \<Rightarrow> ''Not connected''
     | ProtocolError \<Rightarrow> ''Protocol error'' | UnsupportedFeature \<Rightarrow> ''Unsupported feature''
     | ResourceLimit \<Rightarrow> ''Resource limit exceeded'' | AllocationFailure \<Rightarrow> ''Memory allocation failed'')"

datatype error_code = Db_code db_error_code | Timed_out | Other_code int

datatype backend_operation =
    Op_Unknown | Op_ExecuteDirect | Op_ExecutePrepared | Op_Describe | Op_Transaction | Op_BeginTransaction
  | Op_CommitTransaction | Op_RollbackTransaction | Op_SetTransactionIsolation | Op_Connect | Op_Authenticate
  | Op_Startup | Op_ResolveTypes | Op_CheckHealth | Op_ResetSession | Op_InspectSession | Op_BuildCatalogQuery
  | Op_ExecuteCatalog

datatype session_state = Disconnected | Idle | In_Transaction | FailedTransaction | State_Unknown

datatype session_disposition = Reusable | ResetRequired | Retire

record session_snapshot =
  snapshot_state :: session_state
  snapshot_disposition :: session_disposition

definition unreported :: session_snapshot where
  "unreported = \<lparr>snapshot_state = State_Unknown, snapshot_disposition = Retire\<rparr>"

datatype backend_error_class =
    Class_Unknown | Class_Connection | Class_Authentication | Class_Server | Class_Timeout | Class_Transport
  | Class_Tls | Class_InvalidInput | Class_NotConnected | Class_Protocol | Class_Unsupported
  | Class_InvalidMetadata | Class_ResourceLimit | Class_AllocationFailure

definition classify_backend_error :: "error_code \<Rightarrow> backend_error_class" where
  "classify_backend_error c = (case c of
       Timed_out \<Rightarrow> Class_Timeout
     | Other_code _ \<Rightarrow> Class_Unknown
     | Db_code d \<Rightarrow> (case d of
           ConnectionFailed \<Rightarrow> Class_Connection | AuthenticationFailed \<Rightarrow> Class_Authentication
         | QueryFailed \<Rightarrow> Class_Server | Timeout \<Rightarrow> Class_Timeout | NetworkError \<Rightarrow> Class_Transport
         | TLSError \<Rightarrow> Class_Tls | InvalidParameter \<Rightarrow> Class_InvalidInput | NotConnected \<Rightarrow> Class_NotConnected
         | ProtocolError \<Rightarrow> Class_Protocol | UnsupportedFeature \<Rightarrow> Class_Unsupported
         | ResourceLimit \<Rightarrow> Class_ResourceLimit | AllocationFailure \<Rightarrow> Class_AllocationFailure
         | Success \<Rightarrow> Class_Unknown))"

record backend_error =
  err_code :: error_code
  err_message :: string
  err_class :: backend_error_class
  native_state :: "string option"
  native_code :: "int option"
  err_operation :: backend_operation
  err_state :: session_state
  err_disposition :: session_disposition
  retry_safe :: "bool option"
  public_reason :: string

definition BackendError :: "error_code \<Rightarrow> string \<Rightarrow> backend_error" where
  "BackendError c t =
     \<lparr>err_code = c, err_message = t, err_class = classify_backend_error c, native_state = None, native_code = None,
      err_operation = Op_Unknown, err_state = State_Unknown, err_disposition = Retire, retry_safe = None,
      public_reason = []\<rparr>"

definition safe_summary :: "backend_error \<Rightarrow> string" where
  "safe_summary e = (case err_class e of
       Class_Connection \<Rightarrow> ''Database connection failed''
     | Class_Authentication \<Rightarrow> ''Database authentication failed''
     | Class_Server \<Rightarrow> ''Database server rejected the operation''
     | Class_Timeout \<Rightarrow> ''Database operation timed out''
     | Class_Transport \<Rightarrow> ''Database transport failed''
     | Class_Tls \<Rightarrow> ''Database secure transport failed''
     | Class_InvalidInput \<Rightarrow> ''Database operation received invalid input''
     | Class_NotConnected \<Rightarrow> ''Database session is not connected''
     | Class_Protocol \<Rightarrow> ''Database protocol exchange failed''
     | Class_Unsupported \<Rightarrow> ''Database operation is unsupported''
     | Class_InvalidMetadata \<Rightarrow> ''Database metadata validation failed''
     | Class_ResourceLimit \<Rightarrow> ''Database resource limit exceeded''
     | Class_AllocationFailure \<Rightarrow> ''Database memory allocation failed''
     | Class_Unknown \<Rightarrow> ''Database operation failed'')"

datatype local_failure = Local_InvalidInput | Local_Unsupported

definition local_backend_error :: "local_failure \<Rightarrow> string \<Rightarrow> backend_operation \<Rightarrow> session_state \<Rightarrow> backend_error" where
  "local_backend_error kind message operation state =
     (BackendError (Db_code (case kind of Local_InvalidInput \<Rightarrow> InvalidParameter | Local_Unsupported \<Rightarrow> UnsupportedFeature)) message)
       \<lparr>err_operation := operation, err_state := state,
        err_disposition := (if state = Disconnected then Retire else if state = Idle then Reusable else ResetRequired)\<rparr>"

datatype 'a backend_result = Value 'a session_snapshot | Failed backend_error

definition result_snapshot :: "'a backend_result \<Rightarrow> session_snapshot" where
  "result_snapshot r = (case r of
       Value _ s \<Rightarrow> s
     | Failed e \<Rightarrow> \<lparr>snapshot_state = err_state e, snapshot_disposition = err_disposition e\<rparr>)"

end
