(* ===== verification/PgResults.thy ===== *)
theory PgResults
  imports PgMessages Backend
begin

section \<open>Query results\<close>

text \<open>
  \<^verbatim>\<open>extract_query_results\<close> and \<^verbatim>\<open>extract_query_result\<close> of
  \<^verbatim>\<open>core/database/postgres/pg_protocol_parser.cpp\<close>: the messages of one exchange are folded into a list of
  results. The local variables of the function are the fields of \<open>extraction\<close>, one handler per message
  tag is a function on them, and the exceptions of a handler are values.
\<close>

datatype execution_result_shape = NoResultSet | ResultSet

record parsed_query_result =
  result_rows :: "string option list list"
  result_columns :: "parsed_column list"
  parameter_type_ids :: "32 word list"
  result_error :: "backend_error option"
  affected_rows :: nat
  result_statement_kind :: "statement_kind option"
  result_shape :: "execution_result_shape option"
  prepared_execution_authority :: bool

definition empty_result :: parsed_query_result where
  "empty_result =
     \<lparr>result_rows = [], result_columns = [], parameter_type_ids = [], result_error = None, affected_rows = 0,
      result_statement_kind = None, result_shape = None, prepared_execution_authority = False\<rparr>"

record extraction =
  current :: parsed_query_result
  completed :: "parsed_query_result list"
  has_row_description :: bool
  bind_complete_since_description :: bool
  extended_execution :: bool
  saw_bind_complete :: bool
  phase_shape :: "execution_result_shape option"

definition start_extraction :: extraction where
  "start_extraction =
     \<lparr>current = empty_result, completed = [], has_row_description = False, bind_complete_since_description = False,
      extended_execution = False, saw_bind_complete = False, phase_shape = None\<rparr>"

definition extract_query_results :: "pg_message list \<Rightarrow> string option list list result" where
  "extract_query_results messages =
     fold_result (\<lambda>rows msg.
       if tag msg = CHR ''D'' then bind_result (parse_data_row (body msg)) (\<lambda>row. Inr (rows @ [row])) else Inr rows)
       [] messages"

definition completed_idle :: "pg_message list \<Rightarrow> bool" where
  "completed_idle messages \<longleftrightarrow>
     messages \<noteq> [] \<and> tag (last messages) = CHR ''Z'' \<and> body (last messages) = ''I'' \<and>
     \<not> list_ex (\<lambda>m. tag m = CHR ''E'') messages"

text \<open>The result is moved to the completed ones and the phase starts again.\<close>

definition publish :: "parsed_query_result \<Rightarrow> extraction \<Rightarrow> extraction" where
  "publish r s = s\<lparr>completed := completed s @ [r], current := empty_result, has_row_description := False,
     bind_complete_since_description := False, saw_bind_complete := False, phase_shape := None\<rparr>"

definition on_parse_complete :: "bytes \<Rightarrow> extraction \<Rightarrow> extraction result" where
  "on_parse_complete payload s =
     (if saw_bind_complete s then Inl (Runtime_error ''PostgreSQL ParseComplete after bound portal description'')
      else if payload \<noteq> [] then Inl (Runtime_error ''invalid PostgreSQL ParseComplete'')
      else Inr (s\<lparr>extended_execution := True\<rparr>))"

definition on_row_description :: "bytes \<Rightarrow> extraction \<Rightarrow> extraction result" where
  "on_row_description payload s =
     (if has_row_description s \<and> (\<not> bind_complete_since_description s \<or> result_rows (current s) \<noteq> [])
      then Inl (Runtime_error ''duplicate PostgreSQL RowDescription within result'')
      else bind_result (parse_row_description payload) (\<lambda>columns.
        Inr (s\<lparr>current := (current s)\<lparr>result_columns := columns\<rparr>, has_row_description := True,
               phase_shape := Some ResultSet, bind_complete_since_description := False\<rparr>)))"

definition on_data_row :: "bytes \<Rightarrow> extraction \<Rightarrow> extraction result" where
  "on_data_row payload s =
     (if \<not> has_row_description s then Inl (Runtime_error ''PostgreSQL DataRow arrived without RowDescription'')
      else bind_result (parse_data_row payload) (\<lambda>row.
        if length row \<noteq> length (result_columns (current s))
        then Inl (Runtime_error ''PostgreSQL DataRow column count differs from RowDescription'')
        else Inr (s\<lparr>current := (current s)\<lparr>result_rows := result_rows (current s) @ [row]\<rparr>\<rparr>)))"

definition on_no_data :: "bytes \<Rightarrow> extraction \<Rightarrow> extraction result" where
  "on_no_data payload s =
     (if payload \<noteq> [] \<or> result_rows (current s) \<noteq> [] \<or>
         (phase_shape s \<noteq> None \<and> \<not> bind_complete_since_description s)
      then Inl (Runtime_error ''invalid PostgreSQL NoData description'')
      else Inr (s\<lparr>current := (current s)\<lparr>result_columns := []\<rparr>, has_row_description := False,
                  phase_shape := Some NoResultSet, bind_complete_since_description := False\<rparr>))"

definition on_bind_complete :: "bytes \<Rightarrow> extraction \<Rightarrow> extraction result" where
  "on_bind_complete payload s =
     (if payload \<noteq> [] then Inl (Runtime_error ''invalid PostgreSQL BindComplete'')
      else Inr (s\<lparr>extended_execution := True, saw_bind_complete := True, phase_shape := None,
                  bind_complete_since_description := True\<rparr>))"

definition on_parameter_description :: "bytes \<Rightarrow> extraction \<Rightarrow> extraction result" where
  "on_parameter_description payload s =
     (if saw_bind_complete s
      then Inl (Runtime_error ''PostgreSQL ParameterDescription after bound portal description'')
      else bind_result (parse_parameter_description payload) (\<lambda>oids.
        Inr (s\<lparr>extended_execution := True, current := (current s)\<lparr>parameter_type_ids := oids\<rparr>\<rparr>)))"

definition completion_shape :: "extraction \<Rightarrow> execution_result_shape option" where
  "completion_shape s =
     (let authority = saw_bind_complete s \<and> phase_shape s \<noteq> None
      in if \<not> extended_execution s \<and> phase_shape s = None then Some NoResultSet
         else if extended_execution s \<and> \<not> authority then None
         else phase_shape s)"

definition on_command_complete :: "pg_catalog_profile \<Rightarrow> bool \<Rightarrow> bytes \<Rightarrow> extraction \<Rightarrow> extraction result" where
  "on_command_complete profile idle payload s =
     bind_result (read_cstring payload 0) (\<lambda>(command_tag, offset).
       if offset \<noteq> length payload then Inl (Runtime_error ''invalid PostgreSQL CommandComplete length'')
       else
         let shape = completion_shape s;
             rows = (if profile = Redshift \<and> idle \<and> command_tag = ''SELECT'' \<and> has_row_description s \<and>
                        shape = Some ResultSet
                     then length (result_rows (current s)) else command_affected_rows command_tag)
         in Inr (publish ((current s)\<lparr>result_statement_kind := Some (classify_command_tag command_tag),
                   affected_rows := rows, result_shape := shape,
                   prepared_execution_authority := saw_bind_complete s \<and> phase_shape s \<noteq> None\<rparr>) s))"

definition on_empty_query :: "bytes \<Rightarrow> extraction \<Rightarrow> extraction result" where
  "on_empty_query payload s =
     (if payload \<noteq> [] then Inl (Runtime_error ''invalid PostgreSQL EmptyQueryResponse'')
      else if \<not> extended_execution s then Inr s
      else if \<not> saw_bind_complete s \<or> phase_shape s \<noteq> Some NoResultSet \<or> has_row_description s \<or>
              result_columns (current s) \<noteq> [] \<or> result_rows (current s) \<noteq> [] \<or> result_error (current s) \<noteq> None
      then Inl (Runtime_error ''PostgreSQL empty execution lacks bound NoData authority'')
      else Inr (publish ((current s)\<lparr>prepared_execution_authority := True, result_shape := Some NoResultSet\<rparr>) s))"

definition query_failure :: "(char \<rightharpoonup> string) \<Rightarrow> backend_error" where
  "query_failure fs =
     (BackendError (Db_code QueryFailed) (''Query error: '' @ error_field fs (CHR ''M'')))
       \<lparr>native_state := Some (error_field fs (CHR ''C''))\<rparr>"

definition on_error_response :: "bytes \<Rightarrow> extraction \<Rightarrow> extraction result" where
  "on_error_response payload s =
     bind_result (decode_error_fields payload) (\<lambda>fs.
       Inr (publish (empty_result\<lparr>result_error := Some (query_failure fs)\<rparr>) s))"

definition on_message :: "pg_catalog_profile \<Rightarrow> bool \<Rightarrow> extraction \<Rightarrow> pg_message \<Rightarrow> extraction result" where
  "on_message profile idle s m =
     (if tag m = CHR ''1'' then on_parse_complete (body m) s
      else if tag m = CHR ''T'' then on_row_description (body m) s
      else if tag m = CHR ''D'' then on_data_row (body m) s
      else if tag m = CHR ''n'' then on_no_data (body m) s
      else if tag m = CHR ''2'' then on_bind_complete (body m) s
      else if tag m = CHR ''t'' then on_parameter_description (body m) s
      else if tag m = CHR ''C'' then on_command_complete profile idle (body m) s
      else if tag m = CHR ''I'' then on_empty_query (body m) s
      else if tag m = CHR ''E'' then on_error_response (body m) s
      else Inr s)"

text \<open>The returned pair is the primary result and its \<^verbatim>\<open>additional_results\<close>.\<close>

definition extract_query_result ::
  "pg_catalog_profile \<Rightarrow> pg_message list \<Rightarrow> (parsed_query_result \<times> parsed_query_result list) result" where
  "extract_query_result profile messages =
     bind_result (fold_result (on_message profile (completed_idle messages)) start_extraction messages) (\<lambda>s.
       case completed s of [] \<Rightarrow> Inr (current s, []) | r # rs \<Rightarrow> Inr (r, rs))"

subsection \<open>Invariant of the extraction\<close>

definition rectangular :: "parsed_query_result \<Rightarrow> bool" where
  "rectangular r \<longleftrightarrow> list_all (\<lambda>row. length row = length (result_columns r)) (result_rows r)"

text \<open>
  What a published result promises: every row has one cell per column, an error result carries nothing
  but its error, and a result without a result set has no columns and no rows. Execution authority is
  only claimed with a known shape.
\<close>

definition published_ok :: "parsed_query_result \<Rightarrow> bool" where
  "published_ok r \<longleftrightarrow>
     rectangular r \<and>
     (case result_error r of None \<Rightarrow> True | Some e \<Rightarrow> r = empty_result\<lparr>result_error := Some e\<rparr>) \<and>
     (result_shape r = Some NoResultSet \<longrightarrow> result_columns r = [] \<and> result_rows r = []) \<and>
     (prepared_execution_authority r \<longrightarrow> result_shape r \<noteq> None)"

text \<open>The result under construction, and the phase flags around it.\<close>

definition open_result :: "bool \<Rightarrow> parsed_query_result \<Rightarrow> bool" where
  "open_result described r \<longleftrightarrow>
     rectangular r \<and> result_error r = None \<and> result_shape r = None \<and> \<not> prepared_execution_authority r \<and>
     (described \<or> result_columns r = [] \<and> result_rows r = [])"

definition flags_ok :: "extraction \<Rightarrow> bool" where
  "flags_ok s \<longleftrightarrow>
     (bind_complete_since_description s \<longrightarrow> saw_bind_complete s) \<and>
     (saw_bind_complete s \<longrightarrow> extended_execution s) \<and>
     (case phase_shape s of
        None \<Rightarrow> has_row_description s \<longrightarrow> extended_execution s
      | Some ResultSet \<Rightarrow> has_row_description s
      | Some NoResultSet \<Rightarrow> \<not> has_row_description s)"

definition wf_extraction :: "extraction \<Rightarrow> bool" where
  "wf_extraction s \<longleftrightarrow>
     list_all published_ok (completed s) \<and> open_result (has_row_description s) (current s) \<and> flags_ok s"

lemma open_empty [simp]: "open_result described empty_result"
  by (simp add: open_result_def rectangular_def empty_result_def)

lemma wf_start: "wf_extraction start_extraction"
  by (simp add: wf_extraction_def flags_ok_def start_extraction_def)

lemma wf_publish: "wf_extraction s \<Longrightarrow> published_ok r \<Longrightarrow> wf_extraction (publish r s)"
  by (simp add: wf_extraction_def flags_ok_def publish_def)

lemma wf_parse_complete: "wf_extraction s \<Longrightarrow> on_parse_complete p s = Inr s' \<Longrightarrow> wf_extraction s'"
  by (clarsimp simp: on_parse_complete_def wf_extraction_def flags_ok_def split: if_splits option.splits execution_result_shape.splits)

lemma wf_row_description: "wf_extraction s \<Longrightarrow> on_row_description p s = Inr s' \<Longrightarrow> wf_extraction s'"
  by (auto simp: on_row_description_def wf_extraction_def flags_ok_def open_result_def rectangular_def split: if_splits)

lemma wf_data_row: "wf_extraction s \<Longrightarrow> on_data_row p s = Inr s' \<Longrightarrow> wf_extraction s'"
  by (clarsimp simp: on_data_row_def wf_extraction_def flags_ok_def open_result_def rectangular_def split: if_splits option.splits execution_result_shape.splits)

lemma wf_no_data: "wf_extraction s \<Longrightarrow> on_no_data p s = Inr s' \<Longrightarrow> wf_extraction s'"
  by (clarsimp simp: on_no_data_def wf_extraction_def flags_ok_def open_result_def rectangular_def split: if_splits)

lemma wf_bind_complete: "wf_extraction s \<Longrightarrow> on_bind_complete p s = Inr s' \<Longrightarrow> wf_extraction s'"
  by (clarsimp simp: on_bind_complete_def wf_extraction_def flags_ok_def split: if_splits)

lemma wf_parameter_description: "wf_extraction s \<Longrightarrow> on_parameter_description p s = Inr s' \<Longrightarrow> wf_extraction s'"
  by (clarsimp simp: on_parameter_description_def wf_extraction_def flags_ok_def open_result_def rectangular_def split: if_splits option.splits execution_result_shape.splits)

lemma completion_shape_no_result:
  "wf_extraction s \<Longrightarrow> completion_shape s = Some NoResultSet \<Longrightarrow> \<not> has_row_description s"
  by (clarsimp simp: completion_shape_def wf_extraction_def flags_ok_def Let_def split: if_splits option.splits)

lemma completion_shape_authority:
  "saw_bind_complete s \<Longrightarrow> phase_shape s \<noteq> None \<Longrightarrow> completion_shape s \<noteq> None"
  by (simp add: completion_shape_def)

lemma published_complete:
  "open_result described r \<Longrightarrow> (shape = Some NoResultSet \<longrightarrow> \<not> described) \<Longrightarrow> (authority \<longrightarrow> shape \<noteq> None) \<Longrightarrow>
    published_ok (r\<lparr>result_statement_kind := kind, affected_rows := n, result_shape := shape,
                    prepared_execution_authority := authority\<rparr>)"
  by (auto simp: published_ok_def open_result_def rectangular_def)

lemma wf_command_complete:
  assumes wf: "wf_extraction s" and r: "on_command_complete profile idle p s = Inr s'"
  shows "wf_extraction s'"
proof -
  obtain kind n where s': "s' = publish ((current s)\<lparr>result_statement_kind := kind, affected_rows := n,
      result_shape := completion_shape s,
      prepared_execution_authority := saw_bind_complete s \<and> phase_shape s \<noteq> None\<rparr>) s"
    using r by (auto simp: on_command_complete_def Let_def split: if_splits)
  show ?thesis unfolding s'
    using wf completion_shape_no_result [OF wf] completion_shape_authority [of s]
    by (intro wf_publish [OF wf] published_complete) (auto simp: wf_extraction_def)
qed

lemma wf_empty_query: "wf_extraction s \<Longrightarrow> on_empty_query p s = Inr s' \<Longrightarrow> wf_extraction s'"
  by (auto simp: on_empty_query_def published_ok_def rectangular_def intro!: wf_publish split: if_splits)

lemma wf_error_response: "wf_extraction s \<Longrightarrow> on_error_response p s = Inr s' \<Longrightarrow> wf_extraction s'"
  by (auto simp: on_error_response_def published_ok_def rectangular_def empty_result_def intro!: wf_publish)

lemmas wf_handlers =
  wf_parse_complete wf_row_description wf_data_row wf_no_data wf_bind_complete wf_parameter_description
  wf_command_complete wf_empty_query wf_error_response

lemma wf_on_message: "wf_extraction s \<Longrightarrow> on_message profile idle s m = Inr s' \<Longrightarrow> wf_extraction s'"
  by (auto simp: on_message_def split: if_splits dest: wf_handlers)

lemma extract_query_result_ok:
  assumes "extract_query_result profile messages = Inr (r, rs)"
  shows "rectangular r \<and> list_all published_ok rs \<and> (result_error r = None \<or> published_ok r)"
proof -
  obtain s where s: "fold_result (on_message profile (completed_idle messages)) start_extraction messages = Inr s"
    and r: "(case completed s of [] \<Rightarrow> Inr (current s, []) | r # rs \<Rightarrow> Inr (r, rs)) = (Inr (r, rs) :: (parsed_query_result \<times> parsed_query_result list) result)"
    using assms by (auto simp: extract_query_result_def)
  have "wf_extraction s" by (rule fold_result_invariant [where P = wf_extraction, OF s wf_start]) (rule wf_on_message)
  with r show ?thesis by (auto simp: wf_extraction_def published_ok_def open_result_def split: list.splits)
qed



subsection \<open>Simple query exchanges\<close>

datatype outcome =
    Rows "parsed_column list" "string option list list" string
  | Command string
  | Failure "(char \<times> string) list"

fun wf_outcome :: "outcome \<Rightarrow> bool" where
  "wf_outcome (Rows cols rows t) \<longleftrightarrow>
     length cols < 2 ^ 16 \<and> list_all wf_column cols \<and>
     list_all (\<lambda>row. length row = length cols \<and> list_all wf_cell row) rows \<and> NUL_byte \<notin> set t"
| "wf_outcome (Command t) \<longleftrightarrow> NUL_byte \<notin> set t"
| "wf_outcome (Failure fs) \<longleftrightarrow> list_all wf_field fs \<and> distinct (map fst fs) \<and> valid_fields (repaired_fields fs)"

definition row_message :: "string option list \<Rightarrow> pg_message" where
  "row_message row = \<lparr>tag = CHR ''D'', body = counted encoded_value row\<rparr>"

definition completion_message :: "string \<Rightarrow> pg_message" where
  "completion_message t = \<lparr>tag = CHR ''C'', body = cstring t\<rparr>"

definition ready_message :: pg_message where
  "ready_message = \<lparr>tag = CHR ''Z'', body = ''I''\<rparr>"

fun messages_of :: "outcome \<Rightarrow> pg_message list" where
  "messages_of (Rows cols rows t) =
     \<lparr>tag = CHR ''T'', body = counted put_column cols\<rparr> # map row_message rows @ [completion_message t]"
| "messages_of (Command t) = [completion_message t]"
| "messages_of (Failure fs) = [\<lparr>tag = CHR ''E'', body = error_payload fs\<rparr>]"

fun is_failure :: "outcome \<Rightarrow> bool" where
  "is_failure (Failure _) = True"
| "is_failure _ = False"

text \<open>The row count of a bare SELECT tag is only derived for Redshift and an exchange without errors.\<close>

definition reported_rows :: "pg_catalog_profile \<Rightarrow> bool \<Rightarrow> string \<Rightarrow> nat \<Rightarrow> nat" where
  "reported_rows profile idle t n =
     (if profile = Redshift \<and> idle \<and> t = ''SELECT'' then n else command_affected_rows t)"

fun result_of :: "pg_catalog_profile \<Rightarrow> bool \<Rightarrow> outcome \<Rightarrow> parsed_query_result" where
  "result_of profile idle (Rows cols rows t) = empty_result\<lparr>result_columns := cols, result_rows := rows,
     result_statement_kind := Some (classify_command_tag t), affected_rows := reported_rows profile idle t (length rows),
     result_shape := Some ResultSet\<rparr>"
| "result_of profile idle (Command t) = empty_result\<lparr>result_statement_kind := Some (classify_command_tag t),
     affected_rows := command_affected_rows t, result_shape := Some NoResultSet\<rparr>"
| "result_of profile idle (Failure fs) = empty_result\<lparr>result_error := Some (query_failure (repaired_fields fs))\<rparr>"

lemma read_cstring_all: "NUL_byte \<notin> set t \<Longrightarrow> read_cstring (cstring t) 0 = Inr (t, length (cstring t))"
  using cstr.read_put [of t "[]" "[]"] by simp

lemma fold_rows:
  "has_row_description s \<Longrightarrow>
   list_all (\<lambda>row. length row = length (result_columns (current s)) \<and> list_all wf_cell row) rows \<Longrightarrow>
   length (result_columns (current s)) < 2 ^ 16 \<Longrightarrow>
   fold_result (on_message profile idle) s (map row_message rows) =
     Inr (s\<lparr>current := (current s)\<lparr>result_rows := result_rows (current s) @ rows\<rparr>\<rparr>)"
proof (induction rows arbitrary: s)
  case (Cons row rows)
  then have "on_message profile idle s (row_message row) =
      Inr (s\<lparr>current := (current s)\<lparr>result_rows := result_rows (current s) @ [row]\<rparr>\<rparr>)"
    using parse_data_row_iff [of "counted encoded_value row" row]
    by (simp add: on_message_def on_data_row_def row_message_def)
  with Cons show ?case by simp
qed simp

lemma fold_outcome:
  assumes "wf_outcome o1"
  shows "fold_result (on_message profile idle) (start_extraction\<lparr>completed := xs\<rparr>) (messages_of o1) =
     Inr (start_extraction\<lparr>completed := xs @ [result_of profile idle o1]\<rparr>)"
proof (cases o1)
  case (Rows cols rows t)
  let ?s = "start_extraction\<lparr>completed := xs, current := empty_result\<lparr>result_columns := cols\<rparr>,
    has_row_description := True, phase_shape := Some ResultSet\<rparr>"
  have wf: "length cols < 2 ^ 16" "list_all wf_column cols" "NUL_byte \<notin> set t"
    "list_all (\<lambda>row. length row = length cols \<and> list_all wf_cell row) rows" using assms Rows by auto
  have "on_message profile idle (start_extraction\<lparr>completed := xs\<rparr>) \<lparr>tag = CHR ''T'', body = counted put_column cols\<rparr> = Inr ?s"
    using wf parse_row_description_iff [of "counted put_column cols" cols]
    by (simp add: on_message_def on_row_description_def start_extraction_def)
  moreover have "fold_result (on_message profile idle) ?s (map row_message rows) =
      Inr (?s\<lparr>current := empty_result\<lparr>result_columns := cols, result_rows := rows\<rparr>\<rparr>)"
    by (subst fold_rows) (use wf in \<open>simp_all add: empty_result_def\<close>)
  moreover have "on_message profile idle (?s\<lparr>current := empty_result\<lparr>result_columns := cols, result_rows := rows\<rparr>\<rparr>) (completion_message t) =
      Inr (start_extraction\<lparr>completed := xs @ [result_of profile idle o1]\<rparr>)"
    using wf(3) Rows read_cstring_all [of t]
    by (simp add: on_message_def on_command_complete_def completion_message_def publish_def completion_shape_def Let_def
        start_extraction_def empty_result_def reported_rows_def)
  ultimately show ?thesis using Rows by simp
next
  case (Command t)
  then show ?thesis using assms read_cstring_all [of t]
    by (simp add: on_message_def on_command_complete_def completion_message_def publish_def completion_shape_def Let_def
        start_extraction_def empty_result_def)
next
  case (Failure fs)
  then have "decode_error_fields (error_payload fs) = Inr (repaired_fields fs)"
    using assms by (auto simp: decode_error_fields_exact)
  then show ?thesis using Failure
    by (simp add: on_message_def on_error_response_def publish_def start_extraction_def)
qed

lemma fold_outcomes:
  "list_all wf_outcome os \<Longrightarrow>
   fold_result (on_message profile idle) (start_extraction\<lparr>completed := xs\<rparr>) (concat (map messages_of os)) =
     Inr (start_extraction\<lparr>completed := xs @ map (result_of profile idle) os\<rparr>)"
  by (induction os arbitrary: xs) (simp_all add: fold_outcome)

lemma completed_idle_outcomes:
  "completed_idle (concat (map messages_of os) @ [ready_message]) \<longleftrightarrow> \<not> list_ex is_failure os"
proof -
  have "list_ex (\<lambda>m. tag m = CHR ''E'') (messages_of o1) \<longleftrightarrow> is_failure o1" for o1
    by (cases o1) (auto simp: completion_message_def row_message_def list_ex_iff)
  then show ?thesis
    by (auto simp: completed_idle_def ready_message_def list_ex_iff)
qed

text \<open>
  C2: the answer to a simple query is decoded to exactly what the server did. For any non-empty sequence
  of statement outcomes, each a result set, a command completion or an error, the messages that encode
  them followed by ReadyForQuery give one result per outcome, in order, with the same columns, cells,
  statement kind, row count, and error state.
\<close>

theorem simple_query_exact:
  assumes "list_all wf_outcome (o1 # os)"
  shows "extract_query_result profile (concat (map messages_of (o1 # os)) @ [ready_message]) =
    (let idle = \<not> list_ex is_failure (o1 # os)
     in Inr (result_of profile idle o1, map (result_of profile idle) os))"
proof -
  let ?idle = "\<not> list_ex is_failure (o1 # os)"
  have f: "fold_result (on_message profile ?idle) start_extraction (concat (map messages_of (o1 # os)) @ [ready_message]) =
      Inr (start_extraction\<lparr>completed := map (result_of profile ?idle) (o1 # os)\<rparr>)"
    using fold_outcomes [OF assms, of profile ?idle "[]"]
    by (simp add: start_extraction_def on_message_def ready_message_def)
  show ?thesis
    unfolding extract_query_result_def completed_idle_outcomes f bind_result_Inr by (simp add: Let_def)
qed

theorem simple_query_exact_witness:
  "extract_query_result Redshift
     (concat (map messages_of [Rows [] [[], []] ''SELECT'', Command ''UPDATE 3'']) @ [ready_message]) =
   Inr (result_of Redshift True (Rows [] [[], []] ''SELECT''), [result_of Redshift True (Command ''UPDATE 3'')])"
  using simple_query_exact [of "Rows [] [[], []] ''SELECT''" "[Command ''UPDATE 3'']" Redshift] by simp

subsection \<open>Prepared executions\<close>

text \<open>A description is a RowDescription or NoData.\<close>

definition description :: "parsed_column list option \<Rightarrow> pg_message" where
  "description d = (case d of
       None \<Rightarrow> \<lparr>tag = CHR ''n'', body = []\<rparr>
     | Some cols \<Rightarrow> \<lparr>tag = CHR ''T'', body = counted put_column cols\<rparr>)"

definition wf_description :: "parsed_column list option \<Rightarrow> bool" where
  "wf_description d \<longleftrightarrow> (case d of None \<Rightarrow> True | Some cols \<Rightarrow> length cols < 2 ^ 16 \<and> list_all wf_column cols)"

definition described_columns :: "parsed_column list option \<Rightarrow> parsed_column list" where
  "described_columns d = (case d of None \<Rightarrow> [] | Some cols \<Rightarrow> cols)"

definition described_shape :: "parsed_column list option \<Rightarrow> execution_result_shape" where
  "described_shape d = (case d of None \<Rightarrow> NoResultSet | Some cols \<Rightarrow> ResultSet)"

definition prepared_messages ::
  "32 word list \<Rightarrow> parsed_column list option \<Rightarrow> parsed_column list option \<Rightarrow> string option list list \<Rightarrow> string \<Rightarrow> pg_message list" where
  "prepared_messages oids statement portal rows t =
     [\<lparr>tag = CHR ''1'', body = []\<rparr>, \<lparr>tag = CHR ''t'', body = counted be32 oids\<rparr>, description statement,
      \<lparr>tag = CHR ''2'', body = []\<rparr>, description portal] @ map row_message rows @ [completion_message t, ready_message]"

lemma on_description:
  assumes "wf_description d" "result_rows (current s) = []"
    "bind_complete_since_description s \<or> \<not> has_row_description s \<and> phase_shape s = None"
  shows "on_message profile idle s (description d) =
    Inr (s\<lparr>current := (current s)\<lparr>result_columns := described_columns d\<rparr>, has_row_description := (d \<noteq> None),
           phase_shape := Some (described_shape d), bind_complete_since_description := False\<rparr>)"
proof (cases d)
  case None
  then show ?thesis using assms
    by (auto simp: on_message_def on_no_data_def description_def described_columns_def described_shape_def)
next
  case (Some cols)
  then show ?thesis using assms parse_row_description_iff [of "counted put_column cols" cols]
    by (auto simp: on_message_def on_row_description_def description_def described_columns_def described_shape_def wf_description_def)
qed

definition prepared_result ::
  "pg_catalog_profile \<Rightarrow> 32 word list \<Rightarrow> parsed_column list option \<Rightarrow> string option list list \<Rightarrow> string \<Rightarrow> parsed_query_result" where
  "prepared_result profile oids portal rows t = empty_result\<lparr>parameter_type_ids := oids,
     result_columns := described_columns portal, result_rows := rows,
     result_statement_kind := Some (classify_command_tag t),
     affected_rows := (if portal = None then command_affected_rows t else reported_rows profile True t (length rows)),
     result_shape := Some (described_shape portal), prepared_execution_authority := True\<rparr>"

lemma prepared_idle: "completed_idle (prepared_messages oids statement portal rows t)"
  by (auto simp: completed_idle_def prepared_messages_def ready_message_def completion_message_def row_message_def
      description_def list_ex_iff split: option.split)

text \<open>
  C14: the answer to a prepared execution (ParseComplete, the statement's parameter and row description,
  BindComplete, the portal's description, the rows, CommandComplete, ReadyForQuery) gives one result with
  the parameter types, the portal's columns (never the statement's), the rows and the completion; the
  portal's description decides the result's shape, and the result has execution authority.
\<close>

theorem prepared_execution_exact:
  assumes "length oids < 2 ^ 16" "wf_description statement" "wf_description portal" "NUL_byte \<notin> set t"
    "portal = None \<longrightarrow> rows = []"
    "list_all (\<lambda>row. length row = length (described_columns portal) \<and> list_all wf_cell row) rows"
  shows "extract_query_result profile (prepared_messages oids statement portal rows t) =
    Inr (prepared_result profile oids portal rows t, [])"
proof -
  let ?f = "fold_result (on_message profile True)"
  have split: "prepared_messages oids statement portal rows t =
      [\<lparr>tag = CHR ''1'', body = []\<rparr>, \<lparr>tag = CHR ''t'', body = counted be32 oids\<rparr>] @
      [description statement, \<lparr>tag = CHR ''2'', body = []\<rparr>] @ [description portal] @
      map row_message rows @ [completion_message t, ready_message]"
    by (simp add: prepared_messages_def)
  define s1 where "s1 = start_extraction\<lparr>extended_execution := True, current := empty_result\<lparr>parameter_type_ids := oids\<rparr>\<rparr>"
  define s2 where "s2 = s1\<lparr>current := (current s1)\<lparr>result_columns := described_columns statement\<rparr>,
    has_row_description := (statement \<noteq> None), phase_shape := None, saw_bind_complete := True,
    bind_complete_since_description := True\<rparr>"
  define s3 where "s3 = s2\<lparr>current := (current s2)\<lparr>result_columns := described_columns portal\<rparr>,
    has_row_description := (portal \<noteq> None), phase_shape := Some (described_shape portal),
    bind_complete_since_description := False\<rparr>"
  have 1: "?f start_extraction [\<lparr>tag = CHR ''1'', body = []\<rparr>, \<lparr>tag = CHR ''t'', body = counted be32 oids\<rparr>] = Inr s1"
    using assms(1) parse_parameter_description_iff [of "counted be32 oids" oids]
    by (simp add: on_message_def on_parse_complete_def on_parameter_description_def start_extraction_def s1_def)
  have 2: "?f s1 [description statement, \<lparr>tag = CHR ''2'', body = []\<rparr>] = Inr s2"
    using on_description [OF assms(2), of s1]
    by (simp add: s1_def s2_def start_extraction_def empty_result_def on_message_def on_bind_complete_def)
  have 3: "?f s2 [description portal] = Inr s3"
    using on_description [OF assms(3), of s2]
    by (simp add: s1_def s2_def s3_def start_extraction_def empty_result_def)
  have 4: "?f s3 (map row_message rows) = Inr (s3\<lparr>current := (current s3)\<lparr>result_rows := rows\<rparr>\<rparr>)"
  proof (cases portal)
    case None
    then show ?thesis using assms(5) by (simp add: s1_def s2_def s3_def start_extraction_def empty_result_def)
  next
    case (Some cols)
    show ?thesis
      by (subst fold_rows) (use Some assms(3,6) in \<open>simp_all add: s1_def s2_def s3_def start_extraction_def
        empty_result_def wf_description_def described_columns_def\<close>)
  qed
  have 5: "?f (s3\<lparr>current := (current s3)\<lparr>result_rows := rows\<rparr>\<rparr>) [completion_message t, ready_message] =
      Inr (start_extraction\<lparr>completed := [prepared_result profile oids portal rows t], extended_execution := True\<rparr>)"
    using read_cstring_all [OF assms(4)]
    by (cases portal) (simp_all add: s1_def s2_def s3_def start_extraction_def empty_result_def on_message_def ready_message_def
        on_command_complete_def completion_message_def publish_def completion_shape_def Let_def described_shape_def
        described_columns_def reported_rows_def prepared_result_def)
  have "?f start_extraction (prepared_messages oids statement portal rows t) =
      Inr (start_extraction\<lparr>completed := [prepared_result profile oids portal rows t], extended_execution := True\<rparr>)"
    by (simp only: split fold_result_append bind_result_Inr 1 2 3 4 5)
  then show ?thesis by (simp add: extract_query_result_def prepared_idle)
qed

theorem prepared_execution_exact_witness:
  "extract_query_result PostgreSQL (prepared_messages [23] None None [] ''DELETE 4'') =
   Inr (prepared_result PostgreSQL [23] None [] ''DELETE 4'', [])"
  using prepared_execution_exact [of "[23]" None None "''DELETE 4''" "[]" PostgreSQL] by (simp add: wf_description_def)

end
