(* ===== verification/Scram.thy ===== *)
theory Scram
  imports Text_Codecs
begin

section \<open>The SCRAM-SHA-256 client\<close>

text \<open>
  \<^verbatim>\<open>core/database/postgres/scram_sha256.cpp\<close>. The digests of the crypto library are the parameter
  \<open>auth_crypto\<close>; each may fail with an exception. A member function that can throw after it has
  changed the object returns the object together with the result.
\<close>

unbundle bit_operations_syntax

record auth_crypto =
  md5 :: "bytes \<Rightarrow> bytes result"
  sha256 :: "bytes \<Rightarrow> bytes result"
  hmac_sha256 :: "bytes \<Rightarrow> bytes \<Rightarrow> bytes result"
  pbkdf2_hmac_sha256 :: "string \<Rightarrow> bytes \<Rightarrow> nat \<Rightarrow> bytes result"
  secure_random :: "nat \<Rightarrow> bytes result"

definition kMaximumIterations :: nat where
  "kMaximumIterations = 10000000"

definition kDigestSize :: nat where
  "kDigestSize = 32"

definition scram_base64_decode :: "string \<Rightarrow> bytes result" where
  "scram_base64_decode input =
     (if input = [] then Inl (Runtime_error ''invalid SCRAM base64 value'') else base64_decode input)"

lemma length_tl_dropWhile: "dropWhile P xs \<noteq> [] \<Longrightarrow> length (tl (dropWhile P xs)) < length xs"
  using length_dropWhile_le [of P xs] by (cases "dropWhile P xs") auto

function attributes_loop :: "string \<Rightarrow> (char \<rightharpoonup> string) \<Rightarrow> (char \<rightharpoonup> string) result" where
  "attributes_loop rest attributes =
     (let attribute = takeWhile (\<lambda>c. c \<noteq> CHR '','') rest;
          more = dropWhile (\<lambda>c. c \<noteq> CHR '','') rest
      in if length attribute < 3 \<or> attribute ! 1 \<noteq> CHR ''='' \<or> attributes (attribute ! 0) \<noteq> None
         then Inl (Runtime_error ''invalid SCRAM attribute list'')
         else
           let attributes = attributes(attribute ! 0 \<mapsto> drop 2 attribute)
           in if more = [] then Inr attributes else attributes_loop (tl more) attributes)"
  by pat_completeness auto
termination
  by (relation "measure (\<lambda>(rest, _). length rest)") (simp_all add: length_tl_dropWhile del: dropWhile_eq_Nil_conv length_tl)

declare attributes_loop.simps [simp del]

definition parse_attributes :: "string \<Rightarrow> (char \<rightharpoonup> string) result" where
  "parse_attributes message = attributes_loop message Map.empty"

definition escape_char :: "char \<Rightarrow> string" where
  "escape_char ch = (if ch = CHR ''='' then ''=3D'' else if ch = CHR '','' then ''=2C'' else [ch])"

definition escape_username :: "string \<Rightarrow> string" where
  "escape_username user = concat (map escape_char user)"

record scram_client =
  scram_password :: string
  client_nonce :: string
  client_first_bare :: string
  server_first :: string
  client_final_without_proof :: string
  expected_server_signature :: bytes
  server_first_received :: bool

definition ScramSha256Client :: "string \<Rightarrow> string \<Rightarrow> string \<Rightarrow> scram_client result" where
  "ScramSha256Client user password nonce =
     (if nonce = [] \<or> CHR '','' \<in> set nonce then Inl (Invalid_argument ''invalid SCRAM client nonce'')
      else Inr \<lparr>scram_password = password, client_nonce = nonce,
                client_first_bare = ''n='' @ escape_username user @ '',r='' @ nonce, server_first = [],
                client_final_without_proof = [], expected_server_signature = replicate kDigestSize NUL_byte,
                server_first_received = False\<rparr>)"

definition client_first_message :: "scram_client \<Rightarrow> string" where
  "client_first_message c = ''n,,'' @ client_first_bare c"

definition byte_xor :: "char \<Rightarrow> char \<Rightarrow> char" where
  "byte_xor a b = char_of (u8 a XOR u8 b)"

text \<open>The nonce, salt and iteration count of a server-first message.\<close>

definition server_first_fields :: "scram_client \<Rightarrow> string \<Rightarrow> (string \<times> string \<times> nat) result" where
  "server_first_fields c message =
     bind_result (parse_attributes message) (\<lambda>attributes.
       if attributes (CHR ''m'') \<noteq> None then Inl (Runtime_error ''unsupported mandatory SCRAM extension'')
       else case (attributes (CHR ''r''), attributes (CHR ''s''), attributes (CHR ''i'')) of
           (Some nonce, Some salt, Some count) \<Rightarrow>
             if \<not> starts_with nonce (client_nonce c) \<or> length nonce \<le> length (client_nonce c)
             then Inl (Runtime_error ''invalid SCRAM server-first message'')
             else (case from_chars 0 (2 ^ 32 - 1) count of
                 (e, Fc_parsed n) \<Rightarrow>
                   if e \<noteq> length count \<or> n = 0 \<or> int kMaximumIterations < n
                   then Inl (Runtime_error ''invalid SCRAM iteration count'') else Inr (nonce, salt, nat n)
               | _ \<Rightarrow> Inl (Runtime_error ''invalid SCRAM iteration count''))
         | _ \<Rightarrow> Inl (Runtime_error ''invalid SCRAM server-first message''))"

definition authentication_message :: "scram_client \<Rightarrow> string" where
  "authentication_message c = client_first_bare c @ '','' @ server_first c @ '','' @ client_final_without_proof c"

definition receive_server_first :: "auth_crypto \<Rightarrow> scram_client \<Rightarrow> string \<Rightarrow> scram_client \<times> string result" where
  "receive_server_first cr c message =
     (if server_first_received c then (c, Inl (Runtime_error ''duplicate SCRAM server-first message''))
      else case
        bind_result (server_first_fields c message) (\<lambda>(nonce, salt_value, iterations).
        bind_result (scram_base64_decode salt_value) (\<lambda>salt.
        bind_result (pbkdf2_hmac_sha256 cr (scram_password c) salt iterations) (\<lambda>salted.
        bind_result (hmac_sha256 cr salted ''Client Key'') (\<lambda>client_key.
        bind_result (sha256 cr client_key) (\<lambda>stored_key. Inr (nonce, salted, client_key, stored_key))))))
      of Inl e \<Rightarrow> (c, Inl e)
       | Inr (nonce, salted, client_key, stored_key) \<Rightarrow>
           let c = c\<lparr>server_first := message, client_final_without_proof := ''c=biws,r='' @ nonce\<rparr>;
               am = authentication_message c
           in case
             bind_result (hmac_sha256 cr stored_key am) (\<lambda>client_signature.
             bind_result (hmac_sha256 cr salted ''Server Key'') (\<lambda>server_key.
             bind_result (hmac_sha256 cr server_key am) (\<lambda>server_signature.
               Inr (map2 byte_xor client_key client_signature, server_signature))))
           of Inl e \<Rightarrow> (c, Inl e)
            | Inr (client_proof, server_signature) \<Rightarrow>
                (c\<lparr>expected_server_signature := server_signature, server_first_received := True\<rparr>,
                 bind_result (base64_encode client_proof) (\<lambda>p. Inr (client_final_without_proof c @ '',p='' @ p))))"

definition verify_server_final :: "scram_client \<Rightarrow> string \<Rightarrow> unit result" where
  "verify_server_final c message =
     (if \<not> server_first_received c then Inl (Runtime_error ''SCRAM server-final message arrived out of sequence'')
      else bind_result (parse_attributes message) (\<lambda>attributes.
        case attributes (CHR ''e'') of
          Some server_error \<Rightarrow> Inl (Runtime_error (''SCRAM authentication failed: '' @ server_error))
        | None \<Rightarrow> (case attributes (CHR ''v'') of
              None \<Rightarrow> Inl (Runtime_error ''SCRAM server signature is missing'')
            | Some verifier \<Rightarrow>
                bind_result (scram_base64_decode verifier) (\<lambda>decoded.
                  if decoded \<noteq> expected_server_signature c
                  then Inl (Runtime_error ''SCRAM server signature verification failed'') else Inr ()))))"

definition generate_scram_nonce :: "auth_crypto \<Rightarrow> string result" where
  "generate_scram_nonce cr = bind_result (secure_random cr 18) base64_encode"

subsection \<open>Attribute lists\<close>

definition put_attribute :: "char \<times> string \<Rightarrow> string" where
  "put_attribute = (\<lambda>(k, v). k # CHR ''='' # v)"

definition wf_attribute :: "char \<times> string \<Rightarrow> bool" where
  "wf_attribute = (\<lambda>(k, v). k \<noteq> CHR '','' \<and> v \<noteq> [] \<and> CHR '','' \<notin> set v)"

fun attribute_list :: "(char \<times> string) list \<Rightarrow> string" where
  "attribute_list [] = []"
| "attribute_list [a] = put_attribute a"
| "attribute_list (a # as) = put_attribute a @ '','' @ attribute_list as"

lemma attribute_split:
  assumes "wf_attribute a"
  shows "takeWhile (\<lambda>c. c \<noteq> CHR '','') (put_attribute a) = put_attribute a"
    "dropWhile (\<lambda>c. c \<noteq> CHR '','') (put_attribute a) = []"
    "takeWhile (\<lambda>c. c \<noteq> CHR '','') (put_attribute a @ CHR '','' # rest) = put_attribute a"
    "dropWhile (\<lambda>c. c \<noteq> CHR '','') (put_attribute a @ CHR '','' # rest) = CHR '','' # rest"
proof -
  have no: "\<forall>c \<in> set (put_attribute a). c \<noteq> CHR '',''"
    using assms by (cases a) (auto simp: wf_attribute_def put_attribute_def)
  then show "takeWhile (\<lambda>c. c \<noteq> CHR '','') (put_attribute a) = put_attribute a"
    "dropWhile (\<lambda>c. c \<noteq> CHR '','') (put_attribute a) = []"
    by (simp_all add: takeWhile_eq_all_conv dropWhile_eq_Nil_conv)
  from no show "takeWhile (\<lambda>c. c \<noteq> CHR '','') (put_attribute a @ CHR '','' # rest) = put_attribute a"
    by (subst takeWhile_append2) auto
  from no show "dropWhile (\<lambda>c. c \<noteq> CHR '','') (put_attribute a @ CHR '','' # rest) = CHR '','' # rest"
    by (subst dropWhile_append2) auto
qed

lemma attributes_loop_step:
  assumes "wf_attribute (k, v)" "m k = None"
  shows "attributes_loop (put_attribute (k, v)) m = Inr (m(k \<mapsto> v))"
    "attributes_loop (put_attribute (k, v) @ CHR '','' # rest) m = attributes_loop rest (m(k \<mapsto> v))"
proof -
  have p: "\<not> length (put_attribute (k, v)) < 3" "put_attribute (k, v) ! 1 = CHR ''=''" "put_attribute (k, v) ! 0 = k"
    "drop 2 (put_attribute (k, v)) = v"
    using assms(1) by (cases v; simp add: wf_attribute_def put_attribute_def)+
  show "attributes_loop (put_attribute (k, v)) m = Inr (m(k \<mapsto> v))"
    unfolding attributes_loop.simps [of "put_attribute (k, v)"] Let_def attribute_split [OF assms(1)] p
    using p assms(2) by simp
  show "attributes_loop (put_attribute (k, v) @ CHR '','' # rest) m = attributes_loop rest (m(k \<mapsto> v))"
    unfolding attributes_loop.simps [of "put_attribute (k, v) @ CHR '','' # rest"] Let_def attribute_split [OF assms(1)] p
    using p assms(2) by simp
qed

lemma attributes_loop_list:
  "as \<noteq> [] \<Longrightarrow> list_all wf_attribute as \<Longrightarrow> distinct (map fst as) \<Longrightarrow> dom m \<inter> fst ` set as = {} \<Longrightarrow>
    attributes_loop (attribute_list as) m = Inr (m ++ map_of as)"
proof (induction as arbitrary: m rule: attribute_list.induct)
  case (2 a)
  obtain k v where a: "a = (k, v)" by (cases a)
  have "m k = None" using "2.prems"(4) a by auto
  moreover have "m ++ map_of [(k, v)] = m(k \<mapsto> v)" by (intro ext) (auto simp: map_add_def)
  ultimately show ?case using a "2.prems"(2) by (simp only: attribute_list.simps list.pred_inject attributes_loop_step)
next
  case (3 a a' as)
  obtain k v where a: "a = (k, v)" by (cases a)
  have m: "m k = None" "dom (m(k \<mapsto> v)) \<inter> fst ` set (a' # as) = {}"
    using "3.prems"(3,4) a unfolding dom_fun_upd by auto
  have IH: "attributes_loop (attribute_list (a' # as)) (m(k \<mapsto> v)) = Inr (m(k \<mapsto> v) ++ map_of (a' # as))"
    by (rule "3.IH" [OF _ _ _ m(2)]) (use "3.prems"(2,3) in simp_all)
  have "k \<notin> dom (map_of (a' # as))" using "3.prems"(3) a by (auto simp: dom_map_of_conv_image_fst)
  then have "m ++ map_of (a # a' # as) = m(k \<mapsto> v) ++ map_of (a' # as)"
    unfolding a by (intro ext) (auto simp: map_add_def split: option.split)
  moreover have "attributes_loop (attribute_list (a # a' # as)) m = attributes_loop (attribute_list (a' # as)) (m(k \<mapsto> v))"
    using m(1) "3.prems"(2) a by (simp add: attributes_loop_step)
  ultimately show ?case using IH by (simp only:)
qed simp

lemma parse_attribute_list:
  "as \<noteq> [] \<Longrightarrow> list_all wf_attribute as \<Longrightarrow> distinct (map fst as) \<Longrightarrow>
    parse_attributes (attribute_list as) = Inr (map_of as)"
  using attributes_loop_list [of as Map.empty] by (simp add: parse_attributes_def)

subsection \<open>Mutual authentication\<close>

lemma u8_xor_less: "u8 a XOR u8 b < 256"
proof -
  have "take_bit 8 (u8 a XOR u8 b) = u8 a XOR u8 b"
    using u8_less [of a] u8_less [of b] by (simp add: take_bit_nat_eq_self)
  then show ?thesis using take_bit_nat_less_exp [of 8 "u8 a XOR u8 b"] by simp
qed

lemma byte_xor_cancel: "byte_xor (byte_xor a b) b = a"
  using u8_xor_less [of a b] by (simp add: byte_xor_def xor.assoc u8_char_of)

lemma map2_byte_xor_cancel: "length xs = length ys \<Longrightarrow> map2 byte_xor (map2 byte_xor xs ys) ys = xs"
  by (induction xs ys rule: list_induct2) (simp_all add: byte_xor_cancel)

text \<open>What client and server compute from the password when the library's digests succeed.\<close>

record scram_keys =
  salted_pw :: bytes
  client_key :: bytes
  stored_key :: bytes
  server_key :: bytes

definition keys_of :: "auth_crypto \<Rightarrow> string \<Rightarrow> bytes \<Rightarrow> nat \<Rightarrow> scram_keys \<Rightarrow> bool" where
  "keys_of cr pw salt n k \<longleftrightarrow>
     pbkdf2_hmac_sha256 cr pw salt n = Inr (salted_pw k) \<and>
     hmac_sha256 cr (salted_pw k) ''Client Key'' = Inr (client_key k) \<and>
     sha256 cr (client_key k) = Inr (stored_key k) \<and>
     hmac_sha256 cr (salted_pw k) ''Server Key'' = Inr (server_key k)"

definition server_first_text :: "string \<Rightarrow> string \<Rightarrow> nat \<Rightarrow> string" where
  "server_first_text nonce salt64 n =
     attribute_list [(CHR ''r'', nonce), (CHR ''s'', salt64), (CHR ''i'', to_string n)]"

definition conversation :: "string \<Rightarrow> string \<Rightarrow> string \<Rightarrow> string \<Rightarrow> nat \<Rightarrow> string" where
  "conversation user nonce server_nonce salt64 n =
     ''n='' @ escape_username user @ '',r='' @ nonce @ '','' @ server_first_text (nonce @ server_nonce) salt64 n @
     '',c=biws,r='' @ nonce @ server_nonce"

lemma digit_chars: "c \<in> set (to_string n) \<Longrightarrow> c \<noteq> CHR '',''"
  using to_string_digits [of n] by (auto simp: list_all_iff is_digit_def)

lemma server_first_fields_text:
  assumes "client_nonce c = nonce" "server_nonce \<noteq> []" "CHR '','' \<notin> set (nonce @ server_nonce)"
    "salt64 \<noteq> []" "CHR '','' \<notin> set salt64" "0 < n" "n \<le> kMaximumIterations"
  shows "server_first_fields c (server_first_text (nonce @ server_nonce) salt64 n) = Inr (nonce @ server_nonce, salt64, n)"
proof -
  have "parse_attributes (server_first_text (nonce @ server_nonce) salt64 n) =
      Inr (map_of [(CHR ''r'', nonce @ server_nonce), (CHR ''s'', salt64), (CHR ''i'', to_string n)])"
    unfolding server_first_text_def
    by (rule parse_attribute_list) (use assms digit_chars [of _ n] to_string_nonempty [of n] in \<open>auto simp: wf_attribute_def\<close>)
  moreover have "from_chars 0 (2 ^ 32 - 1) (to_string n) = (length (to_string n), Fc_parsed (int n))"
    by (rule from_chars_to_string) (use assms(7) in \<open>simp_all add: kMaximumIterations_def\<close>)
  ultimately show ?thesis using assms(1,2,6,7) by (simp add: server_first_fields_def starts_with_append)
qed

lemma kAlphabet_char: "kAlphabet ! (x AND 63) \<in> set kAlphabet"
  by (rule nth_mem) (simp only: and_mask6 length_kAlphabet mod_less_divisor zero_less_numeral)

lemma base64_blocks_chars: "set (base64_encode_blocks b) \<subseteq> insert pad (set kAlphabet)"
  by (induction b rule: base64_encode_blocks.induct)
    (simp_all only: base64_encode_blocks.simps Let_def set_append list.set Un_subset_iff insert_subset empty_subsetI
      kAlphabet_char insertI1 insertI2 simp_thms)

lemma base64_text_chars: "CHR '','' \<notin> set (base64_encode_blocks b)"
proof
  assume "CHR '','' \<in> set (base64_encode_blocks b)"
  then have "CHR '','' \<in> insert pad (set kAlphabet)" using base64_blocks_chars by blast
  then show False by (simp add: kAlphabet_def)
qed

lemma base64_blocks_nonempty: "b \<noteq> [] \<Longrightarrow> base64_encode_blocks b \<noteq> []"
  by (cases b rule: base64_encode_blocks.cases) (simp_all only: base64_encode_blocks.simps Let_def list.simps append.simps not_False_eq_True)

lemma verify_server_final_iff:
  assumes "server_first_received c"
  shows "verify_server_final c message = Inr () \<longleftrightarrow>
    (\<exists>attributes v. parse_attributes message = Inr attributes \<and> attributes (CHR ''e'') = None \<and>
       attributes (CHR ''v'') = Some v \<and> v \<noteq> [] \<and> base64_decode v = Inr (expected_server_signature c))"
proof (cases "parse_attributes message")
  case (Inr attributes)
  show ?thesis
    using assms Inr
    by (cases "attributes (CHR ''e'')"; cases "attributes (CHR ''v'')")
      (simp_all add: verify_server_final_def scram_base64_decode_def)
qed (simp add: verify_server_final_def assms)

lemma receive_server_first_text:
  assumes c: "ScramSha256Client user pw nonce = Inr c"
    and sn: "server_nonce \<noteq> []" "CHR '','' \<notin> set server_nonce"
    and salt: "salt \<noteq> []" and n: "0 < n" "n \<le> kMaximumIterations"
    and k: "keys_of cr pw salt n k"
    and am: "am = conversation user nonce server_nonce (base64_encode_blocks salt) n"
    and cs: "hmac_sha256 cr (stored_key k) am = Inr client_signature" "length client_signature = length (client_key k)"
      "length (client_key k) = kDigestSize"
    and ss: "hmac_sha256 cr (server_key k) am = Inr server_signature"
  shows "\<exists>c'. receive_server_first cr c (server_first_text (nonce @ server_nonce) (base64_encode_blocks salt) n) =
      (c', Inr (''c=biws,r='' @ nonce @ server_nonce @ '',p='' @
                base64_encode_blocks (map2 byte_xor (client_key k) client_signature))) \<and>
    server_first_received c' \<and> expected_server_signature c' = server_signature"
proof -
  let ?m = "server_first_text (nonce @ server_nonce) (base64_encode_blocks salt) n"
  have cl: "client_nonce c = nonce" "scram_password c = pw" "\<not> server_first_received c"
    "client_first_bare c = ''n='' @ escape_username user @ '',r='' @ nonce" and nonce: "CHR '','' \<notin> set nonce"
    using c by (auto simp: ScramSha256Client_def split: if_splits)
  have fields: "server_first_fields c ?m = Inr (nonce @ server_nonce, base64_encode_blocks salt, n)"
    by (rule server_first_fields_text) (use cl sn nonce salt n base64_text_chars base64_blocks_nonempty in auto)
  have dec: "scram_base64_decode (base64_encode_blocks salt) = Inr salt"
    using base64_decode_encode salt base64_blocks_nonempty by (simp add: scram_base64_decode_def)
  have am': "authentication_message (c\<lparr>server_first := ?m, client_final_without_proof := ''c=biws,r='' @ nonce @ server_nonce\<rparr>) = am"
    using cl am by (simp add: authentication_message_def conversation_def)
  have enc: "base64_encode (map2 byte_xor (client_key k) client_signature) =
      Inr (base64_encode_blocks (map2 byte_xor (client_key k) client_signature))"
    using cs by (simp add: base64_encode_def max_size_t_def kDigestSize_def)
  show ?thesis
    using k fields dec am' enc cs(1) ss cl
    by (simp add: receive_server_first_def keys_of_def Let_def)
qed

text \<open>
  C10: a SCRAM exchange authenticates both sides. Let the server send any extended nonce without a comma, a
  salt and an iteration count in range. Then the client answers with the client-final message whose
  proof, combined with the client signature, hashes to the stored key, so that a server holding it
  accepts; and the client accepts a server-final message exactly if it is an attribute list without an
  error whose \<open>v\<close> is the base64 of the server signature over this conversation.
\<close>

theorem scram_mutual_authentication:
  assumes "ScramSha256Client user pw nonce = Inr c"
    and "server_nonce \<noteq> []" "CHR '','' \<notin> set server_nonce"
    and "salt \<noteq> []" and "0 < n" "n \<le> kMaximumIterations"
    and "keys_of cr pw salt n k"
    and "am = conversation user nonce server_nonce (base64_encode_blocks salt) n"
    and "hmac_sha256 cr (stored_key k) am = Inr client_signature" "length client_signature = length (client_key k)"
      "length (client_key k) = kDigestSize"
    and "hmac_sha256 cr (server_key k) am = Inr server_signature"
  shows "\<exists>c' proof.
    receive_server_first cr c (server_first_text (nonce @ server_nonce) (base64_encode_blocks salt) n) =
      (c', Inr (''c=biws,r='' @ nonce @ server_nonce @ '',p='' @ base64_encode_blocks proof)) \<and>
    sha256 cr (map2 byte_xor proof client_signature) = Inr (stored_key k) \<and>
    (\<forall>message. verify_server_final c' message = Inr () \<longleftrightarrow>
      (\<exists>attributes v. parse_attributes message = Inr attributes \<and> attributes (CHR ''e'') = None \<and>
         attributes (CHR ''v'') = Some v \<and> v \<noteq> [] \<and> base64_decode v = Inr server_signature))"
proof -
  obtain c' where c': "receive_server_first cr c (server_first_text (nonce @ server_nonce) (base64_encode_blocks salt) n) =
      (c', Inr (''c=biws,r='' @ nonce @ server_nonce @ '',p='' @
                base64_encode_blocks (map2 byte_xor (client_key k) client_signature)))"
    "server_first_received c'" "expected_server_signature c' = server_signature"
    using receive_server_first_text [OF assms] by blast
  have "map2 byte_xor (map2 byte_xor (client_key k) client_signature) client_signature = client_key k"
    by (rule map2_byte_xor_cancel) (simp add: assms(10))
  then have "sha256 cr (map2 byte_xor (map2 byte_xor (client_key k) client_signature) client_signature) = Inr (stored_key k)"
    using assms(7) by (simp add: keys_of_def)
  with c' verify_server_final_iff [OF c'(2)] show ?thesis by (intro exI conjI) auto
qed

theorem scram_mutual_authentication_witness:
  "\<exists>c c' proof. ScramSha256Client ''u'' ''p'' ''n'' = Inr c \<and>
    receive_server_first
      \<lparr>md5 = Inr, sha256 = \<lambda>_. Inr ''h'', hmac_sha256 = \<lambda>_ _. Inr (replicate 32 (CHR ''k'')),
       pbkdf2_hmac_sha256 = \<lambda>_ _ _. Inr ''s'', secure_random = \<lambda>n. Inr (replicate n (CHR ''r''))\<rparr>
      c (server_first_text (''n'' @ ''x'') (base64_encode_blocks ''s'') 1) =
      (c', Inr (''c=biws,r='' @ ''n'' @ ''x'' @ '',p='' @ base64_encode_blocks proof)) \<and>
    (\<forall>message. verify_server_final c' message = Inr () \<longleftrightarrow>
      (\<exists>attributes v. parse_attributes message = Inr attributes \<and> attributes (CHR ''e'') = None \<and>
         attributes (CHR ''v'') = Some v \<and> v \<noteq> [] \<and> base64_decode v = Inr (replicate 32 (CHR ''k''))))"
proof -
  let ?cr = "\<lparr>md5 = Inr, sha256 = \<lambda>_. Inr ''h'', hmac_sha256 = \<lambda>_ _. Inr (replicate 32 (CHR ''k'')),
       pbkdf2_hmac_sha256 = \<lambda>_ _ _. Inr ''s'', secure_random = \<lambda>n. Inr (replicate n (CHR ''r''))\<rparr> :: auth_crypto"
  let ?k = "\<lparr>salted_pw = ''s'', client_key = replicate 32 (CHR ''k''), stored_key = ''h'', server_key = replicate 32 (CHR ''k'')\<rparr>"
  obtain c where c: "ScramSha256Client ''u'' ''p'' ''n'' = Inr c" by (simp add: ScramSha256Client_def)
  have k: "keys_of ?cr ''p'' ''s'' 1 ?k" by (simp add: keys_of_def)
  show ?thesis
    using c scram_mutual_authentication [OF c, of "''x''" "''s''" 1 ?cr ?k _ "replicate 32 (CHR ''k'')" "replicate 32 (CHR ''k'')", OF _ _ _ _ _ k refl]
    by (simp add: kMaximumIterations_def kDigestSize_def)
qed

end
