(* ===== verification/PgAuth.thy ===== *)
theory PgAuth
  imports Scram PgMessages Backend
begin

section \<open>Authentication and startup\<close>

text \<open>
  The authentication part of \<^verbatim>\<open>core/database/postgres/pg_protocol_parser.cpp\<close> and the startup loop
  \<^verbatim>\<open>perform_authentication_result\<close> of \<^verbatim>\<open>core/database/generic_database_connection.cpp\<close>. The two
  members of the parser that live across messages are the record \<open>pg_parser\<close>. Functions that can
  throw after changing them return the parser together with the result.

  The transport is a parameter of the loop: a list of reads, each a function from the number of wire
  bytes still allowed to a message or an error, and the outcome of a write.
\<close>

subsection \<open>Requests and responses\<close>

datatype auth_type = Auth_None | Auth_Cleartext | Auth_MD5 | Auth_SASL | Auth_SASLContinue | Auth_SASLFinal | Auth_Idp

record auth_request =
  auth_type :: auth_type
  challenge_data :: bytes

record pg_parser =
  scram_client :: "scram_client option"
  scram_server_verified :: bool

definition clear_authentication_state :: "pg_parser \<Rightarrow> pg_parser" where
  "clear_authentication_state p = p\<lparr>scram_client := None, scram_server_verified := False\<rparr>"

definition parse_auth_request :: "pg_parser \<Rightarrow> bytes \<Rightarrow> pg_parser \<times> auth_request result" where
  "parse_auth_request p data =
     (if length data < 4 then (p, Inl (Runtime_error ''Auth payload too short''))
      else case read_u32 data 0 of
        Inl e \<Rightarrow> (p, Inl e)
      | Inr code \<Rightarrow>
          if scram_client p \<noteq> None \<and> code \<noteq> 0 \<and> code \<noteq> 11 \<and> code \<noteq> 12
          then (p, Inl (Runtime_error ''SCRAM authentication method changed''))
          else if code = 0 \<or> code = 3 then
            if length data \<noteq> 4 then (p, Inl (Runtime_error ''Invalid authentication request length''))
            else if code = 0 \<and> scram_client p \<noteq> None then
              if \<not> scram_server_verified p
              then (p, Inl (Runtime_error ''SCRAM AuthenticationOk arrived before server verification''))
              else (clear_authentication_state p, Inr \<lparr>auth_type = Auth_None, challenge_data = []\<rparr>)
            else (p, Inr \<lparr>auth_type = if code = 0 then Auth_None else Auth_Cleartext, challenge_data = []\<rparr>)
          else if code = 5 then
            if length data \<noteq> 8 then (p, Inl (Runtime_error ''Invalid MD5 auth payload''))
            else (p, Inr \<lparr>auth_type = Auth_MD5, challenge_data = drop 4 data\<rparr>)
          else if code = 10 then (p, Inr \<lparr>auth_type = Auth_SASL, challenge_data = drop 4 data\<rparr>)
          else if code = 11 then (p, Inr \<lparr>auth_type = Auth_SASLContinue, challenge_data = drop 4 data\<rparr>)
          else if code = 12 then (p, Inr \<lparr>auth_type = Auth_SASLFinal, challenge_data = drop 4 data\<rparr>)
          else if code = 14 then (p, Inr \<lparr>auth_type = Auth_Idp, challenge_data = []\<rparr>)
          else (p, Inl (Runtime_error (''Unsupported auth method: '' @ to_string (unat code)))))"

definition md5_hex :: "auth_crypto \<Rightarrow> bytes \<Rightarrow> string result" where
  "md5_hex cr data =
     bind_result (md5 cr data) (\<lambda>md.
       let hexd = ''0123456789abcdef''
       in Inr (concat (map (\<lambda>b. [hexd ! (u8 b div 16), hexd ! (u8 b mod 16)]) md)))"

text \<open>The mechanism list of a SASL request: whether SCRAM-SHA-256 is offered, whether the list is closed.\<close>

function mechanisms_loop :: "bytes \<Rightarrow> nat \<Rightarrow> bool \<Rightarrow> (bool \<times> bool \<times> nat) result" where
  "mechanisms_loop data offset supported =
     (if offset < length data then
        (case find_from (\<lambda>c. c = NUL_byte) data offset of
           None \<Rightarrow> Inl (Runtime_error ''unterminated PostgreSQL SASL mechanism'')
         | Some e \<Rightarrow>
             let mechanism = substr offset (e - offset) data
             in if mechanism = [] then Inr (supported, True, e + 1)
                else mechanisms_loop data (e + 1) (supported \<or> mechanism = ''SCRAM-SHA-256''))
      else Inr (supported, False, offset))"
  by pat_completeness auto
termination
  by (relation "measure (\<lambda>(data, offset, _). length data - offset)") (auto dest!: find_from_bounds)

declare mechanisms_loop.simps [simp del]

definition check_mechanisms :: "bytes \<Rightarrow> unit result" where
  "check_mechanisms data =
     bind_result (mechanisms_loop data 0 False) (\<lambda>(supported, terminated, offset).
       if \<not> terminated \<or> offset \<noteq> length data then Inl (Runtime_error ''invalid PostgreSQL SASL mechanism list'')
       else if \<not> supported then Inl (Runtime_error ''server does not offer SCRAM-SHA-256'')
       else Inr ())"

text \<open>The message \<open>t\<close>, its length, a string and a NUL that the end of the function writes.\<close>

definition credential_message :: "char \<Rightarrow> string \<Rightarrow> bytes" where
  "credential_message t s = t # be32 (of_nat (4 + length s + 1)) @ s @ [NUL_byte]"

definition sasl_initial_response :: "string \<Rightarrow> bytes result" where
  "sasl_initial_response initial =
     (let (response, start) = begin_message [] (CHR ''p'')
      in finish_message (append_u32 (append_cstring response ''SCRAM-SHA-256'') (of_nat (length initial)) @ initial) start)"

definition sasl_response :: "string \<Rightarrow> bytes result" where
  "sasl_response final =
     (let (response, start) = begin_message [] (CHR ''p'') in finish_message (response @ final) start)"

definition respond_sasl :: "auth_crypto \<Rightarrow> pg_parser \<Rightarrow> bytes \<Rightarrow> string \<Rightarrow> string \<Rightarrow> nat \<Rightarrow> pg_parser \<times> bytes result" where
  "respond_sasl cr p challenge password user max_wire_bytes =
     (if scram_client p \<noteq> None then (p, Inl (Runtime_error ''duplicate SCRAM mechanism offer''))
      else case check_mechanisms challenge of
        Inl e \<Rightarrow> (p, Inl e)
      | Inr _ \<Rightarrow>
          let p = p\<lparr>scram_server_verified := False\<rparr>
          in case bind_result (generate_scram_nonce cr) (ScramSha256Client user password) of
            Inl e \<Rightarrow> (p, Inl e)
          | Inr c \<Rightarrow>
              let p = p\<lparr>scram_client := Some c\<rparr>; initial = client_first_message c
              in if max_wire_bytes < 23 \<or> max_wire_bytes - 23 < length initial then (p, Inl Request_wire_limit_exceeded)
                 else (p, sasl_initial_response initial))"

definition respond_sasl_continue :: "auth_crypto \<Rightarrow> pg_parser \<Rightarrow> bytes \<Rightarrow> nat \<Rightarrow> pg_parser \<times> bytes result" where
  "respond_sasl_continue cr p challenge max_wire_bytes =
     (case scram_client p of
        None \<Rightarrow> (p, Inl (Runtime_error ''SCRAM continuation arrived out of sequence''))
      | Some c \<Rightarrow>
          let (c, r) = receive_server_first cr c challenge;
              p = p\<lparr>scram_client := Some c\<rparr>
          in case r of
            Inl e \<Rightarrow> (p, Inl e)
          | Inr final \<Rightarrow>
              if max_wire_bytes < 5 \<or> max_wire_bytes - 5 < length final then (p, Inl Request_wire_limit_exceeded)
              else (p, sasl_response final))"

definition respond_sasl_final :: "pg_parser \<Rightarrow> bytes \<Rightarrow> pg_parser \<times> bytes result" where
  "respond_sasl_final p challenge =
     (case scram_client p of
        None \<Rightarrow> (p, Inl (Runtime_error ''SCRAM final message arrived out of sequence''))
      | Some c \<Rightarrow>
          if scram_server_verified p then (p, Inl (Runtime_error ''SCRAM final message arrived out of sequence''))
          else case verify_server_final c challenge of
              Inl e \<Rightarrow> (p, Inl e)
            | Inr _ \<Rightarrow> (p\<lparr>scram_server_verified := True\<rparr>, Inr []))"

definition respond_md5 :: "auth_crypto \<Rightarrow> bytes \<Rightarrow> string \<Rightarrow> string \<Rightarrow> nat \<Rightarrow> bytes result" where
  "respond_md5 cr salt password user max_wire_bytes =
     (if max_wire_bytes < 41 then Inl Request_wire_limit_exceeded
      else if length salt \<noteq> 4 then Inl (Invalid_argument ''PostgreSQL MD5 salt must be four bytes'')
      else bind_result (md5_hex cr (password @ user)) (\<lambda>step1.
           bind_result (md5_hex cr (step1 @ salt)) (\<lambda>step2. Inr (credential_message (CHR ''p'') (''md5'' @ step2)))))"

definition create_auth_response ::
  "auth_crypto \<Rightarrow> pg_parser \<Rightarrow> auth_request \<Rightarrow> string \<Rightarrow> string \<Rightarrow> bool \<Rightarrow> nat \<Rightarrow> pg_parser \<times> bytes result" where
  "create_auth_response cr p request password user peer_identity_verified max_wire_bytes =
     (if NUL_byte \<in> set password \<or> NUL_byte \<in> set user
      then (p, Inl (Invalid_argument ''PostgreSQL authentication credential contains an embedded NUL byte''))
      else if scram_client p \<noteq> None \<and> (auth_type request = Auth_Cleartext \<or> auth_type request = Auth_MD5)
      then (p, Inl (Runtime_error ''SCRAM authentication method changed''))
      else case auth_type request of
          Auth_None \<Rightarrow>
            if scram_client p \<noteq> None \<and> \<not> scram_server_verified p
            then (p, Inl (Runtime_error ''SCRAM AuthenticationOk arrived before server verification''))
            else (clear_authentication_state p, Inr [])
        | Auth_Cleartext \<Rightarrow>
            if \<not> peer_identity_verified
            then (p, Inl (Runtime_error ''PostgreSQL cleartext password authentication requires verified TLS''))
            else if max_wire_bytes < 6 \<or> max_wire_bytes - 6 < length password then (p, Inl Request_wire_limit_exceeded)
            else (p, Inr (credential_message (CHR ''p'') password))
        | Auth_MD5 \<Rightarrow> (p, respond_md5 cr (challenge_data request) password user max_wire_bytes)
        | Auth_SASL \<Rightarrow> respond_sasl cr p (challenge_data request) password user max_wire_bytes
        | Auth_SASLContinue \<Rightarrow> respond_sasl_continue cr p (challenge_data request) max_wire_bytes
        | Auth_SASLFinal \<Rightarrow> respond_sasl_final p (challenge_data request)
        | Auth_Idp \<Rightarrow>
            if \<not> peer_identity_verified
            then (p, Inl (Runtime_error ''Native IdP token authentication requires verified TLS''))
            else if max_wire_bytes < 6 \<or> max_wire_bytes - 6 < length password then (p, Inl Request_wire_limit_exceeded)
            else (p, Inr (credential_message (CHR ''i'') password)))"

record authentication =
  raw_code :: "32 word"
  md5_salt :: bytes

definition decode_auth :: "bytes \<Rightarrow> authentication result" where
  "decode_auth payload =
     (if length payload < 4 then Inl (Runtime_error ''Auth payload too short'')
      else bind_result (read_u32 payload 0) (\<lambda>code.
        Inr \<lparr>raw_code = code,
             md5_salt = if code = 5 \<and> 8 \<le> length payload then substr 4 4 payload else replicate 4 NUL_byte\<rparr>))"

subsection \<open>The startup loop\<close>

text \<open>A null-terminated key and value that fill the payload.\<close>

definition record_parameter_status :: "bytes \<Rightarrow> (string \<rightharpoonup> string) \<Rightarrow> (string \<rightharpoonup> string) option" where
  "record_parameter_status payload params =
     (case find_from (\<lambda>c. c = NUL_byte) payload 0 of
        None \<Rightarrow> None
      | Some key_end \<Rightarrow>
          (case find_from (\<lambda>c. c = NUL_byte) payload (key_end + 1) of
             None \<Rightarrow> None
           | Some value_end \<Rightarrow>
               if key_end = 0 \<or> value_end + 1 \<noteq> length payload then None
               else Some (params(substr 0 key_end payload \<mapsto> substr (key_end + 1) (value_end - (key_end + 1)) payload))))"

record login_settings =
  login_user :: string
  login_password :: string
  native_idp_token :: "string option"
  identity_verified :: bool
  max_auth_wire_bytes :: nat
  max_startup_messages :: nat
  max_startup_wire_bytes :: nat

record login_state =
  parser :: pg_parser
  authenticated :: bool
  server_params :: "string \<rightharpoonup> string"
  login_session_state :: session_state
  backend_keys :: "bytes list"
  sent :: "bytes list"
  startup_bytes :: nat
  startup_messages :: nat

type_synonym io_failure = "error_code \<times> string"
type_synonym wire_read = "nat \<Rightarrow> io_failure + bytes"

datatype login_result = Login_ready | Login_failed backend_error | Login_waiting

datatype login_step = Proceed login_state | Done login_state login_result

text \<open>The \<^verbatim>\<open>failure\<close> lambda.\<close>

definition startup_failure :: "bool \<Rightarrow> error_code \<Rightarrow> string \<Rightarrow> backend_error" where
  "startup_failure auth c message =
     (BackendError c message)\<lparr>err_operation := if auth then Op_Startup else Op_Authenticate\<rparr>"

definition what :: "error \<Rightarrow> string" where
  "what e = (case e of
       Runtime_error m \<Rightarrow> m | Invalid_argument m \<Rightarrow> m | Length_error m \<Rightarrow> m
     | Request_wire_limit_exceeded \<Rightarrow> ''Database encoded request limit exceeded'')"

text \<open>The \<^verbatim>\<open>catch\<close> clauses of the loop.\<close>

definition startup_exception :: "bool \<Rightarrow> error \<Rightarrow> backend_error" where
  "startup_exception auth e =
     (if e = Request_wire_limit_exceeded
      then startup_failure auth (Db_code ResourceLimit) ''Database authentication request limit exceeded''
      else startup_failure auth (Db_code ProtocolError) (''Invalid authentication exchange: '' @ what e))"

definition fail_login :: "login_state \<Rightarrow> db_error_code \<Rightarrow> string \<Rightarrow> login_step" where
  "fail_login st c message = Done st (Login_failed (startup_failure (authenticated st) (Db_code c) message))"

definition throw_login :: "login_state \<Rightarrow> error \<Rightarrow> login_step" where
  "throw_login st e = Done st (Login_failed (startup_exception (authenticated st) e))"

definition credential :: "login_settings \<Rightarrow> string" where
  "credential se = (case native_idp_token se of Some token \<Rightarrow> token | None \<Rightarrow> login_password se)"

definition on_authentication ::
  "auth_crypto \<Rightarrow> (bytes \<Rightarrow> io_failure option) \<Rightarrow> login_settings \<Rightarrow> login_state \<Rightarrow> bytes \<Rightarrow> login_step" where
  "on_authentication cr wr se st payload =
     (if authenticated st then fail_login st ProtocolError ''Authentication request arrived after AuthenticationOk''
      else
        let (p, r) = parse_auth_request (parser st) payload; st = st\<lparr>parser := p\<rparr>
        in case r of
          Inl e \<Rightarrow> throw_login st e
        | Inr req \<Rightarrow>
            if auth_type req = Auth_None then Proceed (st\<lparr>authenticated := True\<rparr>)
            else
              let (p, r) = create_auth_response cr p req (credential se) (login_user se) (identity_verified se)
                             (max_auth_wire_bytes se);
                  st = st\<lparr>parser := p\<rparr>
              in case r of
                Inl e \<Rightarrow> throw_login st e
              | Inr response \<Rightarrow>
                  if response = [] then Proceed st
                  else case wr response of
                      Some (c, message) \<Rightarrow> Done st (Login_failed (startup_failure False c message))
                    | None \<Rightarrow> Proceed (st\<lparr>sent := sent st @ [response]\<rparr>))"

definition on_startup_error :: "login_state \<Rightarrow> pg_message \<Rightarrow> login_step" where
  "on_startup_error st msg =
     (case bind_result (extract_error_message msg) (\<lambda>message.
           bind_result (extract_error_sqlstate msg) (\<lambda>sqlstate. Inr (message, sqlstate))) of
        Inl e \<Rightarrow> throw_login st e
      | Inr (message, sqlstate) \<Rightarrow>
          let authentication_error = (\<not> authenticated st \<or> starts_with sqlstate ''28'')
          in Done st (Login_failed
            ((startup_failure (authenticated st)
               (Db_code (if authentication_error then AuthenticationFailed else ConnectionFailed))
               ((if authentication_error then ''Authentication failed: '' else ''Startup failed: '') @ message))
             \<lparr>native_state := Some sqlstate,
              err_operation := if authentication_error then Op_Authenticate else Op_Startup\<rparr>)))"

definition ready_state :: "bytes \<Rightarrow> session_state" where
  "ready_state payload =
     (if length payload \<noteq> 1 then State_Unknown
      else if payload ! 0 = CHR ''I'' then Idle
      else if payload ! 0 = CHR ''T'' then In_Transaction
      else FailedTransaction)"

definition on_startup_message ::
  "auth_crypto \<Rightarrow> (bytes \<Rightarrow> io_failure option) \<Rightarrow> login_settings \<Rightarrow> login_state \<Rightarrow> pg_message \<Rightarrow> login_step" where
  "on_startup_message cr wr se st msg =
     (if tag msg = CHR ''R'' then on_authentication cr wr se st (body msg)
      else if tag msg = CHR ''S'' then
        if \<not> authenticated st then fail_login st ProtocolError ''ParameterStatus arrived before AuthenticationOk''
        else (case record_parameter_status (body msg) (server_params st) of
            None \<Rightarrow> fail_login st ProtocolError ''Malformed PostgreSQL ParameterStatus message''
          | Some params \<Rightarrow> Proceed (st\<lparr>server_params := params\<rparr>))
      else if tag msg = CHR ''K'' then
        if \<not> authenticated st then fail_login st ProtocolError ''BackendKeyData arrived before AuthenticationOk''
        else Proceed (st\<lparr>backend_keys := backend_keys st @ [body msg]\<rparr>)
      else if is_error_response msg then on_startup_error st msg
      else case is_ready_for_query msg of
          Inl e \<Rightarrow> throw_login st e
        | Inr True \<Rightarrow>
            if \<not> authenticated st then fail_login st ProtocolError ''ReadyForQuery arrived before AuthenticationOk''
            else Done (st\<lparr>login_session_state := ready_state (body msg)\<rparr>) Login_ready
        | Inr False \<Rightarrow>
            if tag msg = CHR ''N'' \<and> authenticated st then Proceed st
            else fail_login st ProtocolError ''Unexpected PostgreSQL startup message'')"

text \<open>One turn of the loop: the message limit, the read, the frame, the message.\<close>

definition login_turn ::
  "auth_crypto \<Rightarrow> (bytes \<Rightarrow> io_failure option) \<Rightarrow> login_settings \<Rightarrow> login_state \<Rightarrow> wire_read \<Rightarrow> login_step" where
  "login_turn cr wr se st rd =
     (case rd (max_startup_wire_bytes se - startup_bytes st) of
        Inl (c, message) \<Rightarrow> Done st (Login_failed (startup_failure (authenticated st) c message))
      | Inr data \<Rightarrow>
          let st = st\<lparr>startup_bytes := startup_bytes st + length data, startup_messages := startup_messages st + 1\<rparr>
          in case parse_message data of
            Inl e \<Rightarrow> throw_login st e
          | Inr msg \<Rightarrow> on_startup_message cr wr se st msg)"

fun perform_authentication ::
  "auth_crypto \<Rightarrow> (bytes \<Rightarrow> io_failure option) \<Rightarrow> login_settings \<Rightarrow> login_state \<Rightarrow> wire_read list \<Rightarrow> login_state \<times> login_result" where
  "perform_authentication cr wr se st reads =
     (if startup_messages st = max_startup_messages se
      then (st, Login_failed (startup_failure (authenticated st) (Db_code ResourceLimit) ''Database startup message limit exceeded''))
      else case reads of
          [] \<Rightarrow> (st, Login_waiting)
        | rd # rest \<Rightarrow>
            (case login_turn cr wr se st rd of
               Done st r \<Rightarrow> (st, r)
             | Proceed st \<Rightarrow> perform_authentication cr wr se st rest))"

declare perform_authentication.simps [simp del]

definition login_start :: login_state where
  "login_start =
     \<lparr>parser = \<lparr>scram_client = None, scram_server_verified = False\<rparr>, authenticated = False, server_params = Map.empty,
      login_session_state = Disconnected, backend_keys = [], sent = [], startup_bytes = 0, startup_messages = 0\<rparr>"

subsection \<open>The server proves its identity before a SCRAM login is ready\<close>

text \<open>The authentication requests a run of the loop has handled.\<close>

definition request_of :: "login_settings \<Rightarrow> login_state \<Rightarrow> wire_read \<Rightarrow> auth_request list" where
  "request_of se st rd =
     (case bind_result (map_sum (\<lambda>(c, m). Runtime_error m) id (rd (max_startup_wire_bytes se - startup_bytes st))) parse_message of
        Inl e \<Rightarrow> []
      | Inr msg \<Rightarrow>
          if tag msg \<noteq> CHR ''R'' then []
          else (case snd (parse_auth_request (parser st) (body msg)) of Inl e \<Rightarrow> [] | Inr req \<Rightarrow> [req]))"

fun requests ::
  "auth_crypto \<Rightarrow> (bytes \<Rightarrow> io_failure option) \<Rightarrow> login_settings \<Rightarrow> login_state \<Rightarrow> wire_read list \<Rightarrow> auth_request list" where
  "requests cr wr se st [] = []"
| "requests cr wr se st (rd # rest) =
     request_of se st rd @
     (case login_turn cr wr se st rd of Done st' r \<Rightarrow> [] | Proceed st' \<Rightarrow> requests cr wr se st' rest)"

text \<open>A client that has received a server-first message in this login, and was given its credential.\<close>

definition genuine :: "auth_crypto \<Rightarrow> login_settings \<Rightarrow> scram_client \<Rightarrow> bool" where
  "genuine cr se c \<longleftrightarrow>
     (\<exists>nonce c0 m r. ScramSha256Client (login_user se) (credential se) nonce = Inr c0 \<and>
        receive_server_first cr c0 m = (c, Inr r))"

definition started :: "auth_crypto \<Rightarrow> login_settings \<Rightarrow> scram_client \<Rightarrow> bool" where
  "started cr se c \<longleftrightarrow>
     (\<exists>nonce. ScramSha256Client (login_user se) (credential se) nonce = Inr c) \<or> genuine cr se c"

definition asked :: "auth_type \<Rightarrow> auth_request list \<Rightarrow> bool" where
  "asked t rs \<longleftrightarrow> list_ex (\<lambda>r. auth_type r = t) rs"

definition server_verified :: "auth_crypto \<Rightarrow> login_settings \<Rightarrow> auth_request list \<Rightarrow> bool" where
  "server_verified cr se rs \<longleftrightarrow>
     (\<exists>c r. genuine cr se c \<and> r \<in> set rs \<and> auth_type r = Auth_SASLFinal \<and> verify_server_final c (challenge_data r) = Inr ())"

definition history_ok :: "auth_crypto \<Rightarrow> login_settings \<Rightarrow> auth_request list \<Rightarrow> login_state \<Rightarrow> bool" where
  "history_ok cr se rs st \<longleftrightarrow>
     (authenticated st \<longrightarrow> asked Auth_None rs) \<and>
     (asked Auth_Cleartext rs \<or> asked Auth_Idp rs \<longrightarrow> identity_verified se) \<and>
     (case scram_client (parser st) of
        None \<Rightarrow> asked Auth_SASL rs \<longrightarrow> server_verified cr se rs
      | Some c \<Rightarrow> \<not> authenticated st \<and> started cr se c \<and> (scram_server_verified (parser st) \<longrightarrow> server_verified cr se rs))"

lemma asked_append [simp]:
  "asked t [] \<longleftrightarrow> False" "asked t (rs @ rs') \<longleftrightarrow> asked t rs \<or> asked t rs'" "asked t [r] \<longleftrightarrow> auth_type r = t"
  by (simp_all add: asked_def)

lemma server_verified_append: "server_verified cr se rs \<Longrightarrow> server_verified cr se (rs @ rs')"
  by (auto simp: server_verified_def)

lemma started_verified:
  assumes "started cr se c" "verify_server_final c f = Inr ()"
  shows "genuine cr se c"
  using assms by (auto simp: started_def verify_server_final_def ScramSha256Client_def split: if_splits)

lemma receive_server_first_once:
  assumes "receive_server_first cr c m = (c', Inr r)"
  shows "\<not> server_first_received c"
  using assms by (auto simp: receive_server_first_def split: if_splits)

lemma genuine_received: "genuine cr se c \<Longrightarrow> server_first_received c"
  by (auto simp: genuine_def receive_server_first_def Let_def split: if_splits sum.splits prod.splits)

lemma started_continue:
  assumes "started cr se c" "receive_server_first cr c m = (c', Inr r)"
  shows "started cr se c'"
proof -
  have "\<not> genuine cr se c" using receive_server_first_once [OF assms(2)] genuine_received by blast
  with assms show ?thesis by (auto simp: started_def genuine_def)
qed

text \<open>What a handled request does to the parser and the history.\<close>

lemma parse_auth_request_cases:
  assumes "parse_auth_request p data = (p', Inr req)"
  shows "(auth_type req = Auth_None \<and> scram_client p' = None \<and> (scram_client p = None \<or> scram_server_verified p)) \<or>
    (auth_type req \<noteq> Auth_None \<and> p' = p \<and> (scram_client p \<noteq> None \<longrightarrow> auth_type req \<in> {Auth_SASLContinue, Auth_SASLFinal}))"
  using assms
  by (auto simp: parse_auth_request_def clear_authentication_state_def split: if_splits sum.splits)

lemma history_ok_none:
  assumes "history_ok cr se rs st" "parse_auth_request (parser st) data = (p', Inr req)" "auth_type req = Auth_None"
  shows "history_ok cr se (rs @ [req]) (st\<lparr>parser := p', authenticated := True\<rparr>)"
  using assms(1,3) parse_auth_request_cases [OF assms(2)]
  by (auto simp: history_ok_def intro: server_verified_append split: option.splits)

lemma respond_sasl_client:
  assumes "respond_sasl cr p challenge password user lim = (p', Inr b)"
  shows "\<exists>c. scram_client p' = Some c \<and> \<not> scram_server_verified p' \<and> (\<exists>nonce. ScramSha256Client user password nonce = Inr c)"
  using assms by (auto simp: respond_sasl_def Let_def split: if_splits sum.splits)

lemma history_ok_response:
  assumes h: "history_ok cr se rs st" and p: "parse_auth_request (parser st) data = (p, Inr req)"
    and a: "\<not> authenticated st" and t: "auth_type req \<noteq> Auth_None"
    and r: "create_auth_response cr p req (credential se) (login_user se) (identity_verified se) lim = (p', Inr b)"
  shows "history_ok cr se (rs @ [req]) (st\<lparr>parser := p'\<rparr>)"
proof -
  have p: "p = parser st" and sc: "scram_client p \<noteq> None \<longrightarrow> auth_type req \<in> {Auth_SASLContinue, Auth_SASLFinal}"
    using parse_auth_request_cases [OF p] t by auto
  have pre: "asked Auth_Cleartext rs \<or> asked Auth_Idp rs \<longrightarrow> identity_verified se" using h by (simp add: history_ok_def)
  show ?thesis
  proof (cases "auth_type req")
    case Auth_SASL
    then have none: "scram_client p = None" using sc by auto
    have "respond_sasl cr p (challenge_data req) (credential se) (login_user se) lim = (p', Inr b)"
      using r Auth_SASL by (auto simp: create_auth_response_def split: if_splits)
    from respond_sasl_client [OF this] obtain c where "scram_client p' = Some c" "\<not> scram_server_verified p'"
      "\<exists>nonce. ScramSha256Client (login_user se) (credential se) nonce = Inr c" by blast
    with pre a Auth_SASL show ?thesis by (auto simp: history_ok_def started_def)
  next
    case Auth_SASLContinue
    then obtain c c' f where c: "scram_client p = Some c" "receive_server_first cr c (challenge_data req) = (c', Inr f)"
      "p' = p\<lparr>scram_client := Some c'\<rparr>"
      using r by (auto simp: create_auth_response_def respond_sasl_continue_def Let_def split: if_splits sum.splits option.splits prod.splits)
    have "started cr se c'" by (rule started_continue [OF _ c(2)]) (use h c(1) p in \<open>auto simp: history_ok_def\<close>)
    with pre a Auth_SASLContinue h c p show ?thesis by (auto simp: history_ok_def intro: server_verified_append)
  next
    case Auth_SASLFinal
    then obtain c where c: "scram_client p = Some c" "verify_server_final c (challenge_data req) = Inr ()"
      "p' = p\<lparr>scram_server_verified := True\<rparr>"
      using r by (auto simp: create_auth_response_def respond_sasl_final_def split: if_splits sum.splits option.splits)
    then have "genuine cr se c" using h p started_verified by (auto simp: history_ok_def)
    with c Auth_SASLFinal have "server_verified cr se (rs @ [req])" by (auto simp: server_verified_def)
    with pre a Auth_SASLFinal h c p show ?thesis by (auto simp: history_ok_def)
  qed (use r t pre a h p sc in \<open>auto simp: create_auth_response_def history_ok_def intro: server_verified_append split: if_splits option.splits\<close>)
qed

lemma history_ok_counters [simp]:
  "history_ok cr se rs (st\<lparr>startup_bytes := a, startup_messages := b\<rparr>) = history_ok cr se rs st"
  "history_ok cr se rs (st\<lparr>sent := xs\<rparr>) = history_ok cr se rs st"
  "history_ok cr se rs (st\<lparr>server_params := ps\<rparr>) = history_ok cr se rs st"
  "history_ok cr se rs (st\<lparr>backend_keys := ks\<rparr>) = history_ok cr se rs st"
  "history_ok cr se rs (st\<lparr>login_session_state := x\<rparr>) = history_ok cr se rs st"
  by (simp_all add: history_ok_def split: option.split)

lemma on_authentication_history:
  assumes h: "history_ok cr se rs st" and s: "on_authentication cr wr se st payload = Proceed st'"
  shows "\<exists>req. snd (parse_auth_request (parser st) payload) = Inr req \<and> history_ok cr se (rs @ [req]) st'"
proof -
  obtain p req where p: "parse_auth_request (parser st) payload = (p, Inr req)" and a: "\<not> authenticated st"
    using s by (auto simp: on_authentication_def fail_login_def throw_login_def Let_def split: if_splits prod.splits sum.splits)
  show ?thesis
  proof (cases "auth_type req = Auth_None")
    case True
    then have "st' = st\<lparr>parser := p, authenticated := True\<rparr>"
      using s a p by (simp add: on_authentication_def)
    with history_ok_none [OF h p True] p show ?thesis by simp
  next
    case False
    obtain p' b where r: "create_auth_response cr p req (credential se) (login_user se) (identity_verified se) (max_auth_wire_bytes se) = (p', Inr b)"
      and st': "st' = st\<lparr>parser := p'\<rparr> \<or> st' = st\<lparr>parser := p', sent := sent st @ [b]\<rparr>"
      using s a p False
      by (auto simp: on_authentication_def throw_login_def Let_def split: if_splits prod.splits sum.splits option.splits)
    with history_ok_response [OF h p a False r] p show ?thesis by auto
  qed
qed

lemma login_turn_history:
  assumes h: "history_ok cr se rs st" and s: "login_turn cr wr se st rd = Proceed st'"
  shows "history_ok cr se (rs @ request_of se st rd) st'"
proof -
  obtain data msg where rd: "rd (max_startup_wire_bytes se - startup_bytes st) = Inr data" and m: "parse_message data = Inr msg"
    using s by (auto simp: login_turn_def throw_login_def Let_def split: sum.splits)
  let ?st = "st\<lparr>startup_bytes := startup_bytes st + length data, startup_messages := startup_messages st + 1\<rparr>"
  have st: "on_startup_message cr wr se ?st msg = Proceed st'" using s rd m by (simp add: login_turn_def)
  have h': "history_ok cr se rs ?st" using h by simp
  show ?thesis
  proof (cases "tag msg = CHR ''R''")
    case True
    then have "on_authentication cr wr se ?st (body msg) = Proceed st'" using st by (simp add: on_startup_message_def)
    from on_authentication_history [OF h' this] True rd m show ?thesis by (auto simp: request_of_def)
  next
    case False
    then show ?thesis using st h rd m
      by (auto simp: request_of_def on_startup_message_def fail_login_def throw_login_def on_startup_error_def Let_def
          split: if_splits option.splits sum.splits bool.splits)
  qed
qed

lemma login_turn_ready:
  assumes "login_turn cr wr se st rd = Done st' Login_ready"
  shows "authenticated st' \<and> authenticated st \<and> parser st' = parser st \<and> request_of se st rd = []"
proof -
  obtain data msg where rd: "rd (max_startup_wire_bytes se - startup_bytes st) = Inr data" and m: "parse_message data = Inr msg"
    using assms by (auto simp: login_turn_def throw_login_def Let_def split: sum.splits)
  show ?thesis using assms rd m
    by (auto simp: login_turn_def request_of_def on_startup_message_def on_authentication_def fail_login_def throw_login_def
        on_startup_error_def Let_def split: if_splits option.splits sum.splits bool.splits prod.splits)
qed

lemma perform_authentication_history:
  "history_ok cr se rs st \<Longrightarrow> perform_authentication cr wr se st reads = (st', Login_ready) \<Longrightarrow>
    authenticated st' \<and> history_ok cr se (rs @ requests cr wr se st reads) st'"
proof (induction reads arbitrary: rs st)
  case Nil
  then show ?case by (simp add: perform_authentication.simps split: if_splits)
next
  case (Cons rd rest)
  show ?case
  proof (cases "login_turn cr wr se st rd")
    case (Proceed st1)
    have "history_ok cr se (rs @ request_of se st rd) st1" by (rule login_turn_history [OF Cons.prems(1) Proceed])
    moreover have "perform_authentication cr wr se st1 rest = (st', Login_ready)"
      using Cons.prems(2) Proceed by (simp add: perform_authentication.simps [of _ _ _ st] split: if_splits)
    ultimately show ?thesis using Cons.IH Proceed by fastforce
  next
    case (Done st1 r)
    then have d: "login_turn cr wr se st rd = Done st' Login_ready"
      using Cons.prems(2) by (simp add: perform_authentication.simps [of _ _ _ st] split: if_splits)
    from login_turn_ready [OF d] Cons.prems(1) Done show ?thesis by (auto simp: history_ok_def split: option.splits)
  qed
qed



subsection \<open>Without a verified peer the credential leaves only as a digest\<close>

text \<open>Two credentials the digests of the exchange do not tell apart.\<close>

definition indistinguishable :: "auth_crypto \<Rightarrow> string \<Rightarrow> string \<Rightarrow> string \<Rightarrow> bool" where
  "indistinguishable cr user a b \<longleftrightarrow>
     NUL_byte \<notin> set a \<and> NUL_byte \<notin> set b \<and> md5 cr (a @ user) = md5 cr (b @ user) \<and>
     (\<forall>salt n. pbkdf2_hmac_sha256 cr a salt n = pbkdf2_hmac_sha256 cr b salt n)"

definition client_with :: "string \<Rightarrow> scram_client \<Rightarrow> scram_client" where
  "client_with pw c = c\<lparr>scram_password := pw\<rparr>"

definition parser_with :: "string \<Rightarrow> pg_parser \<Rightarrow> pg_parser" where
  "parser_with pw p = p\<lparr>scram_client := map_option (client_with pw) (scram_client p)\<rparr>"

definition state_with :: "string \<Rightarrow> login_state \<Rightarrow> login_state" where
  "state_with pw st = st\<lparr>parser := parser_with pw (parser st)\<rparr>"

text \<open>Two runs of a function agree up to the stored credential.\<close>

definition agree :: "string \<Rightarrow> string \<Rightarrow> pg_parser \<times> 'a \<Rightarrow> pg_parser \<times> 'a \<Rightarrow> bool" where
  "agree a b x y \<longleftrightarrow> (\<exists>p. x = (parser_with a p, snd y) \<and> y = (parser_with b p, snd y))"

lemma agreeI: "x = (parser_with a p, r) \<Longrightarrow> y = (parser_with b p, r) \<Longrightarrow> agree a b x y"
  by (auto simp: agree_def)

lemma parser_with_simps [simp]:
  "scram_client (parser_with pw p) = None \<longleftrightarrow> scram_client p = None"
  "scram_client (parser_with pw p) = map_option (client_with pw) (scram_client p)"
  "scram_server_verified (parser_with pw p) = scram_server_verified p"
  "(parser_with pw p)\<lparr>scram_server_verified := v\<rparr> = parser_with pw (p\<lparr>scram_server_verified := v\<rparr>)"
  "clear_authentication_state (parser_with pw p) = parser_with pw (clear_authentication_state p)"
  "(parser_with pw p)\<lparr>scram_client := Some (client_with pw c)\<rparr> = parser_with pw (p\<lparr>scram_client := Some c\<rparr>)"
  by (simp_all add: parser_with_def clear_authentication_state_def)

lemma parse_auth_request_agree: "agree a b (parse_auth_request (parser_with a p) data) (parse_auth_request (parser_with b p) data)"
proof -
  have "parse_auth_request (parser_with pw p) data = map_prod (parser_with pw) id (parse_auth_request p data)" for pw
    by (simp add: parse_auth_request_def split: sum.split)
  then show ?thesis by (cases "parse_auth_request p data") (auto intro: agreeI)
qed

lemma receive_server_first_agree:
  assumes "\<forall>salt n. pbkdf2_hmac_sha256 cr a salt n = pbkdf2_hmac_sha256 cr b salt n"
  shows "\<exists>c' r. receive_server_first cr (client_with a c) m = (client_with a c', r) \<and>
    receive_server_first cr (client_with b c) m = (client_with b c', r)"
proof -
  define c1 where "c1 = (\<lambda>nonce. c\<lparr>server_first := m, client_final_without_proof := ''c=biws,r='' @ nonce\<rparr>)"
  have n: "client_nonce (client_with pw c) = client_nonce c" for pw by (simp add: client_with_def)
  have ff: "server_first_fields (client_with pw c) m = server_first_fields c m" for pw
    unfolding server_first_fields_def n ..
  have f: "server_first_received (client_with pw c) = server_first_received c"
    "(client_with pw c)\<lparr>server_first := m, client_final_without_proof := ''c=biws,r='' @ nonce\<rparr> = client_with pw (c1 nonce)"
    "authentication_message (client_with pw (c1 nonce)) = authentication_message (c1 nonce)"
    "client_final_without_proof (client_with pw (c1 nonce)) = client_final_without_proof (c1 nonce)"
    "(client_with pw (c1 nonce))\<lparr>expected_server_signature := sig, server_first_received := True\<rparr> =
      client_with pw ((c1 nonce)\<lparr>expected_server_signature := sig, server_first_received := True\<rparr>)"
    "scram_password (client_with pw c) = pw" for pw nonce sig
    by (simp_all add: client_with_def c1_def authentication_message_def)
  show ?thesis
    unfolding receive_server_first_def ff f Let_def
    using assms by (auto split: sum.split prod.split simp: f)
qed

lemma respond_sasl_agree:
  "agree a b (respond_sasl cr (parser_with a p) ch a user lim) (respond_sasl cr (parser_with b p) ch b user lim)"
proof -
  define mk where "mk = (\<lambda>pw. bind_result (generate_scram_nonce cr) (ScramSha256Client user pw))"
  have mk: "(\<exists>e. mk a = Inl e \<and> mk b = Inl e) \<or> (\<exists>c. mk a = Inr (client_with a c) \<and> mk b = Inr (client_with b c))"
  proof (cases "generate_scram_nonce cr")
    case (Inr nonce)
    have "ScramSha256Client user pw nonce = map_sum id (client_with pw) (ScramSha256Client user [] nonce)" for pw
      by (simp add: ScramSha256Client_def client_with_def)
    then show ?thesis using Inr by (cases "ScramSha256Client user [] nonce") (auto simp: mk_def)
  qed (simp add: mk_def)
  have first: "client_first_message (client_with pw c) = client_first_message c" for pw c
    by (simp add: client_first_message_def client_with_def)
  have resp: "respond_sasl cr (parser_with pw p) ch pw user lim =
    (if scram_client p \<noteq> None then (parser_with pw p, Inl (Runtime_error ''duplicate SCRAM mechanism offer''))
     else case check_mechanisms ch of
       Inl e \<Rightarrow> (parser_with pw p, Inl e)
     | Inr _ \<Rightarrow> (case mk pw of
           Inl e \<Rightarrow> (parser_with pw (p\<lparr>scram_server_verified := False\<rparr>), Inl e)
         | Inr c \<Rightarrow> ((parser_with pw (p\<lparr>scram_server_verified := False\<rparr>))\<lparr>scram_client := Some c\<rparr>,
                      if lim < 23 \<or> lim - 23 < length (client_first_message c) then Inl Request_wire_limit_exceeded
                      else sasl_initial_response (client_first_message c))))" for pw
    by (auto simp: respond_sasl_def mk_def Let_def split: sum.split)
  show ?thesis
    unfolding resp using mk by (auto simp: first intro: agreeI split: sum.split)
qed

lemma respond_sasl_continue_agree:
  assumes "\<forall>salt n. pbkdf2_hmac_sha256 cr a salt n = pbkdf2_hmac_sha256 cr b salt n"
  shows "agree a b (respond_sasl_continue cr (parser_with a p) ch lim) (respond_sasl_continue cr (parser_with b p) ch lim)"
proof (cases "scram_client p")
  case (Some c)
  obtain c' r where "receive_server_first cr (client_with a c) ch = (client_with a c', r)"
    "receive_server_first cr (client_with b c) ch = (client_with b c', r)"
    using receive_server_first_agree [OF assms] by blast
  with Some show ?thesis
    by (auto simp: respond_sasl_continue_def Let_def intro: agreeI split: sum.split)
qed (auto simp: respond_sasl_continue_def intro: agreeI)

lemma respond_sasl_final_agree:
  "agree a b (respond_sasl_final (parser_with a p) ch) (respond_sasl_final (parser_with b p) ch)"
proof (cases "scram_client p")
  case (Some c)
  have e: "expected_server_signature (client_with pw c) = expected_server_signature c"
    "server_first_received (client_with pw c) = server_first_received c" for pw by (simp_all add: client_with_def)
  have "verify_server_final (client_with pw c) ch = verify_server_final c ch" for pw
    unfolding verify_server_final_def e ..
  with Some show ?thesis by (auto simp: respond_sasl_final_def intro: agreeI split: sum.split)
qed (auto simp: respond_sasl_final_def intro: agreeI)

lemma create_auth_response_agree:
  assumes ind: "indistinguishable cr user a b"
  shows "agree a b (create_auth_response cr (parser_with a p) req a user False lim)
    (create_auth_response cr (parser_with b p) req b user False lim)"
proof -
  have md: "respond_md5 cr salt a user lim = respond_md5 cr salt b user lim" for salt
    using ind by (simp add: respond_md5_def md5_hex_def indistinguishable_def)
  have pb: "\<forall>salt n. pbkdf2_hmac_sha256 cr a salt n = pbkdf2_hmac_sha256 cr b salt n" and
    nul: "NUL_byte \<notin> set a" "NUL_byte \<notin> set b" using ind by (simp_all add: indistinguishable_def)
  show ?thesis
    using md nul respond_sasl_agree [of a b cr p "challenge_data req" user lim]
      respond_sasl_continue_agree [OF pb, of p "challenge_data req" lim] respond_sasl_final_agree [of a b p "challenge_data req"]
    by (cases "auth_type req") (auto simp: create_auth_response_def intro: agreeI)
qed

text \<open>Steps of the loop that agree up to the stored credential.\<close>

fun step_with :: "string \<Rightarrow> login_step \<Rightarrow> login_step" where
  "step_with pw (Proceed st) = Proceed (state_with pw st)"
| "step_with pw (Done st r) = Done (state_with pw st) r"

lemma state_with_simps [simp]:
  "authenticated (state_with pw st) = authenticated st" "server_params (state_with pw st) = server_params st"
  "sent (state_with pw st) = sent st" "startup_bytes (state_with pw st) = startup_bytes st"
  "startup_messages (state_with pw st) = startup_messages st" "backend_keys (state_with pw st) = backend_keys st"
  "parser (state_with pw st) = parser_with pw (parser st)"
  "(state_with pw st)\<lparr>parser := parser_with pw p\<rparr> = state_with pw (st\<lparr>parser := p\<rparr>)"
  "(state_with pw st)\<lparr>authenticated := x\<rparr> = state_with pw (st\<lparr>authenticated := x\<rparr>)"
  "(state_with pw st)\<lparr>sent := xs\<rparr> = state_with pw (st\<lparr>sent := xs\<rparr>)"
  "(state_with pw st)\<lparr>server_params := ps\<rparr> = state_with pw (st\<lparr>server_params := ps\<rparr>)"
  "(state_with pw st)\<lparr>backend_keys := ks\<rparr> = state_with pw (st\<lparr>backend_keys := ks\<rparr>)"
  "(state_with pw st)\<lparr>login_session_state := y\<rparr> = state_with pw (st\<lparr>login_session_state := y\<rparr>)"
  "(state_with pw st)\<lparr>startup_bytes := m, startup_messages := n\<rparr> = state_with pw (st\<lparr>startup_bytes := m, startup_messages := n\<rparr>)"
  by (simp_all add: state_with_def)

definition agree_step :: "string \<Rightarrow> string \<Rightarrow> login_step \<Rightarrow> login_step \<Rightarrow> bool" where
  "agree_step a b x y \<longleftrightarrow> (\<exists>s. x = step_with a s \<and> y = step_with b s)"

lemma agree_stepI: "x = step_with a s \<Longrightarrow> y = step_with b s \<Longrightarrow> agree_step a b x y"
  by (auto simp: agree_step_def)

lemma failures_with [simp]:
  "fail_login (state_with pw st) c m = step_with pw (fail_login st c m)"
  "throw_login (state_with pw st) e = step_with pw (throw_login st e)"
  by (simp_all add: fail_login_def throw_login_def)

lemma on_authentication_agree:
  assumes ind: "indistinguishable cr (login_user se) (credential se) (credential se')"
    and se': "se' = se\<lparr>login_password := x, native_idp_token := t\<rparr>" and unverified: "\<not> identity_verified se"
  shows "agree_step (credential se) (credential se')
    (on_authentication cr wr se (state_with (credential se) st) payload)
    (on_authentication cr wr se' (state_with (credential se') st) payload)"
proof (cases "authenticated st")
  case True
  then show ?thesis by (intro agree_stepI [of _ _ "fail_login st ProtocolError _"]) (simp_all add: on_authentication_def)
next
  case False
  let ?a = "credential se" and ?b = "credential se'"
  obtain p r where p: "parse_auth_request (parser_with ?a (parser st)) payload = (parser_with ?a p, r)"
    "parse_auth_request (parser_with ?b (parser st)) payload = (parser_with ?b p, r)"
    using parse_auth_request_agree [of ?a ?b "parser st" payload] by (auto simp: agree_def)
  show ?thesis
  proof (cases r)
    case (Inl e)
    then show ?thesis using False p
      by (intro agree_stepI [of _ _ "throw_login (st\<lparr>parser := p\<rparr>) e"]) (simp_all add: on_authentication_def)
  next
    case (Inr req)
    show ?thesis
    proof (cases "auth_type req = Auth_None")
      case True
      then show ?thesis using False p Inr
        by (intro agree_stepI [of _ _ "Proceed (st\<lparr>parser := p, authenticated := True\<rparr>)"]) (simp_all add: on_authentication_def)
    next
      case ask: False
      obtain q o1 where q:
        "create_auth_response cr (parser_with ?a p) req ?a (login_user se) False (max_auth_wire_bytes se) = (parser_with ?a q, o1)"
        "create_auth_response cr (parser_with ?b p) req ?b (login_user se) False (max_auth_wire_bytes se) = (parser_with ?b q, o1)"
        using create_auth_response_agree [OF ind, of p req "max_auth_wire_bytes se"] by (auto simp: agree_def)
      have s: "login_user se' = login_user se" "identity_verified se' = False" "max_auth_wire_bytes se' = max_auth_wire_bytes se"
        using se' unverified by simp_all
      define res where "res = (case o1 of
          Inl e \<Rightarrow> throw_login (st\<lparr>parser := q\<rparr>) e
        | Inr response \<Rightarrow>
            if response = [] then Proceed (st\<lparr>parser := q\<rparr>)
            else (case wr response of
                Some (c, message) \<Rightarrow> Done (st\<lparr>parser := q\<rparr>) (Login_failed (startup_failure False c message))
              | None \<Rightarrow> Proceed (st\<lparr>parser := q, sent := sent st @ [response]\<rparr>)))"
      show ?thesis
        by (rule agree_stepI [of _ _ res])
          (use False p Inr ask q s unverified in \<open>auto simp: on_authentication_def res_def split: sum.split option.split\<close>)
    qed
  qed
qed

lemma on_startup_message_agree:
  assumes "indistinguishable cr (login_user se) (credential se) (credential se')"
    and "se' = se\<lparr>login_password := x, native_idp_token := t\<rparr>" and "\<not> identity_verified se"
  shows "agree_step (credential se) (credential se')
    (on_startup_message cr wr se (state_with (credential se) st) msg)
    (on_startup_message cr wr se' (state_with (credential se') st) msg)"
proof (cases "tag msg = CHR ''R''")
  case True
  then show ?thesis using on_authentication_agree [OF assms] by (simp add: on_startup_message_def)
next
  case False
  have "on_startup_error (state_with pw st) msg = step_with pw (on_startup_error st msg)" for pw
    by (simp add: on_startup_error_def Let_def split: sum.split prod.split)
  then have "on_startup_message cr wr se0 (state_with pw st) msg = step_with pw (on_startup_message cr wr se st msg)" for pw se0
    using False by (simp add: on_startup_message_def split: sum.split bool.split option.split)
  then show ?thesis by (intro agree_stepI)
qed

lemma login_turn_agree:
  assumes "indistinguishable cr (login_user se) (credential se) (credential se')"
    and se': "se' = se\<lparr>login_password := x, native_idp_token := t\<rparr>" and "\<not> identity_verified se"
  shows "agree_step (credential se) (credential se')
    (login_turn cr wr se (state_with (credential se) st) rd) (login_turn cr wr se' (state_with (credential se') st) rd)"
proof (cases "rd (max_startup_wire_bytes se - startup_bytes st)")
  case (Inl e)
  then show ?thesis using se'
    by (cases e) (auto simp: login_turn_def intro!: agree_stepI [of _ _ "Done st _"])
next
  case (Inr data)
  let ?st = "st\<lparr>startup_bytes := startup_bytes st + length data, startup_messages := startup_messages st + 1\<rparr>"
  have r: "rd (max_startup_wire_bytes se' - startup_bytes st) = Inr data" using Inr se' by simp
  show ?thesis
  proof (cases "parse_message data")
    case (Inl e)
    then show ?thesis using Inr r
      by (intro agree_stepI [of _ _ "throw_login ?st e"]) (simp_all add: login_turn_def)
  next
    case m: (Inr msg)
    show ?thesis using on_startup_message_agree [OF assms, of wr ?st msg] Inr r m
      by (simp add: login_turn_def)
  qed
qed

lemma perform_authentication_agree:
  assumes "indistinguishable cr (login_user se) (credential se) (credential se')"
    and se': "se' = se\<lparr>login_password := x, native_idp_token := t\<rparr>" and "\<not> identity_verified se"
  shows "\<exists>st' r. perform_authentication cr wr se (state_with (credential se) st) reads = (state_with (credential se) st', r) \<and>
    perform_authentication cr wr se' (state_with (credential se') st) reads = (state_with (credential se') st', r)"
proof (induction reads arbitrary: st)
  case Nil
  then show ?case using se' by (auto simp: perform_authentication.simps)
next
  case (Cons rd rest)
  have lim: "max_startup_messages se' = max_startup_messages se" using se' by simp
  obtain s where s: "login_turn cr wr se (state_with (credential se) st) rd = step_with (credential se) s"
    "login_turn cr wr se' (state_with (credential se') st) rd = step_with (credential se') s"
    using login_turn_agree [OF assms, of wr st rd] by (auto simp: agree_step_def)
  show ?case
  proof (cases s)
    case (Proceed st1)
    then show ?thesis using s lim Cons.IH [of st1]
      by (auto simp: perform_authentication.simps [of _ _ _ "state_with _ st"])
  next
    case (Done st1 r)
    then show ?thesis using s lim
      by (auto simp: perform_authentication.simps [of _ _ _ "state_with _ st"])
  qed
qed

text \<open>
  C4: as long as the peer's identity is not verified, a login reveals the password or token only through
  its MD5 digest with the user name and its PBKDF2 derivation: two credentials on which these agree give
  the same messages to the server and the same outcome, whatever the server sends.
\<close>

theorem unverified_login_hides_credential:
  assumes "indistinguishable cr (login_user se) (credential se) (credential se')"
    and "se' = se\<lparr>login_password := x, native_idp_token := t\<rparr>" and "\<not> identity_verified se"
  shows "sent (fst (perform_authentication cr wr se login_start reads)) =
      sent (fst (perform_authentication cr wr se' login_start reads)) \<and>
    snd (perform_authentication cr wr se login_start reads) = snd (perform_authentication cr wr se' login_start reads)"
proof -
  have "state_with pw login_start = login_start" for pw
    by (simp add: state_with_def parser_with_def login_start_def)
  then show ?thesis using perform_authentication_agree [OF assms, of wr login_start reads] by auto
qed

theorem unverified_login_hides_credential_witness:
  "let cr = \<lparr>md5 = \<lambda>_. Inr [], sha256 = Inr, hmac_sha256 = \<lambda>_ _. Inr [], pbkdf2_hmac_sha256 = \<lambda>_ _ _. Inr [],
             secure_random = \<lambda>_. Inr []\<rparr>;
       se = (\<lambda>pw. \<lparr>login_user = ''u'', login_password = pw, native_idp_token = None, identity_verified = False,
        max_auth_wire_bytes = 100, max_startup_messages = 9, max_startup_wire_bytes = 99\<rparr>);
       reads = [\<lambda>_. Inr (frame (CHR ''R'') (be32 3))]
   in sent (fst (perform_authentication cr (\<lambda>_. None) (se ''secret'') login_start reads)) =
      sent (fst (perform_authentication cr (\<lambda>_. None) (se ''other'') login_start reads))"
proof -
  let ?cr = "\<lparr>md5 = \<lambda>_. Inr [], sha256 = Inr, hmac_sha256 = \<lambda>_ _. Inr [], pbkdf2_hmac_sha256 = \<lambda>_ _ _. Inr [],
             secure_random = \<lambda>_. Inr []\<rparr> :: auth_crypto"
  let ?se = "\<lambda>pw. \<lparr>login_user = ''u'', login_password = pw, native_idp_token = None, identity_verified = False,
        max_auth_wire_bytes = 100, max_startup_messages = 9, max_startup_wire_bytes = 99\<rparr>"
  have "indistinguishable ?cr (login_user (?se ''secret'')) (credential (?se ''secret'')) (credential (?se ''other''))"
    by (simp add: indistinguishable_def credential_def)
  from unverified_login_hides_credential [where x = "''other''" and t = None, OF this] show ?thesis by (simp add: Let_def)
qed

end
