(* ===== verification/PgLogin.thy ===== *)
theory PgLogin
  imports PgAuth
begin

section \<open>The login ends\<close>

text \<open>
  \<^verbatim>\<open>perform_authentication_result\<close> of \<^verbatim>\<open>core/database/generic_database_connection.cpp\<close>: each turn of the loop counts one message, so the
  limit on startup messages bounds the loop and what it sends, whatever the server answers.
\<close>

lemmas login_step_defs = on_startup_message_def on_authentication_def on_startup_error_def fail_login_def throw_login_def Let_def

lemma on_authentication_Proceed:
  "on_authentication cr wr se st payload = Proceed st' \<Longrightarrow>
    startup_messages st' = startup_messages st \<and> startup_bytes st' = startup_bytes st \<and> length (sent st') \<le> length (sent st) + 1"
  by (auto simp: on_authentication_def fail_login_def throw_login_def Let_def split: if_splits prod.splits sum.splits option.splits)

lemma on_startup_message_Proceed:
  "on_startup_message cr wr se st msg = Proceed st' \<Longrightarrow>
    startup_messages st' = startup_messages st \<and> startup_bytes st' = startup_bytes st \<and> length (sent st') \<le> length (sent st) + 1"
  by (auto simp: on_startup_message_def on_startup_error_def fail_login_def throw_login_def Let_def
      dest: on_authentication_Proceed split: if_splits prod.splits sum.splits option.splits bool.splits)

lemma on_startup_message_Done:
  "on_startup_message cr wr se st msg = Done st' r \<Longrightarrow>
    r \<noteq> Login_waiting \<and> startup_messages st' = startup_messages st \<and> sent st' = sent st"
  by (auto simp: login_step_defs split: if_splits prod.splits sum.splits option.splits bool.splits)

lemma login_turn_Proceed:
  "login_turn cr wr se st rd = Proceed st' \<Longrightarrow>
    startup_messages st' = Suc (startup_messages st) \<and> length (sent st') \<le> length (sent st) + 1"
  by (auto simp: login_turn_def throw_login_def Let_def dest: on_startup_message_Proceed split: sum.splits)

lemma login_turn_Done:
  "login_turn cr wr se st rd = Done st' r \<Longrightarrow>
    r \<noteq> Login_waiting \<and> startup_messages st' \<le> Suc (startup_messages st) \<and> sent st' = sent st"
  by (auto simp: login_turn_def throw_login_def Let_def dest: on_startup_message_Done split: sum.splits)

lemma perform_authentication_ends:
  assumes "startup_messages st \<le> max_startup_messages se" "length (sent st) \<le> startup_messages st"
    and "max_startup_messages se \<le> startup_messages st + length reads"
  shows "\<exists>st' r. perform_authentication cr wr se st reads = (st', r) \<and> r \<noteq> Login_waiting \<and>
    startup_messages st' \<le> max_startup_messages se \<and> length (sent st') \<le> max_startup_messages se"
  using assms
proof (induction reads arbitrary: st)
  case Nil
  then show ?case by (subst perform_authentication.simps) simp
next
  case (Cons rd reads)
  show ?case
  proof (cases "startup_messages st = max_startup_messages se")
    case True
    then show ?thesis using Cons.prems by (subst perform_authentication.simps) simp
  next
    case False
    then have step: "perform_authentication cr wr se st (rd # reads) =
        (case login_turn cr wr se st rd of Done st' r \<Rightarrow> (st', r) | Proceed st' \<Rightarrow> perform_authentication cr wr se st' reads)"
      by (subst perform_authentication.simps) simp
    show ?thesis
    proof (cases "login_turn cr wr se st rd")
      case (Proceed st1)
      have "startup_messages st1 \<le> max_startup_messages se" "length (sent st1) \<le> startup_messages st1"
        "max_startup_messages se \<le> startup_messages st1 + length reads"
        using login_turn_Proceed [OF Proceed] Cons.prems False by simp_all
      from Cons.IH [OF this] show ?thesis unfolding step Proceed login_step.case .
    next
      case (Done st1 r)
      then show ?thesis using login_turn_Done [OF Done] Cons.prems False unfolding step by simp
    qed
  qed
qed

text \<open>
  C16: a login always ends. Whatever the transport and the server return, no login reads more than
  \<^verbatim>\<open>max_startup_messages\<close> messages or sends more than so many answers, and as many reads as the limit always bring it to
  an outcome: ready or failed.
\<close>

theorem login_terminates:
  assumes "max_startup_messages se \<le> length reads"
  shows "\<exists>st r. perform_authentication cr wr se login_start reads = (st, r) \<and> r \<noteq> Login_waiting \<and>
    startup_messages st \<le> max_startup_messages se \<and> length (sent st) \<le> max_startup_messages se"
  by (rule perform_authentication_ends) (simp_all add: login_start_def assms)

theorem login_terminates_witness:
  "\<forall>cr wr. \<exists>st r. perform_authentication cr wr
     \<lparr>login_user = ''u'', login_password = ''p'', native_idp_token = None, identity_verified = False,
      max_auth_wire_bytes = 100, max_startup_messages = 2, max_startup_wire_bytes = 99\<rparr> login_start
     [\<lambda>_. Inr (frame (CHR ''R'') (be32 0)), \<lambda>_. Inr (frame (CHR ''N'') [])] = (st, r) \<and>
     r \<noteq> Login_waiting \<and> startup_messages st \<le> 2 \<and> length (sent st) \<le> 2"
  using login_terminates [of "\<lparr>login_user = ''u'', login_password = ''p'', native_idp_token = None, identity_verified = False,
      max_auth_wire_bytes = 100, max_startup_messages = 2, max_startup_wire_bytes = 99\<rparr>"
     "[\<lambda>_. Inr (frame (CHR ''R'') (be32 0)), \<lambda>_. Inr (frame (CHR ''N'') [])]"]
  by simp

end
