(* ===== verification/PgTypes.thy ===== *)
theory PgTypes
  imports Text_Codecs Utf8 PgResults
begin

section \<open>Types and values of results\<close>

text \<open>
  The type metadata of \<^verbatim>\<open>sdk/include/odbcpp/database/native_type_info.h\<close>, the PostgreSQL and Redshift type
  tables of \<^verbatim>\<open>core/database/postgres/pg_type_info.cpp\<close>, the text codecs of \<^verbatim>\<open>pg_value.h\<close> and
  \<^verbatim>\<open>pg_value.cpp\<close>, and the owning results of \<^verbatim>\<open>query_result.h\<close> with their validation. The C library's
  reading and printing of floating-point numbers is the parameter \<open>float_reader\<close>.
\<close>

subsection \<open>Type metadata\<close>

datatype scalar_type =
    ST_Boolean | ST_Binary | ST_Char | ST_VarChar | ST_BigInt | ST_SmallInt | ST_Integer | ST_Real | ST_Double | ST_Date
  | ST_Time | ST_Timestamp | ST_Numeric | ST_Decimal | ST_LongVarChar | ST_LongVarBinary

record character_metadata_policy =
  varchar_threshold :: nat
  long_varchar_size :: nat
  boolean_as_character :: bool

definition valid_character_metadata_policy :: "character_metadata_policy \<Rightarrow> bool" where
  "valid_character_metadata_policy policy \<longleftrightarrow>
     varchar_threshold policy \<le> 2 ^ 31 - 1 \<and> long_varchar_size policy \<le> 2 ^ 31 - 1"

record native_type_info =
  scalar :: scalar_type
  column_size :: nat
  decimal_digits :: int
  known :: bool
  declared_type :: "scalar_type option"
  declared_column_size :: "nat option"
  type_name :: "string option"

definition native_type :: "scalar_type \<Rightarrow> nat \<Rightarrow> int \<Rightarrow> bool \<Rightarrow> native_type_info" where
  "native_type t csize digits k =
     \<lparr>scalar = t, column_size = csize, decimal_digits = digits, known = k, declared_type = None, declared_column_size = None,
      type_name = None\<rparr>"

definition apply_character_metadata_policy :: "native_type_info \<Rightarrow> character_metadata_policy \<Rightarrow> native_type_info" where
  "apply_character_metadata_policy native policy =
     (if known native \<and> scalar native = ST_Boolean \<and> boolean_as_character policy then
        native\<lparr>declared_type := Some ST_Boolean, declared_column_size := Some (column_size native), scalar := ST_VarChar,
               column_size := 1\<rparr>
      else if \<not> known native \<or> varchar_threshold policy = 0 \<or> column_size native \<le> varchar_threshold policy \<or>
              (scalar native \<noteq> ST_Char \<and> scalar native \<noteq> ST_VarChar)
      then native
      else
        native\<lparr>declared_type := Some (scalar native), declared_column_size := Some (column_size native),
               scalar := ST_LongVarChar,
               column_size := if long_varchar_size policy \<noteq> 0 then long_varchar_size policy else column_size native\<rparr>)"

definition declared_character_metadata :: "native_type_info \<Rightarrow> native_type_info" where
  "declared_character_metadata native =
     (case (declared_type native, declared_column_size native) of
        (Some t, Some csize) \<Rightarrow>
          native\<lparr>scalar := t, column_size := csize, declared_type := None, declared_column_size := None\<rparr>
      | _ \<Rightarrow> native)"

text \<open>Presentation loses nothing: the declared metadata are the native ones again.\<close>

lemma declared_metadata_inverse:
  assumes "declared_type native = None" "declared_column_size native = None"
  shows "declared_character_metadata (apply_character_metadata_policy native policy) = native"
  using assms by (cases native) (auto simp: declared_character_metadata_def apply_character_metadata_policy_def)

subsection \<open>The type tables\<close>

definition int16_cast :: "int \<Rightarrow> int" where
  "int16_cast x = sint (word_of_int x :: 16 word)"

definition temporal_type :: "scalar_type \<Rightarrow> nat \<Rightarrow> int \<Rightarrow> native_type_info" where
  "temporal_type t width typmod =
     (let precision = (if 0 \<le> typmod then typmod else 6)
      in native_type t (width + (if 0 < precision then 1 + nat precision else 0)) (int16_cast precision) True)"

definition numeric_type :: "int \<Rightarrow> native_type_info" where
  "numeric_type typmod =
     (if typmod < 4 then native_type ST_Numeric 0 0 True
      else
        let modifier = nat (typmod - 4);
            encoded_scale = int (modifier mod 0x800)
        in native_type ST_Numeric (modifier div 2 ^ 16 mod 2 ^ 16)
             (if 1024 \<le> encoded_scale then encoded_scale - 2048 else encoded_scale) True)"

definition parser_describe_type :: "32 word \<Rightarrow> int \<Rightarrow> int \<Rightarrow> native_type_info" where
  "parser_describe_type oid tsize typmod =
     (if oid = 16 then native_type ST_Boolean 1 0 True
      else if oid = 17 then native_type ST_Binary (if 0 < tsize then nat tsize else 0) 0 True
      else if oid = 18 then native_type ST_Char 1 0 True
      else if oid = 19 then native_type ST_VarChar 63 0 True
      else if oid = 20 then native_type ST_BigInt 19 0 True
      else if oid = 21 then native_type ST_SmallInt 5 0 True
      else if oid = 23 then native_type ST_Integer 10 0 True
      else if oid = 25 then native_type ST_VarChar 0 0 True
      else if oid = 26 then native_type ST_BigInt 10 0 True
      else if oid = 700 then native_type ST_Real 7 6 True
      else if oid = 701 then native_type ST_Double 15 15 True
      else if oid = 1042 \<or> oid = 1043 then
        native_type (if oid = 1042 then ST_Char else ST_VarChar)
          (if 4 \<le> typmod then nat (typmod - 4) else 0) 0 True
      else if oid = 1082 then native_type ST_Date 10 0 True
      else if oid = 1083 \<or> oid = 1266 then temporal_type ST_Time (if oid = 1083 then 8 else 14) typmod
      else if oid = 1114 \<or> oid = 1184 then temporal_type ST_Timestamp (if oid = 1114 then 19 else 25) typmod
      else if oid = 2950 then native_type ST_VarChar 36 0 True
      else if oid = 114 \<or> oid = 3802 then native_type ST_VarChar 0 0 True
      else if oid = 1700 then numeric_type typmod
      else native_type ST_VarChar (if 0 < tsize then nat tsize else 0) 0 False)"

definition describe_type :: "pg_catalog_profile \<Rightarrow> 32 word \<Rightarrow> int \<Rightarrow> int \<Rightarrow> native_type_info" where
  "describe_type profile oid tsize typmod =
     (if profile = Redshift \<and> oid = 6551 then native_type ST_LongVarBinary 0 0 True
      else if profile = Redshift \<and> oid = 4000 then (native_type ST_LongVarChar 0 0 True)\<lparr>type_name := Some ''super''\<rparr>
      else if profile = Redshift \<and> (oid = 3000 \<or> oid = 3001 \<or> oid = 3999) then
        (native_type ST_LongVarBinary 0 0 True)\<lparr>type_name := Some (if oid = 3001 then ''geography'' else ''geometry'')\<rparr>
      else parser_describe_type oid tsize typmod)"

lemma describe_type_undeclared:
  "declared_type (describe_type profile oid csize modifier) = None"
  "declared_column_size (describe_type profile oid csize modifier) = None"
  by (simp_all add: describe_type_def parser_describe_type_def numeric_type_def temporal_type_def native_type_def Let_def)

subsection \<open>Values\<close>

definition octal_digit :: "char \<Rightarrow> bool" where
  "octal_digit c \<longleftrightarrow> u8 (CHR ''0'') \<le> u8 c \<and> u8 c \<le> u8 (CHR ''7'')"

fun decode_escaped :: "string \<Rightarrow> string option" where
  "decode_escaped [] = Some []"
| "decode_escaped (c # rest) =
     (if c \<noteq> CHR 0x5C then map_option ((#) c) (decode_escaped rest)
      else case rest of
          [] \<Rightarrow> None
        | d # r1 \<Rightarrow>
            if d = CHR 0x5C then map_option ((#) (CHR 0x5C)) (decode_escaped r1)
            else case r1 of
                e # f # r2 \<Rightarrow>
                  if u8 d < u8 (CHR ''0'') \<or> u8 (CHR ''3'') < u8 d \<or> \<not> octal_digit e \<or> \<not> octal_digit f then None
                  else map_option ((#) (char_of ((u8 d - 48) * 64 + (u8 e - 48) * 8 + (u8 f - 48)))) (decode_escaped r2)
              | _ \<Rightarrow> None)"

definition normalize_pg_result_value :: "scalar_type \<Rightarrow> string \<Rightarrow> string option" where
  "normalize_pg_result_value t v =
     (if t = ST_Boolean then
        if v = ''t'' \<or> v = ''true'' \<or> v = ''1'' then Some ''1''
        else if v = ''f'' \<or> v = ''false'' \<or> v = ''0'' then Some ''0''
        else None
      else if t \<noteq> ST_Binary then Some v
      else if starts_with v [CHR 0x5C, CHR ''x''] then decode_hex (drop 2 v)
      else decode_escaped v)"

definition normalize_result_value :: "pg_catalog_profile \<Rightarrow> scalar_type \<Rightarrow> string \<Rightarrow> string option" where
  "normalize_result_value profile t v =
     (if t = ST_LongVarBinary then if profile \<noteq> Redshift then None else decode_hex v
      else normalize_pg_result_value t v)"

text \<open>
  What \<^verbatim>\<open>strtod_l\<close> or \<^verbatim>\<open>strtof_l\<close> consumes of a text, whether the number is finite and whether it is zero, and the
  scientific text \<^verbatim>\<open>std::to_chars\<close> prints for it.
\<close>

record float_reading =
  fr_consumed :: nat
  fr_finite :: bool
  fr_zero :: bool
  fr_scientific :: "string option"

record float_reader =
  c_locale_available :: bool
  read_float :: "bool \<Rightarrow> string \<Rightarrow> float_reading"

definition find_first_of :: "string \<Rightarrow> string \<Rightarrow> nat" where
  "find_first_of cs s = (case find_from (\<lambda>c. c \<in> set cs) s 0 of None \<Rightarrow> max_size_t | Some i \<Rightarrow> i)"

definition shortest_layout :: "nat \<Rightarrow> bool \<Rightarrow> string \<Rightarrow> int \<Rightarrow> string" where
  "shortest_layout notation_digits neg digits e =
     (if neg then ''-'' else []) @
     (if e < - 4 \<or> int notation_digits \<le> e then
        let magnitude = to_string (nat \<bar>e\<bar>)
        in [hd digits] @ (if 1 < length digits then ''.'' @ drop 1 digits else []) @
           (if e < 0 then ''e-'' else ''e+'') @ (if length magnitude < 2 then ''0'' else []) @ magnitude
      else if 0 \<le> e then
        let whole = nat e + 1
        in if length digits \<le> whole then digits @ replicate (whole - length digits) (CHR ''0'')
           else take whole digits @ ''.'' @ drop whole digits
      else ''0.'' @ replicate (nat (- e - 1)) (CHR ''0'') @ digits)"

definition shortest_scientific :: "nat \<Rightarrow> string \<Rightarrow> string option" where
  "shortest_scientific notation_digits text0 =
     (let neg = (text0 \<noteq> [] \<and> hd text0 = CHR ''-'');
          scientific = (if neg then tl text0 else text0)
      in case find_from (\<lambda>c. c = CHR ''e'') scientific 0 of
          None \<Rightarrow> None
        | Some marker \<Rightarrow>
            let digits = filter (\<lambda>c. c \<noteq> CHR ''.'') (take marker scientific);
                rest = drop (marker + 1) scientific;
                exponent_text = (if rest \<noteq> [] \<and> hd rest = CHR ''+'' then tl rest else rest)
            in case from_chars (- (2 ^ 31)) (2 ^ 31 - 1) exponent_text of
                (_, Fc_parsed e) \<Rightarrow> if digits = [] then None else Some (shortest_layout notation_digits neg digits e)
              | _ \<Rightarrow> None)"

definition shortest_floating_text :: "float_reader \<Rightarrow> bool \<Rightarrow> string \<Rightarrow> nat \<Rightarrow> string option" where
  "shortest_floating_text fl single v notation_digits =
     (if v = [] \<or> 64 < length v \<or> v = ''NaN'' \<or> v = ''Infinity'' \<or> v = ''-Infinity'' then None
      else if list_ex (\<lambda>c. c \<notin> set ''0123456789.-+eE'') v then None
      else if \<not> c_locale_available fl then None
      else
        let parsed = read_float fl single v
        in if fr_consumed parsed \<noteq> length v \<or> \<not> fr_finite parsed then None
           else if fr_zero parsed \<and> find_first_of ''123456789'' v < find_first_of ''eE'' v then None
           else case fr_scientific parsed of
               None \<Rightarrow> None
             | Some scientific \<Rightarrow> shortest_scientific notation_digits scientific)"

definition normalize_native_result_value ::
  "float_reader \<Rightarrow> pg_catalog_profile \<Rightarrow> 32 word \<Rightarrow> scalar_type \<Rightarrow> string \<Rightarrow> string option" where
  "normalize_native_result_value fl profile oid t v =
     (if profile = Redshift \<and> (t = ST_Double \<or> t = ST_Real) then
        (case if t = ST_Double then shortest_floating_text fl False v 15 else shortest_floating_text fl True v 6 of
           Some shortest \<Rightarrow> Some shortest
         | None \<Rightarrow> Some v)
      else if profile = Redshift \<and> oid = 3000 \<and> t = ST_LongVarBinary then
        if v \<noteq> [] \<and> hd v \<noteq> CHR 0x00 \<and> hd v \<noteq> CHR 0x01 then None else Some v
      else normalize_result_value profile t v)"

subsection \<open>Binary values survive both output formats of the server\<close>

text \<open>The \<^verbatim>\<open>hex\<close> and \<^verbatim>\<open>escape\<close> formats of \<^verbatim>\<open>bytea\<close> output.\<close>

definition bytea_hex :: "bytes \<Rightarrow> string" where
  "bytea_hex b = [CHR 0x5C, CHR ''x''] @ encode_hex_bytes b"

definition octal_char :: "nat \<Rightarrow> char" where
  "octal_char n = char_of (48 + n mod 8)"

definition escape_byte :: "char \<Rightarrow> string" where
  "escape_byte b =
     (if b = CHR 0x5C then [CHR 0x5C, CHR 0x5C]
      else if u8 b < 0x20 \<or> 0x7e < u8 b then [CHR 0x5C, octal_char (u8 b div 64), octal_char (u8 b div 8), octal_char (u8 b)]
      else [b])"

definition bytea_escape :: "bytes \<Rightarrow> string" where
  "bytea_escape b = concat (map escape_byte b)"

lemma u8_octal_char: "u8 (octal_char n) = 48 + n mod 8"
  by (simp add: octal_char_def)

lemma octal_split: "n < 256 \<Longrightarrow> n div 64 mod 8 * 64 + n div 8 mod 8 * 8 + n mod 8 = (n :: nat)"
proof -
  assume "n < 256"
  then have "n div 64 mod 8 = n div 64" by (simp add: less_mult_imp_div_less)
  moreover have "n div 64 = n div 8 div 8" by (simp add: div_mult2_eq [symmetric])
  moreover have "n div 8 div 8 * 8 + n div 8 mod 8 = n div 8" "n div 8 * 8 + n mod 8 = n" by simp_all
  ultimately show ?thesis by linarith
qed

lemma decode_escape_byte: "decode_escaped (escape_byte b @ rest) = map_option ((#) b) (decode_escaped rest)"
proof -
  have range: "u8 b < 256" by simp
  have top: "u8 b div 64 mod 8 \<le> 3" using less_mult_imp_div_less [of "u8 b" 4 64] range by simp
  have first: "octal_char (u8 b div 64) \<noteq> CHR 0x5C"
    using top u8_octal_char [of "u8 b div 64"] by auto
  show ?thesis
  proof (cases "b = CHR 0x5C \<or> (0x20 \<le> u8 b \<and> u8 b \<le> 0x7e)")
    case True
    then show ?thesis by (auto simp: escape_byte_def)
  next
    case False
    then have "escape_byte b = [CHR 0x5C, octal_char (u8 b div 64), octal_char (u8 b div 8), octal_char (u8 b)]"
      by (auto simp: escape_byte_def)
    moreover have "u8 b div 8 mod 8 \<le> 7" "u8 b mod 8 \<le> 7"
      using mod_less_divisor [of 8 "u8 b div 8"] mod_less_divisor [of 8 "u8 b"] by linarith+
    ultimately show ?thesis using first top
      by (simp add: octal_digit_def u8_octal_char octal_split [OF range])
  qed
qed

lemma decode_bytea_escape: "decode_escaped (bytea_escape b) = Some b"
  by (induction b) (simp_all add: bytea_escape_def decode_escape_byte)

lemma bytea_escape_not_hex: "\<not> starts_with (bytea_escape b) [CHR 0x5C, CHR ''x'']"
proof (cases b)
  case (Cons c rest)
  have "octal_char (u8 c div 64) \<noteq> CHR ''x''" using u8_octal_char [of "u8 c div 64"] by auto
  with Cons show ?thesis by (auto simp: bytea_escape_def escape_byte_def starts_with_def)
qed (simp add: bytea_escape_def starts_with_def)

interpretation bytea_hex: codec "\<lambda>_. True" bytea_hex "normalize_pg_result_value ST_Binary"
  by unfold_locales (simp add: normalize_pg_result_value_def bytea_hex_def starts_with_def decode_hex_encode_bytes)

interpretation bytea_escape: codec "\<lambda>_. True" bytea_escape "normalize_pg_result_value ST_Binary"
  by unfold_locales (simp add: normalize_pg_result_value_def bytea_escape_not_hex decode_bytea_escape)

end
