(* ===== verification/QueryResults.thy ===== *)
theory QueryResults
  imports PgTypes
begin

section \<open>Owning results\<close>

text \<open>
  \<^verbatim>\<open>sdk/include/odbcpp/database/query_result.h\<close>, the validation of results in
  \<^verbatim>\<open>core/database/result_validation.h\<close> and \<^verbatim>\<open>sdk/include/odbcpp/database/result_validation.h\<close>, and the
  normalisation of cells in \<^verbatim>\<open>read_query_result\<close> of \<^verbatim>\<open>core/database/generic_database_connection.cpp\<close>.
  A result is its primary item and the flat list of additional items; results built by a session
  always carry the type of a column, so it is not optional here.
\<close>

record result_column =
  rc_name :: string
  rc_type :: native_type_info

datatype described_result_shape = Described_NoResultSet | Described_ResultSet

record query_result =
  q_rows :: "string option list list"
  q_columns :: "result_column list"
  q_error :: "backend_error option"
  q_affected_rows :: nat
  q_statement_kind :: "statement_kind option"
  q_parameter_types :: "native_type_info list"
  q_cell_errors :: "(nat \<times> nat) list"
  q_described_shape :: "described_result_shape option"
  q_execution_shape :: "execution_result_shape option"
  q_result_id :: nat

type_synonym query_results = "query_result \<times> query_result list"
type_synonym parsed_results = "parsed_query_result \<times> parsed_query_result list"

subsection \<open>Validation\<close>

definition valid_result_structure :: "parsed_query_result \<Rightarrow> bool" where
  "valid_result_structure r \<longleftrightarrow>
     list_all (\<lambda>c. NUL_byte \<notin> set (column_name c) \<and> utf8_code_point_count (column_name c) \<noteq> None) (result_columns r) \<and>
     list_all (\<lambda>row. length row = length (result_columns r)) (result_rows r)"

definition error_only :: "query_result \<Rightarrow> bool" where
  "error_only item \<longleftrightarrow>
     q_error item = None \<or>
     (q_rows item = [] \<and> q_columns item = [] \<and> q_cell_errors item = [] \<and> q_parameter_types item = [] \<and>
      q_affected_rows item = 0 \<and> q_statement_kind item = None \<and> q_described_shape item = None \<and>
      q_execution_shape item = None)"

definition valid_execution_structure :: "query_results \<Rightarrow> bool" where
  "valid_execution_structure r \<longleftrightarrow> q_error (fst r) = None \<and> list_all error_only (snd r)"

definition valid_description_structure :: "query_results \<Rightarrow> bool" where
  "valid_description_structure r \<longleftrightarrow>
     valid_execution_structure r \<and> q_execution_shape (fst r) = None \<and> q_statement_kind (fst r) = None \<and>
     q_affected_rows (fst r) = 0 \<and> snd r = [] \<and> q_rows (fst r) = [] \<and> q_cell_errors (fst r) = [] \<and>
     (case q_described_shape (fst r) of
        None \<Rightarrow> True
      | Some Described_ResultSet \<Rightarrow> True
      | Some Described_NoResultSet \<Rightarrow> q_columns (fst r) = [])"

definition has_binary_columns :: "parsed_results \<Rightarrow> bool" where
  "has_binary_columns r \<longleftrightarrow>
     list_ex (\<lambda>c. format_code c = 1) (result_columns (fst r)) \<or>
     list_ex (\<lambda>additional. list_ex (\<lambda>c. format_code c = 1) (result_columns additional)) (snd r)"

subsection \<open>Cells\<close>

text \<open>A cell and whether it is an encoding error.\<close>

definition normalize_cell ::
  "float_reader \<Rightarrow> pg_catalog_profile \<Rightarrow> native_type_info \<Rightarrow> 32 word option \<Rightarrow> string option \<Rightarrow> string option \<times> bool" where
  "normalize_cell fl profile metadata oid cell =
     (case cell of
        None \<Rightarrow> (None, False)
      | Some v \<Rightarrow>
          let t = (case declared_type metadata of Some d \<Rightarrow> d | None \<Rightarrow> scalar metadata)
          in if t = ST_Char \<or> t = ST_VarChar \<or> t = ST_LongVarChar then
               if utf8_code_point_count v = None then (Some [], True) else (Some v, False)
             else if t \<noteq> ST_Binary \<and> t \<noteq> ST_LongVarBinary \<and> t \<noteq> ST_Boolean \<and> t \<noteq> ST_Real \<and> t \<noteq> ST_Double
             then (Some v, False)
             else case (case oid of
                          Some tid \<Rightarrow> normalize_native_result_value fl profile tid t v
                        | None \<Rightarrow> normalize_result_value profile t v) of
                 Some canonical \<Rightarrow> (Some canonical, False)
               | None \<Rightarrow> (Some [], True))"

definition normalize_row ::
  "float_reader \<Rightarrow> pg_catalog_profile \<Rightarrow> result_column list \<Rightarrow> parsed_column list \<Rightarrow> string option list \<Rightarrow>
     (string option \<times> bool) list" where
  "normalize_row fl profile columns parsed row =
     map (\<lambda>(j, cell).
       if j < length columns
       then normalize_cell fl profile (rc_type (columns ! j)) (if j < length parsed then Some (type_id (parsed ! j)) else None) cell
       else (cell, False)) (enumerate 0 row)"

definition normalize_cells :: "float_reader \<Rightarrow> pg_catalog_profile \<Rightarrow> parsed_query_result \<Rightarrow> query_result \<Rightarrow> query_result" where
  "normalize_cells fl profile parsed item =
     (let rows = map (normalize_row fl profile (q_columns item) (result_columns parsed)) (q_rows item)
      in item\<lparr>q_rows := map (map fst) rows,
              q_cell_errors := q_cell_errors item @
                concat (map (\<lambda>(i, row). map (\<lambda>(j, c). (i, j)) (filter (\<lambda>(j, c). snd c) (enumerate 0 row))) (enumerate 0 rows))\<rparr>)"

lemma normalize_cells_fields [simp]:
  "q_error (normalize_cells fl profile parsed item) = q_error item"
  "q_columns (normalize_cells fl profile parsed item) = q_columns item"
  "q_affected_rows (normalize_cells fl profile parsed item) = q_affected_rows item"
  "q_statement_kind (normalize_cells fl profile parsed item) = q_statement_kind item"
  "q_parameter_types (normalize_cells fl profile parsed item) = q_parameter_types item"
  "q_execution_shape (normalize_cells fl profile parsed item) = q_execution_shape item"
  "q_described_shape (normalize_cells fl profile parsed item) = q_described_shape item"
  "q_result_id (normalize_cells fl profile parsed item) = q_result_id item"
  by (simp_all add: normalize_cells_def Let_def)

text \<open>Normalisation keeps the shape of the rows and which cells are NULL.\<close>

lemma normalize_cell_null [simp]: "fst (normalize_cell fl profile metadata oid cell) = None \<longleftrightarrow> cell = None"
  by (auto simp: normalize_cell_def Let_def split: option.splits)

lemma normalize_row_nulls: "map (\<lambda>c. fst c = None) (normalize_row fl profile columns parsed row) = map (\<lambda>c. c = None) row"
  by (rule nth_equalityI) (simp_all add: normalize_row_def enumerate_eq_zip)

lemma normalize_cells_nulls:
  "map (map (\<lambda>c. c = None)) (q_rows (normalize_cells fl profile parsed item)) = map (map (\<lambda>c. c = None)) (q_rows item)"
  using normalize_row_nulls by (fastforce simp: normalize_cells_def Let_def comp_def)

end
