(* ===== verification/PgTransport.thy ===== *)
theory PgTransport
  imports QueryResults PgAuth
begin

section \<open>The connection and its transport\<close>

text \<open>
  The members of \<^verbatim>\<open>GenericDatabaseConnection\<close> and its reads and writes of whole messages
  (\<^verbatim>\<open>core/database/generic_database_connection.cpp\<close>). The transport (\<^verbatim>\<open>ITransport\<close>) and the clock are the
  parameter \<open>transport\<close>: functions on a state \<open>'w\<close> of the world. A read gives the bytes it wrote to the
  buffer and whether the peer has closed. Cancellation is not armed, and memory does not run out.
\<close>

subsection \<open>State\<close>

record 'w transport =
  t_now :: "'w \<Rightarrow> 'w \<times> int"
  t_send :: "bytes \<Rightarrow> int \<Rightarrow> 'w \<Rightarrow> 'w \<times> (io_failure + nat)"
  t_recv :: "nat \<Rightarrow> int \<Rightarrow> 'w \<Rightarrow> 'w \<times> (io_failure + bytes \<times> bool)"
  t_close :: "'w \<Rightarrow> 'w"

record session_settings =
  max_messages :: nat
  max_wire_bytes :: nat
  max_columns_per_description :: nat
  max_metadata_entries :: nat
  max_column_name_bytes :: nat
  max_metadata_name_bytes :: nat
  max_rows :: nat
  max_cells :: nat
  max_results :: nat
  max_diagnostic_bytes :: nat
  max_sql_bytes :: nat
  max_parameters :: nat
  max_parameter_bytes :: nat
  max_parameter_total_bytes :: nat
  max_request_wire_bytes :: nat
  character_metadata :: character_metadata_policy

type_synonym column_provenance = "32 word \<times> 16 word"

record 'w connection =
  world :: 'w
  settings :: session_settings
  session_password :: string
  session_token :: "string option"
  protocol_parser :: pg_parser
  connected :: bool
  conn_state :: session_state
  closed_after_failure :: bool
  parameters :: "string \<rightharpoonup> string"
  peer_verified :: bool
  cancellation_key :: "bytes option"
  result_provenance :: "(nat \<times> column_provenance list) list"
  next_result_id :: nat

definition disposition :: "'w connection \<Rightarrow> session_disposition" where
  "disposition c = (if \<not> connected c then Retire else if conn_state c = Idle then Reusable else ResetRequired)"

definition conn_snapshot :: "'w connection \<Rightarrow> session_snapshot" where
  "conn_snapshot c = \<lparr>snapshot_state = conn_state c, snapshot_disposition = disposition c\<rparr>"

definition forget_backend_key :: "'w connection \<Rightarrow> 'w connection" where
  "forget_backend_key c = c\<lparr>cancellation_key := None\<rparr>"

definition forget_credentials :: "'w connection \<Rightarrow> 'w connection" where
  "forget_credentials c =
     c\<lparr>session_password := [], session_token := None, protocol_parser := clear_authentication_state (protocol_parser c)\<rparr>"

definition disconnect :: "'w transport \<Rightarrow> 'w connection \<Rightarrow> 'w connection" where
  "disconnect tr c =
     (let c = forget_credentials (forget_backend_key c);
          c = (if closed_after_failure c then c else c\<lparr>world := t_close tr (world c), closed_after_failure := True\<rparr>)
      in c\<lparr>connected := False, conn_state := Disconnected, parameters := Map.empty, peer_verified := False,
           result_provenance := []\<rparr>)"

definition mark_transport_failed :: "'w transport \<Rightarrow> 'w connection \<Rightarrow> 'w connection" where
  "mark_transport_failed tr c =
     (let was_connected = connected c;
          c = (forget_backend_key c)\<lparr>connected := False, conn_state := Disconnected\<rparr>
      in if was_connected then c\<lparr>world := t_close tr (world c), closed_after_failure := True\<rparr> else c)"

subsection \<open>Whole messages\<close>

definition expired :: "'w transport \<Rightarrow> int \<Rightarrow> 'w connection \<Rightarrow> 'w connection \<times> bool" where
  "expired tr deadline c = (let (w, now) = t_now tr (world c) in (c\<lparr>world := w\<rparr>, deadline \<le> now))"

definition deadline_failure :: io_failure where
  "deadline_failure = (Db_code Timeout, ''Database connection deadline expired'')"

function write_all_loop ::
  "'w transport \<Rightarrow> bool \<Rightarrow> int \<Rightarrow> bytes \<Rightarrow> 'w connection \<Rightarrow> 'w connection \<times> (io_failure + unit)" where
  "write_all_loop tr enforce deadline data c =
     (if data = [] then (c, Inr ())
      else
        let (c, late) = (if enforce then expired tr deadline c else (c, False))
        in if late then (mark_transport_failed tr c, Inl deadline_failure)
           else
             let (w, r) = t_send tr data deadline (world c); c = c\<lparr>world := w\<rparr>
             in case r of
                 Inl f \<Rightarrow> (mark_transport_failed tr c, Inl f)
               | Inr n \<Rightarrow>
                   if length data < n
                   then (mark_transport_failed tr c, Inl (Db_code ProtocolError, ''Transport write exceeded requested message bytes''))
                   else if n = 0 then (mark_transport_failed tr c, Inl (Db_code NetworkError, ''Write failed''))
                   else write_all_loop tr enforce deadline (drop n data) c)"
  by pat_completeness auto
termination
  by (relation "measure (\<lambda>(tr, enforce, deadline, data, c). length data)") auto

declare write_all_loop.simps [simp del]

text \<open>
  The loops that fill the header and the rest of a message: both ask for what is missing, at most 8192 bytes
  at once, and append what arrives.
\<close>

function receive_to ::
  "'w transport \<Rightarrow> bool \<Rightarrow> int \<Rightarrow> nat \<Rightarrow> bytes \<Rightarrow> 'w connection \<Rightarrow> 'w connection \<times> (io_failure + bytes)" where
  "receive_to tr enforce deadline needed message c =
     (if needed \<le> length message then (c, Inr message)
      else
        let (c, late) = (if enforce then expired tr deadline c else (c, False))
        in if late then (mark_transport_failed tr c, Inl deadline_failure)
           else
             let requested = min (needed - length message) 8192;
                 (w, r) = t_recv tr requested deadline (world c); c = c\<lparr>world := w\<rparr>
             in case r of
                 Inl f \<Rightarrow> (mark_transport_failed tr c, Inl f)
               | Inr (data, eof) \<Rightarrow>
                   if eof then (mark_transport_failed tr c, Inl (Db_code NetworkError, ''Unexpected EOF''))
                   else if requested < length data
                   then (mark_transport_failed tr c, Inl (Db_code ProtocolError, ''Transport read exceeded requested message bytes''))
                   else if data = []
                   then (mark_transport_failed tr c, Inl (Db_code NetworkError, ''Transport read made no progress''))
                   else receive_to tr enforce deadline needed (message @ data) c)"
  by pat_completeness auto
termination
  by (relation "measure (\<lambda>(tr, enforce, deadline, needed, message, c). needed - length message)")
    (auto simp: length_greater_0_conv [symmetric] simp del: length_greater_0_conv)

declare receive_to.simps [simp del]

definition allows_large_frame :: "char \<Rightarrow> bool" where
  "allows_large_frame t \<longleftrightarrow> t \<in> set ''DEVNATt''"

definition frame_limit :: "char \<Rightarrow> 32 word" where
  "frame_limit t = (if allows_large_frame t then 0x3fffffff else 30000)"

definition header_length :: "bytes \<Rightarrow> 32 word" where
  "header_length h =
     push_bit 24 (of_nat (u8 (h ! 1))) OR push_bit 16 (of_nat (u8 (h ! 2))) OR push_bit 8 (of_nat (u8 (h ! 3))) OR of_nat (u8 (h ! 4))"

definition read_message_result ::
  "'w transport \<Rightarrow> bool \<Rightarrow> int \<Rightarrow> nat \<Rightarrow> 'w connection \<Rightarrow> 'w connection \<times> (io_failure + bytes)" where
  "read_message_result tr enforce deadline remaining_bytes c =
     (if remaining_bytes < 5 then (mark_transport_failed tr c, Inl (Db_code ResourceLimit, ''Database response byte limit exceeded''))
      else case receive_to tr enforce deadline 5 [] c of
          (c, Inl f) \<Rightarrow> (c, Inl f)
        | (c, Inr header) \<Rightarrow>
            let len = header_length header; total_length = unat len + 1
            in if len < 4 \<or> frame_limit (header ! 0) < len
               then (mark_transport_failed tr c, Inl (Db_code ProtocolError, ''Invalid message length''))
               else if header ! 0 = CHR ''d'' \<or> header ! 0 = CHR ''c''
               then (disconnect tr c, Inl (Db_code ProtocolError, ''PostgreSQL COPY frame arrived outside COPY mode''))
               else if remaining_bytes < total_length
               then (mark_transport_failed tr c, Inl (Db_code ResourceLimit, ''Database response byte limit exceeded''))
               else if (header ! 0 = CHR ''E'' \<or> header ! 0 = CHR ''N'') \<and> max_diagnostic_bytes (settings c) < unat len - 4
               then (mark_transport_failed tr c, Inl (Db_code ResourceLimit, ''Database diagnostic byte limit exceeded''))
               else receive_to tr enforce deadline total_length header c)"

subsection \<open>The session after a read or a write\<close>

text \<open>
  A session is well-formed if it is connected exactly if its state is not \<^verbatim>\<open>Disconnected\<close>, the transport of a
  connected session has not been closed, and a session that is not connected holds no cancellation key.
\<close>

definition session_wf :: "'w connection \<Rightarrow> bool" where
  "session_wf c \<longleftrightarrow>
     (connected c \<longleftrightarrow> conn_state c \<noteq> Disconnected) \<and> (connected c \<longrightarrow> \<not> closed_after_failure c) \<and>
     (\<not> connected c \<longrightarrow> cancellation_key c = None)"

text \<open>The session has ended, and its transport was closed.\<close>

definition retired :: "'w connection \<Rightarrow> bool" where
  "retired c \<longleftrightarrow> \<not> connected c \<and> conn_state c = Disconnected \<and> cancellation_key c = None \<and> closed_after_failure c"

text \<open>Only the world has moved on.\<close>

definition same_session :: "'w connection \<Rightarrow> 'w connection \<Rightarrow> bool" where
  "same_session c c' \<longleftrightarrow> c' = c\<lparr>world := world c'\<rparr>"

lemma same_session_refl [simp]: "same_session c c"
  by (simp add: same_session_def)

lemma same_session_world [simp]: "same_session c (c\<lparr>world := w\<rparr>)"
  by (simp add: same_session_def)

lemma same_session_trans [trans]: "same_session a b \<Longrightarrow> same_session b c \<Longrightarrow> same_session a c"
  by (cases a; cases b; cases c) (simp add: same_session_def)

lemma same_session_fields:
  assumes "same_session c c'"
  shows "connected c' = connected c" "conn_state c' = conn_state c" "closed_after_failure c' = closed_after_failure c"
    "cancellation_key c' = cancellation_key c" "settings c' = settings c" "parameters c' = parameters c"
    "next_result_id c' = next_result_id c" "result_provenance c' = result_provenance c"
    "session_wf c' = session_wf c"
proof -
  have c': "c' = c\<lparr>world := world c'\<rparr>" using assms by (simp add: same_session_def)
  show "connected c' = connected c" "conn_state c' = conn_state c" "closed_after_failure c' = closed_after_failure c"
    "cancellation_key c' = cancellation_key c" "settings c' = settings c" "parameters c' = parameters c"
    "next_result_id c' = next_result_id c" "result_provenance c' = result_provenance c"
    by (subst c', simp)+
  then show "session_wf c' = session_wf c" by (simp add: session_wf_def)
qed

lemma retired_wf: "retired c \<Longrightarrow> session_wf c"
  by (simp add: retired_def session_wf_def)

lemma retired_disconnect [simp, intro]: "retired (disconnect tr c)"
  by (simp add: retired_def disconnect_def forget_credentials_def forget_backend_key_def Let_def)

lemma retired_mark [simp, intro]: "connected c \<or> retired c \<Longrightarrow> retired (mark_transport_failed tr c)"
  by (auto simp: retired_def mark_transport_failed_def forget_backend_key_def Let_def)

lemma mark_not_connected [simp]:
  "\<not> connected (mark_transport_failed tr c)" "conn_state (mark_transport_failed tr c) = Disconnected"
  "cancellation_key (mark_transport_failed tr c) = None"
  by (simp_all add: mark_transport_failed_def forget_backend_key_def Let_def)

lemma mark_wf [simp, intro]: "session_wf (mark_transport_failed tr c)"
  by (simp add: session_wf_def)

lemma expired_same [simp]: "same_session c (fst (expired tr deadline c))"
  by (simp add: expired_def case_prod_unfold Let_def)

text \<open>A read or a write leaves the session as it was, or ends it.\<close>

definition kept_or_ended :: "'w connection \<Rightarrow> 'w connection \<times> ('e + 'a) \<Rightarrow> bool" where
  "kept_or_ended c r \<longleftrightarrow> (case snd r of Inr _ \<Rightarrow> same_session c (fst r) | Inl _ \<Rightarrow> connected c \<longrightarrow> retired (fst r))"

lemma kept_or_ended_same:
  assumes "kept_or_ended c' r" "same_session c c'"
  shows "kept_or_ended c r"
  using assms same_session_trans [OF assms(2)] same_session_fields(1) [OF assms(2)]
  by (auto simp: kept_or_ended_def split: sum.splits)

lemma kept_or_ended_failed:
  assumes "same_session c c'"
  shows "kept_or_ended c (mark_transport_failed tr c', Inl f)"
  using same_session_fields(1) [OF assms] by (simp add: kept_or_ended_def)

lemma kept_or_ended_disconnect [simp]: "kept_or_ended c (disconnect tr c', Inl f)"
  by (simp add: kept_or_ended_def)

lemma deadline_check_same:
  assumes "(if enforce then expired tr deadline c else (c, False)) = (c', late)"
  shows "same_session c c'"
  using assms by (auto simp: expired_def Let_def case_prod_unfold split: if_splits)

lemma write_all_kept: "kept_or_ended c (write_all_loop tr enforce deadline data c)"
proof (induction tr enforce deadline data c rule: write_all_loop.induct)
  case (1 tr enforce deadline data c)
  obtain c1 late where check: "(if enforce then expired tr deadline c else (c, False)) = (c1, late)" by fastforce
  obtain w r where send: "t_send tr data deadline (world c1) = (w, r)" by fastforce
  have same: "same_session c c1" by (rule deadline_check_same [OF check])
  then have same': "same_session c (c1\<lparr>world := w\<rparr>)" by (rule same_session_trans) simp
  note step = write_all_loop.simps [of tr enforce deadline data c] check send
  show ?case
  proof (cases "data = [] \<or> late \<or> (\<exists>f. r = Inl f) \<or> (\<exists>n. r = Inr n \<and> (length data < n \<or> n = 0))")
    case True
    then consider "data = []" | "data \<noteq> []" late | f where "data \<noteq> []" "\<not> late" "r = Inl f"
      | n where "data \<noteq> []" "\<not> late" "r = Inr n" "length data < n" | "data \<noteq> []" "\<not> late" "r = Inr 0"
      by blast
    then show ?thesis
      by cases (simp_all add: step kept_or_ended_failed [OF same] kept_or_ended_failed [OF same'],
          simp add: write_all_loop.simps [of _ _ _ "[]"] kept_or_ended_def)
  next
    case False
    then obtain n where r: "r = Inr n" "\<not> length data < n" "n \<noteq> 0" by (cases r) auto
    have "kept_or_ended (c1\<lparr>world := w\<rparr>) (write_all_loop tr enforce deadline (drop n data) (c1\<lparr>world := w\<rparr>))"
      using 1 [OF _ check [symmetric] refl _ send [symmetric] refl refl r(1)] r False by simp
    from kept_or_ended_same [OF this same'] show ?thesis using False r by (simp add: step)
  qed
qed

lemma receive_to_kept: "kept_or_ended c (receive_to tr enforce deadline needed message c)"
proof (induction tr enforce deadline needed message c rule: receive_to.induct)
  case (1 tr enforce deadline needed message c)
  define requested where "requested = min (needed - length message) 8192"
  obtain c1 late where check: "(if enforce then expired tr deadline c else (c, False)) = (c1, late)" by fastforce
  obtain w r where recv: "t_recv tr requested deadline (world c1) = (w, r)" by fastforce
  have same: "same_session c c1" by (rule deadline_check_same [OF check])
  then have same': "same_session c (c1\<lparr>world := w\<rparr>)" by (rule same_session_trans) simp
  note step = receive_to.simps [of tr enforce deadline needed message c] check recv
    requested_def [symmetric]
  show ?case
  proof (cases "needed \<le> length message \<or> late \<or> (\<exists>f. r = Inl f) \<or>
      (\<exists>data eof. r = Inr (data, eof) \<and> (eof \<or> requested < length data \<or> data = []))")
    case True
    then consider "needed \<le> length message" | "\<not> needed \<le> length message" late
      | f where "\<not> needed \<le> length message" "\<not> late" "r = Inl f"
      | data where "\<not> needed \<le> length message" "\<not> late" "r = Inr (data, True)"
      | data where "\<not> needed \<le> length message" "\<not> late" "r = Inr (data, False)" "requested < length data"
      | "\<not> needed \<le> length message" "\<not> late" "r = Inr ([], False)"
      by blast
    then show ?thesis
      by cases (simp_all add: step kept_or_ended_failed [OF same] kept_or_ended_failed [OF same'],
          simp add: kept_or_ended_def)
  next
    case False
    then obtain data where r: "r = Inr (data, False)" "\<not> requested < length data" "data \<noteq> []" by (cases r) auto
    have "kept_or_ended (c1\<lparr>world := w\<rparr>) (receive_to tr enforce deadline needed (message @ data) (c1\<lparr>world := w\<rparr>))"
      using 1 [OF _ check [symmetric] refl _ requested_def recv [symmetric] refl refl r(1) refl] r False by simp
    from kept_or_ended_same [OF this same'] show ?thesis using False r by (simp add: step)
  qed
qed

lemma read_message_kept: "kept_or_ended c (read_message_result tr enforce deadline remaining c)"
proof -
  obtain c1 r where header: "receive_to tr enforce deadline 5 [] c = (c1, r)" by fastforce
  have kept: "kept_or_ended c (c1, r)" using receive_to_kept [of c tr enforce deadline 5 "[]"] header by simp
  show ?thesis
  proof (cases r)
    case (Inl f)
    with kept header show ?thesis
      by (auto simp: read_message_result_def kept_or_ended_failed)
  next
    case (Inr h)
    with kept have same: "same_session c c1" by (simp add: kept_or_ended_def)
    have "kept_or_ended c (receive_to tr enforce deadline (unat (header_length h) + 1) h c1)"
      by (rule kept_or_ended_same [OF receive_to_kept same])
    then show ?thesis using Inr header
      by (simp add: read_message_result_def kept_or_ended_failed [OF same] kept_or_ended_failed Let_def)
  qed
qed

subsection \<open>Messages are reassembled\<close>

text \<open>
  A transport that works until the deadline: \<open>rest\<close> is what the peer will still be read to have sent. The clock stays before
  the deadline, a write takes at least one byte, and a read of \<open>n\<close> bytes returns some of the next ones, as many as it likes.
\<close>

definition works :: "'w transport \<Rightarrow> int \<Rightarrow> ('w \<Rightarrow> bytes) \<Rightarrow> bool" where
  "works tr deadline rest \<longleftrightarrow>
     (\<forall>w. snd (t_now tr w) < deadline \<and> rest (fst (t_now tr w)) = rest w) \<and>
     (\<forall>w data. data \<noteq> [] \<longrightarrow>
        (\<exists>k w'. 0 < k \<and> k \<le> length data \<and> t_send tr data deadline w = (w', Inr k) \<and> rest w' = rest w)) \<and>
     (\<forall>w n. 0 < n \<and> rest w \<noteq> [] \<longrightarrow>
        (\<exists>k w'. 0 < k \<and> k \<le> n \<and> k \<le> length (rest w) \<and>
           t_recv tr n deadline w = (w', Inr (take k (rest w), False)) \<and> rest w' = drop k (rest w)))"

lemma works_check:
  assumes "works tr deadline rest"
  obtains c1 where "(if enforce then expired tr deadline c else (c, False)) = (c1, False)" "same_session c c1"
    "rest (world c1) = rest (world c)"
proof -
  obtain w now where t: "t_now tr (world c) = (w, now)" by fastforce
  with assms have "now < deadline" "rest w = rest (world c)"
    unfolding works_def by (metis snd_conv, metis fst_conv)
  with t show ?thesis using that [of "if enforce then c\<lparr>world := w\<rparr> else c"] by (simp add: expired_def)
qed

lemma receive_to_works:
  assumes "works tr deadline rest" "length message \<le> needed" "needed \<le> length message + length (rest (world c))"
  shows "\<exists>c'. receive_to tr enforce deadline needed message c =
             (c', Inr (message @ take (needed - length message) (rest (world c)))) \<and>
           same_session c c' \<and> rest (world c') = drop (needed - length message) (rest (world c))"
  using assms(2,3)
proof (induction "needed - length message" arbitrary: message c rule: less_induct)
  case less
  show ?case
  proof (cases "needed \<le> length message")
    case True
    with less.prems show ?thesis by (simp add: receive_to.simps [of tr enforce deadline needed message])
  next
    case False
    define requested where "requested = min (needed - length message) 8192"
    from False have pos: "0 < requested" by (simp add: requested_def)
    obtain c1 where check: "(if enforce then expired tr deadline c else (c, False)) = (c1, False)"
      and same: "same_session c c1" and rest1: "rest (world c1) = rest (world c)" by (rule works_check [OF assms(1)])
    from False less.prems rest1 have some: "rest (world c1) \<noteq> []" by auto
    with assms(1) pos obtain k w' where k: "0 < k" "k \<le> requested" "k \<le> length (rest (world c1))"
      and recv: "t_recv tr requested deadline (world c1) = (w', Inr (take k (rest (world c1)), False))"
      and rest': "rest w' = drop k (rest (world c1))" unfolding works_def by metis
    let ?m = "message @ take k (rest (world c))" and ?c = "c1\<lparr>world := w'\<rparr>"
    have len: "length ?m = length message + k" using k rest1 by simp
    have "\<exists>c'. receive_to tr enforce deadline needed ?m ?c =
             (c', Inr (?m @ take (needed - length ?m) (rest (world ?c)))) \<and>
           same_session ?c c' \<and> rest (world c') = drop (needed - length ?m) (rest (world ?c))"
      by (rule less.hyps) (use k len rest' rest1 less.prems requested_def False in auto)
    then obtain c' where c': "receive_to tr enforce deadline needed ?m ?c =
             (c', Inr (?m @ take (needed - length ?m) (rest (world ?c))))"
      "same_session ?c c'" "rest (world c') = drop (needed - length ?m) (rest (world ?c))" by blast
    have left: "k + (needed - (length message + k)) = needed - length message" using k requested_def by linarith
    have take: "?m @ take (needed - length ?m) (rest (world ?c)) = message @ take (needed - length message) (rest (world c))"
      using rest' rest1 len left by (simp add: take_add [symmetric])
    have drop: "drop (needed - length ?m) (rest (world ?c)) = drop (needed - length message) (rest (world c))"
      using rest' rest1 len left by (simp add: add.commute)
    have "receive_to tr enforce deadline needed message c = receive_to tr enforce deadline needed ?m ?c"
      using False k rest1 check recv some
      by (simp add: receive_to.simps [of tr enforce deadline needed message c] requested_def [symmetric] Let_def)
    moreover have "same_session c c'" using same c'(2) same_session_trans same_session_world by metis
    ultimately show ?thesis using c' take drop by simp
  qed
qed

lemma write_all_works:
  assumes "works tr deadline rest"
  shows "\<exists>c'. write_all_loop tr enforce deadline data c = (c', Inr ()) \<and> same_session c c' \<and> rest (world c') = rest (world c)"
proof (induction "length data" arbitrary: data c rule: less_induct)
  case less
  show ?case
  proof (cases "data = []")
    case True
    then show ?thesis by (simp add: write_all_loop.simps [of tr enforce deadline "[]"])
  next
    case False
    obtain c1 where check: "(if enforce then expired tr deadline c else (c, False)) = (c1, False)"
      and same: "same_session c c1" and rest1: "rest (world c1) = rest (world c)" by (rule works_check [OF assms])
    from assms False obtain k w' where k: "0 < k" "k \<le> length data"
      and send: "t_send tr data deadline (world c1) = (w', Inr k)" and rest': "rest w' = rest (world c1)"
      unfolding works_def by metis
    let ?c = "c1\<lparr>world := w'\<rparr>"
    obtain c' where c': "write_all_loop tr enforce deadline (drop k data) ?c = (c', Inr ())" "same_session ?c c'"
      "rest (world c') = rest (world ?c)" using less [of "drop k data" ?c] k False by auto
    have "write_all_loop tr enforce deadline data c = (c', Inr ())"
      using False k check send c'(1) by (simp add: write_all_loop.simps [of tr enforce deadline data c])
    moreover have "same_session c c'" using same c'(2) same_session_trans same_session_world by metis
    ultimately show ?thesis using c'(3) rest' rest1 by simp
  qed
qed

lemma header_length_frame: "header_length (take 5 (frame t b)) = of_nat (4 + length b)"
  using join_u32 [of "of_nat (4 + length b)"] by (simp add: header_length_def frame_def append_u32_def numeral_eq_Suc)

text \<open>A frame is acceptable if it is neither a COPY frame nor longer than its tag, the response and diagnostics may be.\<close>

definition acceptable :: "session_settings \<Rightarrow> nat \<Rightarrow> char \<Rightarrow> bytes \<Rightarrow> bool" where
  "acceptable se remaining t b \<longleftrightarrow>
     t \<noteq> CHR ''d'' \<and> t \<noteq> CHR ''c'' \<and> 4 + length b \<le> unat (frame_limit t) \<and> 5 + length b \<le> remaining \<and>
     (t = CHR ''E'' \<or> t = CHR ''N'' \<longrightarrow> length b \<le> max_diagnostic_bytes se)"

lemma read_message_works:
  assumes "works tr deadline rest" "acceptable (settings c) remaining t b" "rest (world c) = frame t b @ later"
  shows "\<exists>c'. read_message_result tr enforce deadline remaining c = (c', Inr (frame t b)) \<and> same_session c c' \<and>
           rest (world c') = later"
proof -
  let ?h = "take 5 (frame t b)"
  have limit: "unat (frame_limit t) < 2 ^ 31" by (simp add: frame_limit_def)
  have fits: "4 + length b < 2 ^ 32" using assms(2) limit by (simp add: acceptable_def)
  then have len: "unat (header_length ?h) = 4 + length b" unfolding header_length_frame unat_of_nat by (simp add: take_bit_nat_eq_self)
  have tag: "?h ! 0 = t" by (simp add: frame_def)
  obtain c1 where c1: "receive_to tr enforce deadline 5 [] c = (c1, Inr ?h)" "same_session c c1"
    "rest (world c1) = drop 5 (frame t b) @ later"
    using receive_to_works [OF assms(1), of "[]" 5 c enforce] assms(3) by auto
  obtain c' where c': "receive_to tr enforce deadline (unat (header_length ?h) + 1) ?h c1 = (c', Inr (frame t b))"
    "same_session c1 c'" "rest (world c') = later"
    using receive_to_works [OF assms(1), of ?h "unat (header_length ?h) + 1" c1 enforce] c1(3) len by auto
  have bounds: "\<not> header_length ?h < 4" "\<not> frame_limit t < header_length ?h"
    using assms(2) len by (simp_all add: word_less_nat_alt acceptable_def)
  have diagnostic: "\<not> ((t = CHR ''E'' \<or> t = CHR ''N'') \<and> max_diagnostic_bytes (settings c) < length b)"
    using assms(2) by (auto simp: acceptable_def)
  have "read_message_result tr enforce deadline remaining c = (c', Inr (frame t b))"
    using assms(2) c1(1) c'(1) bounds diagnostic len same_session_fields(5) [OF c1(2)]
    by (simp add: read_message_result_def Let_def tag acceptable_def del: take_append)
  with c1(2) c'(2,3) same_session_trans show ?thesis by blast
qed

end
