(* ===== verification/PgConnection.thy ===== *)
theory PgConnection
  imports PgTransport
begin

section \<open>Executing statements\<close>

text \<open>
  The execution half of \<^verbatim>\<open>GenericDatabaseConnection\<close>: the loop of \<^verbatim>\<open>read_query_result\<close> that reads one response, the
  publication of its result, and the operations \<^verbatim>\<open>execute_query\<close>, \<^verbatim>\<open>execute_cleanup_query\<close>, \<^verbatim>\<open>execute_prepared\<close>,
  \<^verbatim>\<open>describe_statement\<close> and \<^verbatim>\<open>decline_prepared_description_candidate\<close>
  (\<^verbatim>\<open>core/database/generic_database_connection.cpp\<close>). The virtual \<^verbatim>\<open>resolve_types\<close> is an argument of the operations
  that call it.
\<close>

subsection \<open>One response message\<close>

datatype response_kind = SimpleExecution | PreparedExecution | Description | DeclinedDescription

datatype description_phase = Phase_Parse | Phase_Parameters | Phase_Result | Phase_Complete | Phase_Error

record response =
  messages :: "pg_message list"
  query_error :: "string option"
  query_sqlstate :: string
  saw_completion :: bool
  saw_expected_completion :: bool
  phase :: description_phase
  description_shape :: "described_result_shape option"
  wire_bytes :: nat
  row_count :: nat
  cell_count :: nat
  result_count :: nat
  metadata_entries :: nat
  metadata_name_bytes :: nat
  response_parameters :: "string \<rightharpoonup> string"

definition start_response :: "(string \<rightharpoonup> string) \<Rightarrow> response" where
  "start_response params =
     \<lparr>messages = [], query_error = None, query_sqlstate = [], saw_completion = False, saw_expected_completion = False,
      phase = Phase_Parse, description_shape = None, wire_bytes = 0, row_count = 0, cell_count = 0, result_count = 0,
      metadata_entries = 0, metadata_name_bytes = 0, response_parameters = params\<rparr>"

text \<open>The ways a message ends the loop: an exception, a refusal, the start of COPY, and an error that ends the session.\<close>

datatype response_exit = Thrown error | Refused db_error_code string | Copy_mode | Terminal backend_error

definition throw :: "string \<Rightarrow> response_exit + 'a" where
  "throw m = Inl (Thrown (Runtime_error m))"

definition caught :: "'a result \<Rightarrow> response_exit + 'a" where
  "caught r = map_sum Thrown id r"

definition is_description :: "response_kind \<Rightarrow> bool" where
  "is_description kind \<longleftrightarrow> kind = Description \<or> kind = DeclinedDescription"

definition check_admissible :: "response \<Rightarrow> pg_message \<Rightarrow> response_exit + response" where
  "check_admissible rs msg =
     (if query_error rs \<noteq> None \<and> tag msg \<notin> set ''NSAZE'' then throw ''PostgreSQL result frame arrived after ErrorResponse''
      else if tag msg \<in> set ''GHW'' then Inl Copy_mode
      else if tag msg \<in> set ''RK'' then Inl (Refused ProtocolError ''PostgreSQL startup frame arrived during query'')
      else Inr rs)"

definition check_description :: "pg_message \<Rightarrow> response \<Rightarrow> response_exit + response" where
  "check_description msg rs =
     (if tag msg = CHR ''1'' then
        if phase rs \<noteq> Phase_Parse then throw ''PostgreSQL ParseComplete out of sequence''
        else Inr (rs\<lparr>phase := Phase_Parameters\<rparr>)
      else if tag msg = CHR ''t'' then
        if phase rs \<noteq> Phase_Parameters then throw ''PostgreSQL ParameterDescription out of sequence''
        else Inr (rs\<lparr>phase := Phase_Result\<rparr>)
      else if tag msg = CHR ''T'' \<or> tag msg = CHR ''n'' then
        if phase rs \<noteq> Phase_Result then throw ''PostgreSQL statement description out of sequence''
        else Inr (rs\<lparr>description_shape := Some (if tag msg = CHR ''n'' then Described_NoResultSet else Described_ResultSet),
                     phase := Phase_Complete\<rparr>)
      else if tag msg = CHR ''E'' then Inr (rs\<lparr>phase := Phase_Error\<rparr>)
      else if tag msg \<in> set ''NSAZ'' then Inr rs
      else throw ''Unexpected PostgreSQL statement description frame'')"

definition check_execution :: "response_kind \<Rightarrow> pg_message \<Rightarrow> response \<Rightarrow> response_exit + response" where
  "check_execution kind msg rs =
     (if tag msg \<in> set ''12tn'' then
        if kind = SimpleExecution then throw ''PostgreSQL extended-query frame arrived during simple query'' else Inr rs
      else if tag msg \<in> set ''TDCIENSAZ'' then Inr rs
      else throw ''Unexpected PostgreSQL query response frame'')"

definition check_expected :: "string \<Rightarrow> pg_message \<Rightarrow> response \<Rightarrow> response_exit + response" where
  "check_expected expected msg rs =
     (if expected = [] then Inr rs
      else if tag msg = CHR ''C'' then
        if saw_expected_completion rs \<or> length (body msg) \<noteq> length expected + 1 \<or> last (body msg) \<noteq> NUL_byte \<or>
           butlast (body msg) \<noteq> expected
        then throw ''Unexpected PostgreSQL reset completion''
        else Inr (rs\<lparr>saw_expected_completion := True\<rparr>)
      else if tag msg \<in> set ''TDI'' \<or> (tag msg = CHR ''Z'' \<and> query_error rs = None \<and> \<not> saw_expected_completion rs)
      then throw ''Unexpected PostgreSQL reset response''
      else Inr rs)"

definition leading_count :: "bytes \<Rightarrow> response_exit + nat" where
  "leading_count payload =
     (if length payload < 2 then throw ''Incomplete PostgreSQL result count''
      else Inr (u8 (payload ! 0) * 256 + u8 (payload ! 1)))"

definition limit_exceeded :: response_exit where
  "limit_exceeded = Refused ResourceLimit ''Database decoded result count limit exceeded''"

text \<open>The names of a row description: the end of the descriptions and the sum of the name lengths.\<close>

fun description_names :: "session_settings \<Rightarrow> bytes \<Rightarrow> nat \<Rightarrow> nat \<Rightarrow> nat \<Rightarrow> response_exit + nat \<times> nat" where
  "description_names se payload 0 offset names = Inr (offset, names)"
| "description_names se payload (Suc columns) offset names =
     (case find_from (\<lambda>c. c = NUL_byte) payload offset of
        None \<Rightarrow> throw ''Unterminated PostgreSQL column name''
      | Some e \<Rightarrow>
          let name_bytes = e - offset
          in if max_column_name_bytes se < name_bytes \<or> max_metadata_name_bytes se - names < name_bytes
             then Inl limit_exceeded
             else if length payload - (e + 1) < 18 then throw ''Incomplete PostgreSQL column metadata''
             else description_names se payload columns (e + 1 + 18) (names + name_bytes))"

definition count_message :: "session_settings \<Rightarrow> pg_message \<Rightarrow> response \<Rightarrow> response_exit + response" where
  "count_message se msg rs =
     (if tag msg = CHR ''T'' \<or> tag msg = CHR ''t'' then
        bind_result (leading_count (body msg)) (\<lambda>columns.
          if max_columns_per_description se < columns \<or> max_metadata_entries se - metadata_entries rs < columns
          then Inl limit_exceeded
          else
            let rs = rs\<lparr>metadata_entries := metadata_entries rs + columns\<rparr>
            in if tag msg = CHR ''t'' then Inr rs
               else bind_result (description_names se (body msg) columns 2 (metadata_name_bytes rs)) (\<lambda>(offset, names).
                 if offset \<noteq> length (body msg) then throw ''Trailing PostgreSQL column metadata''
                 else Inr (rs\<lparr>metadata_name_bytes := names\<rparr>)))
      else if tag msg = CHR ''D'' then
        bind_result (leading_count (body msg)) (\<lambda>columns.
          if row_count rs = max_rows se \<or> max_cells se - cell_count rs < columns then Inl limit_exceeded
          else Inr (rs\<lparr>row_count := row_count rs + 1, cell_count := cell_count rs + columns\<rparr>))
      else if tag msg \<in> set ''CEI'' then
        if result_count rs = max_results se then Inl limit_exceeded
        else Inr (rs\<lparr>result_count := result_count rs + 1\<rparr>)
      else Inr rs)"

definition record_parameter :: "pg_message \<Rightarrow> response \<Rightarrow> response_exit + response" where
  "record_parameter msg rs =
     (if tag msg \<noteq> CHR ''S'' then Inr rs
      else case record_parameter_status (body msg) (response_parameters rs) of
          None \<Rightarrow> Inl (Refused ProtocolError ''Malformed PostgreSQL ParameterStatus message'')
        | Some params \<Rightarrow> Inr (rs\<lparr>response_parameters := params\<rparr>))"

definition terminal_error :: "string \<Rightarrow> string \<Rightarrow> backend_error" where
  "terminal_error message sqlstate =
     (BackendError (Db_code NetworkError) (''Query error: '' @ message))
       \<lparr>native_state := Some sqlstate, err_state := Disconnected, err_disposition := Retire\<rparr>"

definition record_error :: "pg_message \<Rightarrow> response \<Rightarrow> response_exit + response" where
  "record_error msg rs =
     (if \<not> is_error_response msg then Inr rs
      else
        bind_result (caught (is_terminal_error_response msg)) (\<lambda>terminal.
          if query_error rs \<noteq> None \<and> \<not> terminal then throw ''PostgreSQL result frame arrived after ErrorResponse''
          else
            bind_result (caught (extract_error_message msg)) (\<lambda>message.
            bind_result (caught (extract_error_sqlstate msg)) (\<lambda>sqlstate.
              if terminal then Inl (Terminal (terminal_error message sqlstate))
              else Inr (rs\<lparr>query_error := Some message, query_sqlstate := sqlstate\<rparr>)))))"

text \<open>The response with the message retained, and the state it reports when it is \<^verbatim>\<open>ReadyForQuery\<close>.\<close>

definition retain_message :: "pg_message \<Rightarrow> response \<Rightarrow> response_exit + response \<times> session_state option" where
  "retain_message msg rs =
     (let rs = rs\<lparr>saw_completion := saw_completion rs \<or> tag msg \<in> set ''CEI''\<rparr>
      in bind_result (caught (is_ready_for_query msg)) (\<lambda>is_ready.
           Inr (rs\<lparr>messages := messages rs @ [msg]\<rparr>, if is_ready then Some (ready_state (body msg)) else None)))"

definition on_response ::
  "session_settings \<Rightarrow> response_kind \<Rightarrow> string \<Rightarrow> response \<Rightarrow> pg_message \<Rightarrow> response_exit + response \<times> session_state option" where
  "on_response se kind expected rs msg =
     bind_result (check_admissible rs msg) (\<lambda>rs.
     bind_result (if is_description kind then check_description msg rs else check_execution kind msg rs) (\<lambda>rs.
     bind_result (check_expected expected msg rs) (\<lambda>rs.
     bind_result (count_message se msg rs) (\<lambda>rs.
     bind_result (record_parameter msg rs) (\<lambda>rs.
     bind_result (record_error msg rs) (retain_message msg))))))"

subsection \<open>The loop\<close>

definition fails :: "db_error_code \<Rightarrow> string \<Rightarrow> 'a backend_result" where
  "fails code message = Failed (BackendError (Db_code code) message)"

definition leave_response :: "'w transport \<Rightarrow> 'w connection \<Rightarrow> response_exit \<Rightarrow> 'w connection \<times> backend_error" where
  "leave_response tr c x = (case x of
       Thrown e \<Rightarrow> (mark_transport_failed tr c, BackendError (Db_code ProtocolError) (what e))
     | Refused code message \<Rightarrow> (mark_transport_failed tr c, BackendError (Db_code code) message)
     | Copy_mode \<Rightarrow>
         (disconnect tr c, BackendError (Db_code UnsupportedFeature) ''PostgreSQL COPY streaming is not supported'')
     | Terminal e \<Rightarrow> (mark_transport_failed tr c, e))"

definition complete_response ::
  "'w transport \<Rightarrow> response_kind \<Rightarrow> response \<Rightarrow> 'w connection \<Rightarrow> 'w connection \<times> (backend_error + response)" where
  "complete_response tr kind rs c =
     (if \<not> is_description kind \<and> \<not> saw_completion rs
      then (mark_transport_failed tr c,
            Inl (BackendError (Db_code ProtocolError) ''PostgreSQL query ended without a completion response''))
      else if is_description kind \<and> phase rs \<noteq> Phase_Complete \<and> phase rs \<noteq> Phase_Error
      then (mark_transport_failed tr c,
            Inl (BackendError (Db_code ProtocolError) ''PostgreSQL statement description was incomplete''))
      else (c, Inr rs))"

text \<open>The last numeric argument counts the messages that the limit still allows.\<close>

fun read_responses ::
  "'w transport \<Rightarrow> response_kind \<Rightarrow> string \<Rightarrow> int \<Rightarrow> response \<Rightarrow> nat \<Rightarrow> 'w connection \<Rightarrow>
     'w connection \<times> (backend_error + response)" where
  "read_responses tr kind expected deadline rs 0 c =
     (mark_transport_failed tr c, Inl (BackendError (Db_code ResourceLimit) ''Database response message limit exceeded''))"
| "read_responses tr kind expected deadline rs (Suc allowed) c =
     (case read_message_result tr (kind \<noteq> DeclinedDescription) deadline (max_wire_bytes (settings c) - wire_bytes rs) c of
        (c, Inl (code, message)) \<Rightarrow> (c, Inl (BackendError code message))
      | (c, Inr data) \<Rightarrow>
          let rs = rs\<lparr>wire_bytes := wire_bytes rs + length data\<rparr>
          in case bind_result (caught (parse_message data)) (on_response (settings c) kind expected rs) of
              Inl x \<Rightarrow> (let (c, e) = leave_response tr c x in (c, Inl e))
            | Inr (rs, reported) \<Rightarrow>
                let c = c\<lparr>parameters := response_parameters rs\<rparr>
                in case reported of
                    None \<Rightarrow> read_responses tr kind expected deadline rs allowed c
                  | Some st \<Rightarrow> complete_response tr kind rs (c\<lparr>conn_state := st\<rparr>))"

subsection \<open>Publishing the result\<close>

record 'w driver =
  transport_of :: "'w transport"
  floats :: float_reader
  float_environment :: float_env
  profile :: pg_catalog_profile

type_synonym type_map = "32 word \<rightharpoonup> native_type_info"
type_synonym 'w resolver = "32 word list \<Rightarrow> int \<Rightarrow> 'w connection \<Rightarrow> 'w connection \<times> type_map backend_result"

text \<open>A \<^verbatim>\<open>std::map\<close> of result identities in key order; at 4096 entries the smallest key goes.\<close>

fun ordered_put :: "nat \<Rightarrow> 'v \<Rightarrow> (nat \<times> 'v) list \<Rightarrow> (nat \<times> 'v) list" where
  "ordered_put k v [] = [(k, v)]"
| "ordered_put k v ((k', v') # rest) =
     (if k < k' then (k, v) # (k', v') # rest
      else if k = k' then (k, v) # rest
      else (k', v') # ordered_put k v rest)"

definition record_result_provenance :: "nat \<Rightarrow> column_provenance list \<Rightarrow> 'w connection \<Rightarrow> 'w connection" where
  "record_result_provenance result_id provenance c =
     (let kept = (if 4096 \<le> length (result_provenance c) then tl (result_provenance c) else result_provenance c)
      in c\<lparr>result_provenance := ordered_put result_id provenance kept\<rparr>)"

definition release_result_provenance :: "nat \<Rightarrow> 'w connection \<Rightarrow> 'w connection" where
  "release_result_provenance result_id c =
     c\<lparr>result_provenance := filter (\<lambda>(k, v). k \<noteq> result_id) (result_provenance c)\<rparr>"

definition invalid_metadata :: "string \<Rightarrow> backend_error" where
  "invalid_metadata message = (BackendError (Db_code QueryFailed) message)\<lparr>err_class := Class_InvalidMetadata\<rparr>"

definition resolve_parameters ::
  "'w resolver \<Rightarrow> response_kind \<Rightarrow> 32 word list \<Rightarrow> int \<Rightarrow> 'w connection \<Rightarrow> 'w connection \<times> (backend_error + native_type_info list)" where
  "resolve_parameters resolve kind ids deadline c =
     (if kind = SimpleExecution \<or> ids = [] then (c, Inr [])
      else case resolve ids deadline c of
          (c, Failed e) \<Rightarrow> (c, Inl (e\<lparr>err_operation := Op_ResolveTypes\<rparr>))
        | (c, Value types _) \<Rightarrow>
            if list_ex (\<lambda>i. types i = None) ids
            then (c, Inl ((invalid_metadata ''Data source returned incomplete parameter type metadata'')
                   \<lparr>err_operation := Op_ResolveTypes, err_state := conn_state c, err_disposition := disposition c\<rparr>))
            else (c, Inr (map (\<lambda>i. the (types i)) ids)))"

definition normalize_item ::
  "'w driver \<Rightarrow> 'w resolver \<Rightarrow> response_kind \<Rightarrow> int \<Rightarrow> parsed_query_result \<Rightarrow> 'w connection \<Rightarrow>
     'w connection \<times> (backend_error + query_result)" where
  "normalize_item d resolve kind deadline parsed c =
     (let rid = next_result_id c;
          c = record_result_provenance rid (map (\<lambda>column. (table_oid column, column_attribute_number column)) (result_columns parsed))
                (c\<lparr>next_result_id := (rid + 1) mod 2 ^ 64\<rparr>);
          item = \<lparr>q_rows = result_rows parsed,
                  q_columns = map (\<lambda>column. \<lparr>rc_name = column_name column,
                    rc_type = apply_character_metadata_policy
                      (describe_type (profile d) (type_id column) (sint (type_size column)) (sint (type_modifier column)))
                      (character_metadata (settings c))\<rparr>) (result_columns parsed),
                  q_error = result_error parsed, q_affected_rows = affected_rows parsed,
                  q_statement_kind = result_statement_kind parsed, q_parameter_types = [], q_cell_errors = [],
                  q_described_shape = None,
                  q_execution_shape = (if kind \<noteq> Description then result_shape parsed else None), q_result_id = rid\<rparr>
      in case resolve_parameters resolve kind (parameter_type_ids parsed) deadline c of
          (c, Inl e) \<Rightarrow> (c, Inl e)
        | (c, Inr types) \<Rightarrow> (c, Inr (normalize_cells (floats d) (profile d) parsed (item\<lparr>q_parameter_types := types\<rparr>))))"

fun normalize_items ::
  "'w driver \<Rightarrow> 'w resolver \<Rightarrow> response_kind \<Rightarrow> int \<Rightarrow> parsed_query_result list \<Rightarrow> 'w connection \<Rightarrow>
     'w connection \<times> (backend_error + query_result list)" where
  "normalize_items d resolve kind deadline [] c = (c, Inr [])"
| "normalize_items d resolve kind deadline (parsed # rest) c =
     (case normalize_item d resolve kind deadline parsed c of
        (c, Inl e) \<Rightarrow> (c, Inl e)
      | (c, Inr item) \<Rightarrow>
          (case normalize_items d resolve kind deadline rest c of
             (c, Inl e) \<Rightarrow> (c, Inl e)
           | (c, Inr items) \<Rightarrow> (c, Inr (item # items))))"

definition publish_normalized ::
  "'w driver \<Rightarrow> response_kind \<Rightarrow> int \<Rightarrow> response \<Rightarrow> query_results \<Rightarrow> 'w connection \<Rightarrow> 'w connection \<times> query_results backend_result" where
  "publish_normalized d kind deadline rs normalized c =
     (let normalized = (if kind = Description \<and> query_error rs = None
                        then ((fst normalized)\<lparr>q_described_shape := description_shape rs\<rparr>, snd normalized) else normalized)
      in if \<not> valid_execution_structure normalized \<or> (kind = Description \<and> \<not> valid_description_structure normalized)
         then (c, Failed (invalid_metadata ''Data source returned invalid execution sequence''))
         else
           let (c, late) = (if kind \<noteq> DeclinedDescription then expired (transport_of d) deadline c else (c, False))
           in if late then (mark_transport_failed (transport_of d) c, fails Timeout ''Database query deadline expired'')
              else (c, Value normalized unreported))"

definition decline_description ::
  "'w driver \<Rightarrow> int \<Rightarrow> nat \<Rightarrow> parsed_results \<Rightarrow> 'w connection \<Rightarrow> 'w connection \<times> query_results backend_result" where
  "decline_description d deadline declined result c =
     (if length (parameter_type_ids (fst result)) \<noteq> declined \<or> result_rows (fst result) \<noteq> [] \<or> snd result \<noteq> []
      then (mark_transport_failed (transport_of d) c, fails ProtocolError ''Invalid staged parameter description'')
      else
        let (c, late) = expired (transport_of d) deadline c
        in if late then (mark_transport_failed (transport_of d) c, fails Timeout ''Prepared admission deadline elapsed'')
           else (c, fails UnsupportedFeature ''Prepared binary admission is not qualified''))"

definition lacks_authority :: "parsed_results \<Rightarrow> bool" where
  "lacks_authority result \<longleftrightarrow>
     list_ex (\<lambda>item. result_error item = None \<and> \<not> prepared_execution_authority item) (fst result # snd result)"

definition publish_result ::
  "'w driver \<Rightarrow> 'w resolver \<Rightarrow> response_kind \<Rightarrow> int \<Rightarrow> nat \<Rightarrow> response \<Rightarrow> 'w connection \<Rightarrow>
     'w connection \<times> query_results backend_result" where
  "publish_result d resolve kind deadline declined rs c =
     (case extract_query_result (profile d) (messages rs) of
        Inl e \<Rightarrow> (mark_transport_failed (transport_of d) c, fails ProtocolError (what e))
      | Inr result \<Rightarrow>
          if has_binary_columns result then (c, fails UnsupportedFeature ''PostgreSQL binary result format is not supported'')
          else if query_error rs \<noteq> None \<and> (result_error (fst result) \<noteq> None \<or> snd result = []) then
            (c, Failed ((BackendError (Db_code QueryFailed) (''Query error: '' @ the (query_error rs)))
                 \<lparr>native_state := Some (query_sqlstate rs)\<rparr>))
          else if kind = PreparedExecution \<and> lacks_authority result
          then (mark_transport_failed (transport_of d) c, fails ProtocolError ''Prepared execution lacks bound portal authority'')
          else if \<not> list_all valid_result_structure (fst result # snd result)
          then (c, Failed (invalid_metadata ''Data source returned invalid result metadata''))
          else if kind = DeclinedDescription then decline_description d deadline declined result c
          else case normalize_items d resolve kind deadline (fst result # snd result) c of
              (c, Inl e) \<Rightarrow> (c, Failed e)
            | (c, Inr items) \<Rightarrow> publish_normalized d kind deadline rs (hd items, tl items) c)"

definition read_query_result ::
  "'w driver \<Rightarrow> 'w resolver \<Rightarrow> response_kind \<Rightarrow> string \<Rightarrow> nat \<Rightarrow> int \<Rightarrow> 'w connection \<Rightarrow> 'w connection \<times> query_results backend_result" where
  "read_query_result d resolve kind expected declined deadline c =
     (case read_responses (transport_of d) kind expected deadline (start_response (parameters c)) (max_messages (settings c)) c of
        (c, Inl e) \<Rightarrow> (c, Failed e)
      | (c, Inr rs) \<Rightarrow> publish_result d resolve kind deadline declined rs c)"

subsection \<open>Operations\<close>

definition ambiguous :: "backend_error \<Rightarrow> bool" where
  "ambiguous e \<longleftrightarrow>
     err_class e \<in> {Class_Timeout, Class_Transport, Class_Protocol, Class_Tls, Class_Unknown, Class_ResourceLimit}"

definition annotate :: "backend_operation \<Rightarrow> 'w connection \<Rightarrow> query_result \<Rightarrow> query_result" where
  "annotate operation c item =
     item\<lparr>q_error := map_option (\<lambda>e. e\<lparr>err_operation := operation, err_state := conn_state c, err_disposition := disposition c\<rparr>)
        (q_error item)\<rparr>"

definition finish_operation ::
  "'w transport \<Rightarrow> backend_operation \<Rightarrow> 'w connection \<times> query_results backend_result \<Rightarrow> 'w connection \<times> query_results backend_result" where
  "finish_operation tr operation r = (case r of
       (c, Failed e) \<Rightarrow>
         if err_operation e = Op_ResolveTypes then (c, Failed e)
         else
           let e = e\<lparr>err_operation := operation\<rparr>;
               c = (if ambiguous e then mark_transport_failed tr c else c)
           in (c, Failed (e\<lparr>err_state := conn_state c, err_disposition := disposition c\<rparr>))
     | (c, Value (item, items) _) \<Rightarrow>
         (c, Value (annotate operation c item, map (annotate operation c) items) (conn_snapshot c)))"

definition reject_request_limit :: "backend_operation \<Rightarrow> 'w connection \<Rightarrow> 'w connection \<times> query_results backend_result" where
  "reject_request_limit operation c =
     (c, Failed ((BackendError (Db_code ResourceLimit) ''Database request input limit exceeded'')
        \<lparr>err_operation := operation, err_state := conn_state c, err_disposition := disposition c\<rparr>))"

text \<open>
  The common course of the operations' \<^verbatim>\<open>_impl\<close> functions, and of the operations around them: the request is built, where
  \<^verbatim>\<open>RequestWireLimitExceeded\<close> is passed on to the operation, which rejects it; it is written; the response is read.
\<close>

definition exchange ::
  "'w driver \<Rightarrow> bytes result \<Rightarrow> ('w connection \<Rightarrow> 'w connection \<times> query_results backend_result) \<Rightarrow> int \<Rightarrow> 'w connection \<Rightarrow>
     ('w connection \<times> query_results backend_result) option" where
  "exchange d request respond deadline c =
     (if \<not> connected c then Some (c, fails NotConnected ''Not connected'')
      else case request of
          Inl e \<Rightarrow> if e = Request_wire_limit_exceeded then None else Some (c, fails InvalidParameter (what e))
        | Inr query_msg \<Rightarrow>
            (case write_all_loop (transport_of d) True deadline query_msg c of
               (c, Inl (code, message)) \<Rightarrow> Some (c, Failed (BackendError code message))
             | (c, Inr _) \<Rightarrow> Some (respond c)))"

definition execute_query_impl ::
  "'w driver \<Rightarrow> string \<Rightarrow> string \<Rightarrow> int \<Rightarrow> 'w connection \<Rightarrow> ('w connection \<times> query_results backend_result) option" where
  "execute_query_impl d sql expected deadline c =
     exchange d (create_simple_query sql (max_request_wire_bytes (settings c)))
       (read_query_result d (\<lambda>ids deadline c. (c, Value Map.empty unreported)) SimpleExecution expected 0 deadline) deadline c"

definition execute_prepared_impl ::
  "'w driver \<Rightarrow> 'w resolver \<Rightarrow> string \<Rightarrow> query_parameter list \<Rightarrow> int \<Rightarrow> 'w connection \<Rightarrow>
     ('w connection \<times> query_results backend_result) option" where
  "execute_prepared_impl d resolve sql params deadline c =
     exchange d (create_prepared_query (float_environment d) (profile d) sql params (max_request_wire_bytes (settings c)))
       (read_query_result d resolve PreparedExecution [] 0 deadline) deadline c"

definition describe_statement_impl ::
  "'w driver \<Rightarrow> 'w resolver \<Rightarrow> string \<Rightarrow> query_parameter_type list \<Rightarrow> int \<Rightarrow> 'w connection \<Rightarrow>
     ('w connection \<times> query_results backend_result) option" where
  "describe_statement_impl d resolve sql types deadline c =
     exchange d (create_statement_description (profile d) sql types (max_request_wire_bytes (settings c)))
       (read_query_result d resolve Description [] 0 deadline) deadline c"

text \<open>The \<^verbatim>\<open>try\<close> block of an operation.\<close>

definition perform ::
  "'w driver \<Rightarrow> backend_operation \<Rightarrow> 'w connection \<Rightarrow> ('w connection \<times> query_results backend_result) option \<Rightarrow>
     'w connection \<times> query_results backend_result" where
  "perform d operation c r =
     (case r of None \<Rightarrow> reject_request_limit operation c | Some r \<Rightarrow> finish_operation (transport_of d) operation r)"

definition execute_query :: "'w driver \<Rightarrow> string \<Rightarrow> int \<Rightarrow> 'w connection \<Rightarrow> 'w connection \<times> query_results backend_result" where
  "execute_query d sql deadline c =
     (if connected c \<and> max_sql_bytes (settings c) < length sql then reject_request_limit Op_ExecuteDirect c
      else perform d Op_ExecuteDirect c (execute_query_impl d sql [] deadline c))"

definition execute_cleanup_query ::
  "'w driver \<Rightarrow> string \<Rightarrow> string \<Rightarrow> int \<Rightarrow> 'w connection \<Rightarrow> 'w connection \<times> query_results backend_result" where
  "execute_cleanup_query d sql expected deadline c =
     (if connected c \<and> max_sql_bytes (settings c) < length sql then reject_request_limit Op_ResetSession c
      else perform d Op_ResetSession c (execute_query_impl d sql expected deadline c))"

fun parameters_fit :: "session_settings \<Rightarrow> nat \<Rightarrow> query_parameter list \<Rightarrow> bool" where
  "parameters_fit se used [] \<longleftrightarrow> True"
| "parameters_fit se used (param # rest) \<longleftrightarrow>
     (let n = (case param_value param of Some v \<Rightarrow> length v | None \<Rightarrow> 0)
      in n \<le> max_parameter_bytes se \<and> n \<le> max_parameter_total_bytes se - used \<and> parameters_fit se (used + n) rest)"

definition execute_prepared ::
  "'w driver \<Rightarrow> 'w resolver \<Rightarrow> string \<Rightarrow> query_parameter list \<Rightarrow> int \<Rightarrow> 'w connection \<Rightarrow> 'w connection \<times> query_results backend_result" where
  "execute_prepared d resolve sql params deadline c =
     (if connected c \<and>
         (max_sql_bytes (settings c) < length sql \<or> max_parameters (settings c) < length params \<or>
          \<not> parameters_fit (settings c) 0 params)
      then reject_request_limit Op_ExecutePrepared c
      else perform d Op_ExecutePrepared c (execute_prepared_impl d resolve sql params deadline c))"

definition describe_statement ::
  "'w driver \<Rightarrow> 'w resolver \<Rightarrow> string \<Rightarrow> query_parameter_type list \<Rightarrow> int \<Rightarrow> 'w connection \<Rightarrow>
     'w connection \<times> query_results backend_result" where
  "describe_statement d resolve sql types deadline c =
     (if connected c \<and> (max_sql_bytes (settings c) < length sql \<or> max_parameters (settings c) < length types)
      then reject_request_limit Op_Describe c
      else perform d Op_Describe c (describe_statement_impl d resolve sql types deadline c))"

definition get_parameter :: "'w connection \<Rightarrow> string \<Rightarrow> string" where
  "get_parameter c key = (case parameters c key of Some v \<Rightarrow> v | None \<Rightarrow> [])"

definition build_declined_request :: "'w driver \<Rightarrow> session_settings \<Rightarrow> string \<Rightarrow> query_parameter list \<Rightarrow> bytes result" where
  "build_declined_request d se sql params =
     bind_result (create_prepared_query (float_environment d) (profile d) sql params (max_request_wire_bytes se)) (\<lambda>_.
       create_statement_description (profile d) sql (map param_type params) (max_request_wire_bytes se))"

definition exchange_declined ::
  "'w driver \<Rightarrow> 'w resolver \<Rightarrow> bytes \<Rightarrow> nat \<Rightarrow> int \<Rightarrow> 'w connection \<Rightarrow> 'w connection \<times> query_results backend_result" where
  "exchange_declined d resolve request count deadline c =
     (let (c, late) = expired (transport_of d) deadline c
      in if late then (c, fails Timeout ''Prepared admission deadline elapsed'')
         else case write_all_loop (transport_of d) False deadline request c of
             (c, Inl (code, message)) \<Rightarrow> (c, Failed (BackendError code message))
           | (c, Inr _) \<Rightarrow>
               let (c, response) = read_query_result d resolve DeclinedDescription [] count deadline c;
                   (c, late) = expired (transport_of d) deadline c
               in if late
                  then (mark_transport_failed (transport_of d) c, fails Timeout ''Prepared admission deadline elapsed'')
                  else (c, response))"

definition decline_prepared_description_candidate ::
  "'w driver \<Rightarrow> 'w resolver \<Rightarrow> string \<Rightarrow> query_parameter list \<Rightarrow> int \<Rightarrow> 'w connection \<Rightarrow> 'w connection \<times> query_results backend_result" where
  "decline_prepared_description_candidate d resolve sql params deadline c =
     (let finish = finish_operation (transport_of d) Op_ExecutePrepared
      in if \<not> connected c then finish (c, fails NotConnected ''Not connected'')
         else if conn_state c \<noteq> Idle then finish (c, fails UnsupportedFeature ''Prepared admission observation requires Idle'')
         else
           let (c, late) = expired (transport_of d) deadline c
           in if late then finish (c, fails Timeout ''Prepared admission deadline elapsed'')
              else if max_sql_bytes (settings c) < length sql \<or> max_parameters (settings c) < length params \<or>
                      \<not> parameters_fit (settings c) 0 params
              then reject_request_limit Op_ExecutePrepared c
              else if \<not> list_ex (\<lambda>param. param_type param = Binary) params \<or> NUL_byte \<in> set sql \<or>
                      parameter_marker_count sql \<noteq> length params
              then finish (c, fails InvalidParameter ''Invalid prepared admission observation scope'')
              else case build_declined_request d (settings c) sql params of
                  Inl e \<Rightarrow>
                    if e = Request_wire_limit_exceeded then reject_request_limit Op_ExecutePrepared c
                    else finish (c, fails InvalidParameter ''Invalid prepared admission observation request'')
                | Inr request \<Rightarrow> finish (exchange_declined d resolve request (length params) deadline c))"

subsection \<open>What an operation reports is what the session is\<close>

definition live :: "'w connection \<Rightarrow> bool" where
  "live c \<longleftrightarrow> session_wf c \<and> connected c"

text \<open>An error of type resolution carries its own snapshot; every other one gets its snapshot when the operation finishes.\<close>

definition error_sound :: "'w connection \<Rightarrow> backend_error \<Rightarrow> bool" where
  "error_sound c e \<longleftrightarrow>
     session_wf c \<and> (err_operation e = Op_ResolveTypes \<longrightarrow> err_state e = conn_state c \<and> err_disposition e = disposition c)"

definition step_sound :: "'w connection \<times> (backend_error + 'a) \<Rightarrow> bool" where
  "step_sound r \<longleftrightarrow> (case snd r of Inl e \<Rightarrow> error_sound (fst r) e | Inr _ \<Rightarrow> live (fst r))"

definition result_sound :: "'w connection \<times> 'a backend_result \<Rightarrow> bool" where
  "result_sound r \<longleftrightarrow> (case snd r of Failed e \<Rightarrow> error_sound (fst r) e | Value _ _ \<Rightarrow> live (fst r))"

text \<open>
  A settled operation: the session is well-formed, the snapshot in the result is its state, a value means that it is
  connected, and after an error that leaves open what the server has done the session is retired, unless the request was
  refused before anything happened, or the error is one of type resolution, which performed its own exchange.
\<close>

definition settled :: "'w connection \<Rightarrow> 'w connection \<times> 'a backend_result \<Rightarrow> bool" where
  "settled c0 r \<longleftrightarrow>
     session_wf (fst r) \<and> result_snapshot (snd r) = conn_snapshot (fst r) \<and>
     (case snd r of
        Value _ _ \<Rightarrow> connected (fst r)
      | Failed e \<Rightarrow> ambiguous e \<and> err_operation e \<noteq> Op_ResolveTypes \<longrightarrow> \<not> connected (fst r) \<or> fst r = c0)"

lemma BackendError_operation [simp]: "err_operation (BackendError code message) = Op_Unknown"
  by (simp add: BackendError_def)

lemma result_sound_fails [simp]: "result_sound (c, fails code message) \<longleftrightarrow> session_wf c"
  by (simp add: result_sound_def fails_def error_sound_def)

lemma result_sound_marked [simp]: "err_operation e \<noteq> Op_ResolveTypes \<Longrightarrow> result_sound (c, Failed e) \<longleftrightarrow> session_wf c"
  by (simp add: result_sound_def error_sound_def)

lemma invalid_metadata_operation [simp]: "err_operation (invalid_metadata m) = Op_Unknown"
  by (simp add: invalid_metadata_def)

lemma live_same: "same_session c c' \<Longrightarrow> live c \<Longrightarrow> live c'"
  by (simp add: live_def same_session_fields)

lemma live_wf: "live c \<Longrightarrow> session_wf c"
  by (simp add: live_def)

lemma disconnect_wf [simp, intro]: "session_wf (disconnect tr c)"
  by (rule retired_wf) simp

lemma live_state: "live c \<Longrightarrow> st \<noteq> Disconnected \<Longrightarrow> live (c\<lparr>conn_state := st\<rparr>)"
  by (auto simp: live_def session_wf_def)

lemma live_parameters: "live c \<Longrightarrow> live (c\<lparr>parameters := ps\<rparr>)"
  by (auto simp: live_def session_wf_def)

lemma live_expired: "live c \<Longrightarrow> live (fst (expired tr deadline c))"
  by (rule live_same [OF expired_same])

lemma ready_state_connected: "ready_state b \<noteq> Disconnected"
  by (simp add: ready_state_def)

lemma on_response_reported:
  assumes "on_response se kind expected rs msg = Inr (rs', Some st)"
  shows "st \<noteq> Disconnected"
  using assms ready_state_connected
  by (auto simp: on_response_def retain_message_def Let_def bind_result_def split: sum.splits if_splits)

text \<open>Only an error response ends the session with an error of its own.\<close>

lemma caught_not_terminal [simp]: "caught r \<noteq> Inl (Terminal e)"
  by (cases r) (simp_all add: caught_def)

lemma throw_not_terminal [simp]: "throw m \<noteq> Inl (Terminal e)"
  by (simp add: throw_def)

lemma bind_not_terminal:
  assumes "r \<noteq> Inl (Terminal e)" "\<And>x. f x \<noteq> Inl (Terminal e)"
  shows "bind_result r f \<noteq> Inl (Terminal e)"
  using assms by (cases r) simp_all

lemma if_neqI: "(P \<Longrightarrow> a \<noteq> x) \<Longrightarrow> (\<not> P \<Longrightarrow> b \<noteq> x) \<Longrightarrow> (if P then a else b) \<noteq> x"
  by simp

lemma description_names_not_terminal: "description_names se b k o1 nm \<noteq> Inl (Terminal e)"
  by (induction se b k o1 nm rule: description_names.induct) (simp_all add: limit_exceeded_def Let_def split: option.splits)

lemma leading_count_not_terminal: "leading_count b \<noteq> Inl (Terminal e)"
  by (simp add: leading_count_def)

lemma count_message_not_terminal: "count_message se msg rs \<noteq> Inl (Terminal e)"
proof -
  have names: "bind_result (description_names se (body msg) columns 2 nm) (\<lambda>(offset, names).
      if offset \<noteq> length (body msg) then throw m else Inr (f names)) \<noteq> Inl (Terminal e)" for columns nm m f
    by (rule bind_not_terminal [OF description_names_not_terminal]) (simp split: prod.splits)
  show ?thesis
    unfolding count_message_def
    by (simp add: limit_exceeded_def Let_def names bind_not_terminal [OF leading_count_not_terminal])
qed

lemma record_error_terminal:
  assumes "record_error msg rs = Inl (Terminal e)"
  shows "err_operation e \<noteq> Op_ResolveTypes"
proof (rule ccontr)
  assume "\<not> ?thesis"
  then have no: "e \<noteq> terminal_error m s" for m s by (auto simp: terminal_error_def)
  have "record_error msg rs \<noteq> Inl (Terminal e)"
    unfolding record_error_def
    by (intro bind_not_terminal if_neqI caught_not_terminal throw_not_terminal) (simp_all add: no [symmetric])
  with assms show False by simp
qed

lemma terminal_operation:
  assumes "on_response se kind expected rs msg = Inl (Terminal e)"
  shows "err_operation e \<noteq> Op_ResolveTypes"
proof (rule ccontr)
  assume "\<not> ?thesis"
  then have error: "record_error msg r \<noteq> Inl (Terminal e)" for r using record_error_terminal by blast
  have retain: "retain_message msg r \<noteq> Inl (Terminal e)" for r
    by (simp add: retain_message_def Let_def bind_not_terminal)
  have checks: "check_admissible rs msg \<noteq> Inl (Terminal e)"
    "(if is_description kind then check_description msg r else check_execution kind msg r) \<noteq> Inl (Terminal e)"
    "check_expected expected msg r \<noteq> Inl (Terminal e)" "record_parameter msg r \<noteq> Inl (Terminal e)" for r
    by (simp_all add: check_admissible_def check_description_def check_execution_def check_expected_def record_parameter_def
        split: option.splits)
  have "on_response se kind expected rs msg \<noteq> Inl (Terminal e)"
    unfolding on_response_def
    by (intro bind_not_terminal checks count_message_not_terminal error retain)
  with assms show False by simp
qed

lemma leave_response_sound:
  assumes "\<And>e. x = Terminal e \<Longrightarrow> err_operation e \<noteq> Op_ResolveTypes"
  shows "step_sound (let (c, e) = leave_response tr c x in (c, Inl e))"
  using assms by (auto simp: leave_response_def step_sound_def error_sound_def split: response_exit.splits)

lemma complete_response_sound:
  assumes "live c"
  shows "step_sound (complete_response tr kind rs c)"
  using assms by (auto simp: complete_response_def step_sound_def error_sound_def)

lemma read_message_live:
  assumes "live c" "read_message_result tr enforce deadline remaining c = (c', r)"
  shows "case r of Inl f \<Rightarrow> session_wf c' | Inr data \<Rightarrow> live c'"
  using read_message_kept [of c tr enforce deadline remaining] assms live_same retired_wf
  by (auto simp: kept_or_ended_def live_def split: sum.splits)

lemma read_responses_sound:
  assumes "live c"
  shows "step_sound (read_responses tr kind expected deadline rs allowed c)"
  using assms
proof (induction allowed arbitrary: rs c)
  case 0
  then show ?case by (simp add: step_sound_def error_sound_def)
next
  case (Suc allowed)
  obtain c1 r where read: "read_message_result tr (kind \<noteq> DeclinedDescription) deadline (max_wire_bytes (settings c) - wire_bytes rs) c = (c1, r)"
    by fastforce
  note ok = read_message_live [OF Suc.prems read]
  show ?case
  proof (cases r)
    case (Inl f)
    with ok read show ?thesis by (auto simp: step_sound_def error_sound_def split: prod.splits)
  next
    case (Inr data)
    define rs1 where "rs1 = rs\<lparr>wire_bytes := wire_bytes rs + length data\<rparr>"
    define res where "res = bind_result (caught (parse_message data)) (on_response (settings c1) kind expected rs1)"
    have eq: "read_responses tr kind expected deadline rs (Suc allowed) c =
        (case res of
           Inl x \<Rightarrow> (let (c, e) = leave_response tr c1 x in (c, Inl e))
         | Inr (rs, reported) \<Rightarrow>
             let c = c1\<lparr>parameters := response_parameters rs\<rparr>
             in case reported of
                 None \<Rightarrow> read_responses tr kind expected deadline rs allowed c
               | Some st \<Rightarrow> complete_response tr kind rs (c\<lparr>conn_state := st\<rparr>))"
      using read Inr by (simp add: res_def rs1_def Let_def)
    have live: "live (c1\<lparr>parameters := ps\<rparr>)" for ps using ok Inr by (simp add: live_parameters)
    show ?thesis
    proof (cases res)
      case (Inl x)
      have "err_operation e \<noteq> Op_ResolveTypes" if "x = Terminal e" for e
        using Inl that terminal_operation by (cases "parse_message data") (auto simp: res_def caught_def)
      then have "step_sound (let (c, e) = leave_response tr c1 x in (c, Inl e))" by (rule leave_response_sound)
      then show ?thesis unfolding eq Inl by simp
    next
      case (Inr p)
      obtain rs' reported where p: "p = (rs', reported)" by (cases p)
      show ?thesis
      proof (cases reported)
        case None
        with Suc.IH [OF live] show ?thesis unfolding eq Inr p by simp
      next
        case (Some st)
        have "st \<noteq> Disconnected" using Inr p Some on_response_reported
          by (cases "parse_message data") (auto simp: res_def caught_def)
        from complete_response_sound [OF live_state [OF live this]] show ?thesis unfolding eq Inr p by (simp add: Some)
      qed
    qed
  qed
qed

lemma record_result_provenance_live: "live c \<Longrightarrow> live (record_result_provenance i p (c\<lparr>next_result_id := k\<rparr>))"
  by (auto simp: live_def session_wf_def record_result_provenance_def Let_def)

lemma check_deadline_live:
  assumes "live c" "(if enforce then expired tr deadline c else (c, False)) = (c1, late)"
  shows "live c1"
  by (rule live_same [OF deadline_check_same [OF assms(2)] assms(1)])

lemma result_sound_Value [simp]: "result_sound (c, Value v s) \<longleftrightarrow> live c"
  by (simp add: result_sound_def)

lemma publish_normalized_sound:
  assumes "live c"
  shows "result_sound (publish_normalized d kind deadline rs normalized c)"
proof -
  obtain c1 late where check: "(if kind \<noteq> DeclinedDescription then expired (transport_of d) deadline c else (c, False)) = (c1, late)"
    by fastforce
  from check_deadline_live [OF assms check] have live: "live c1" .
  show ?thesis
    unfolding publish_normalized_def Let_def check prod.case if_distrib [of result_sound]
    using live_wf [OF assms] live by simp
qed

lemma decline_description_sound:
  assumes "live c"
  shows "result_sound (decline_description d deadline declined result c)"
proof -
  obtain c1 late where check: "expired (transport_of d) deadline c = (c1, late)" by fastforce
  with live_expired [OF assms, of "transport_of d" deadline] have "session_wf c1" by (simp add: live_wf)
  then show ?thesis unfolding decline_description_def check by simp
qed

lemma finish_operation_settled:
  assumes "result_sound r"
  shows "settled c0 (finish_operation tr operation r)"
proof (cases r)
  case (Pair c x)
  show ?thesis
  proof (cases x)
    case (Value v snapshot)
    obtain item items where "v = (item, items)" by (cases v)
    with assms Pair Value show ?thesis by (simp add: finish_operation_def settled_def result_snapshot_def live_def)
  next
    case (Failed e)
    have eq: "finish_operation tr operation r =
        (if err_operation e = Op_ResolveTypes then (c, Failed e)
         else let c1 = (if ambiguous e then mark_transport_failed tr c else c)
              in (c1, Failed (e\<lparr>err_operation := operation, err_state := conn_state c1, err_disposition := disposition c1\<rparr>)))"
      by (simp add: finish_operation_def Pair Failed ambiguous_def Let_def)
    have sound: "error_sound c e" using assms Pair Failed by (simp add: result_sound_def)
    show ?thesis
    proof (cases "err_operation e = Op_ResolveTypes")
      case True
      with sound show ?thesis
        unfolding eq by (simp add: settled_def error_sound_def result_snapshot_def conn_snapshot_def)
    next
      case False
      with sound show ?thesis
        unfolding eq by (simp add: settled_def error_sound_def result_snapshot_def conn_snapshot_def ambiguous_def Let_def)
    qed
  qed
qed

lemma reject_settled: "session_wf c \<Longrightarrow> settled c (reject_request_limit operation c)"
  by (simp add: reject_request_limit_def settled_def result_snapshot_def conn_snapshot_def)

lemma exchange_sound:
  assumes "session_wf c" "\<And>c. live c \<Longrightarrow> result_sound (respond c)" "exchange d request respond deadline c = Some r"
  shows "result_sound r"
proof -
  obtain c1 x where w: "write_all_loop (transport_of d) True deadline q c = (c1 q, x q)" for q
    using that [of "\<lambda>q. fst (write_all_loop (transport_of d) True deadline q c)" "\<lambda>q. snd (write_all_loop (transport_of d) True deadline q c)"]
    by simp
  have kept: "kept_or_ended c (c1 q, x q)" for q using write_all_kept [of c "transport_of d" True deadline q] w by simp
  show ?thesis
  proof (cases "connected c \<and> (\<exists>q. request = Inr q)")
    case False
    with assms(1,3) show ?thesis by (auto simp: exchange_def split: if_splits sum.splits)
  next
    case True
    then obtain q where q: "connected c" "request = Inr q" by blast
    show ?thesis
    proof (cases "x q")
      case (Inl f)
      with q kept [of q] assms(3) show ?thesis
        by (auto simp: exchange_def w kept_or_ended_def retired_wf split: prod.splits)
    next
      case (Inr u)
      with kept [of q] have "same_session c (c1 q)" by (simp add: kept_or_ended_def)
      then have "live (c1 q)" using assms(1) q(1) by (simp add: live_def same_session_fields)
      with assms(2,3) q Inr show ?thesis by (auto simp: exchange_def w)
    qed
  qed
qed

lemma perform_settled:
  assumes "session_wf c" "\<And>c. live c \<Longrightarrow> result_sound (respond c)"
  shows "settled c (perform d operation c (exchange d request respond deadline c))"
proof (cases "exchange d request respond deadline c")
  case None
  with assms(1) show ?thesis by (simp add: perform_def reject_settled)
next
  case (Some r)
  with exchange_sound [OF assms Some] show ?thesis by (simp add: perform_def finish_operation_settled)
qed

text \<open>The contract of the virtual \<^verbatim>\<open>resolve_types\<close>.\<close>

locale type_resolver =
  fixes resolve :: "'w resolver"
  assumes resolve_value: "live c \<Longrightarrow> resolve ids deadline c = (c', Value types snapshot) \<Longrightarrow> live c'"
    and resolve_error: "live c \<Longrightarrow> resolve ids deadline c = (c', Failed e) \<Longrightarrow>
      session_wf c' \<and> err_state e = conn_state c' \<and> err_disposition e = disposition c'"
begin

lemma resolve_parameters_sound:
  assumes "live c"
  shows "step_sound (resolve_parameters resolve kind ids deadline c)"
proof (cases "kind = SimpleExecution \<or> ids = []")
  case True
  with assms show ?thesis by (simp add: resolve_parameters_def step_sound_def)
next
  case False
  obtain c' r where r: "resolve ids deadline c = (c', r)" by fastforce
  show ?thesis
  proof (cases r)
    case (Value types snapshot)
    with r resolve_value [OF assms] have "live c'" by simp
    with False r Value show ?thesis by (simp add: resolve_parameters_def step_sound_def error_sound_def live_wf)
  next
    case (Failed e)
    with r resolve_error [OF assms] False show ?thesis by (simp add: resolve_parameters_def step_sound_def error_sound_def)
  qed
qed

lemma normalize_item_sound:
  assumes "live c"
  shows "step_sound (normalize_item d resolve kind deadline parsed c)"
proof -
  define c1 where "c1 = record_result_provenance (next_result_id c)
    (map (\<lambda>column. (table_oid column, column_attribute_number column)) (result_columns parsed))
    (c\<lparr>next_result_id := (next_result_id c + 1) mod 2 ^ 64\<rparr>)"
  obtain c2 r where r: "resolve_parameters resolve kind (parameter_type_ids parsed) deadline c1 = (c2, r)" by fastforce
  have "live c1" unfolding c1_def by (rule record_result_provenance_live [OF assms])
  from resolve_parameters_sound [OF this, of kind "parameter_type_ids parsed" deadline] have "step_sound (c2, r)"
    by (simp add: r)
  then show ?thesis
    unfolding normalize_item_def Let_def c1_def [symmetric] by (cases r) (simp_all add: r step_sound_def)
qed

lemma normalize_items_sound:
  assumes "live c"
  shows "step_sound (normalize_items d resolve kind deadline items c)"
  using assms
proof (induction items arbitrary: c)
  case Nil
  then show ?case by (simp add: step_sound_def)
next
  case (Cons parsed rest)
  obtain c1 r where r: "normalize_item d resolve kind deadline parsed c = (c1, r)" by fastforce
  obtain c2 r2 where r2: "normalize_items d resolve kind deadline rest c1 = (c2, r2)" by fastforce
  have sound: "step_sound (c1, r)" using normalize_item_sound [OF Cons.prems, of d kind deadline parsed] r by simp
  show ?case
  proof (cases r)
    case (Inl e)
    with sound show ?thesis by (simp add: r step_sound_def)
  next
    case (Inr item)
    with sound have "live c1" by (simp add: step_sound_def)
    from Cons.IH [OF this] r2 have "step_sound (c2, r2)" by simp
    with Inr show ?thesis by (cases r2) (simp_all add: r r2 step_sound_def)
  qed
qed

lemma publish_result_sound:
  assumes "live c"
  shows "result_sound (publish_result d resolve kind deadline declined rs c)"
proof (cases "extract_query_result (profile d) (messages rs)")
  case (Inl e)
  then show ?thesis by (simp add: publish_result_def)
next
  case (Inr result)
  obtain c1 r where r: "normalize_items d resolve kind deadline (fst result # snd result) c = (c1, r)" by fastforce
  have sound: "step_sound (c1, r)" using normalize_items_sound [OF assms, of d kind deadline "fst result # snd result"] r by simp
  have "result_sound (case normalize_items d resolve kind deadline (fst result # snd result) c of
      (c, Inl e) \<Rightarrow> (c, Failed e)
    | (c, Inr items) \<Rightarrow> publish_normalized d kind deadline rs (hd items, tl items) c)"
  proof (cases r)
    case (Inl e)
    with sound show ?thesis unfolding r by (simp add: step_sound_def result_sound_def)
  next
    case (Inr items)
    with sound have "live c1" by (simp add: step_sound_def)
    from publish_normalized_sound [OF this] show ?thesis unfolding r Inr by simp
  qed
  with Inr live_wf [OF assms] decline_description_sound [OF assms] show ?thesis
    by (simp add: publish_result_def del: normalize_items.simps)
qed

lemma read_query_result_sound:
  assumes "live c"
  shows "result_sound (read_query_result d resolve kind expected declined deadline c)"
proof -
  obtain c1 r where r: "read_responses (transport_of d) kind expected deadline (start_response (parameters c)) (max_messages (settings c)) c = (c1, r)"
    by fastforce
  have "step_sound (c1, r)"
    using read_responses_sound [OF assms, of "transport_of d" kind expected deadline "start_response (parameters c)" "max_messages (settings c)"] r
    by simp
  then show ?thesis
    by (cases r) (simp_all add: read_query_result_def r step_sound_def result_sound_def [of "(_, Failed _)"] publish_result_sound)
qed

lemma execute_prepared_settled:
  "session_wf c \<Longrightarrow> settled c (execute_prepared d resolve sql params deadline c)"
  by (simp add: execute_prepared_def execute_prepared_impl_def reject_settled perform_settled read_query_result_sound)

lemma describe_statement_settled:
  "session_wf c \<Longrightarrow> settled c (describe_statement d resolve sql types deadline c)"
  by (simp add: describe_statement_def describe_statement_impl_def reject_settled perform_settled read_query_result_sound)

lemma exchange_declined_sound:
  assumes "live c"
  shows "result_sound (exchange_declined d resolve request count deadline c)"
proof -
  obtain c1 late where c1: "expired (transport_of d) deadline c = (c1, late)" by fastforce
  with live_expired [OF assms, of "transport_of d" deadline] have live: "live c1" by simp
  obtain c2 x where c2: "write_all_loop (transport_of d) False deadline request c1 = (c2, x)" by fastforce
  have kept: "kept_or_ended c1 (c2, x)" using write_all_kept [of c1 "transport_of d" False deadline request] c2 by simp
  obtain c3 response where c3: "read_query_result d resolve DeclinedDescription [] count deadline c2 = (c3, response)" by fastforce
  obtain c4 late2 where c4: "expired (transport_of d) deadline c3 = (c4, late2)" by fastforce
  then have same: "same_session c3 c4" using expired_same [of c3 "transport_of d" deadline] by simp
  show ?thesis
  proof (cases x)
    case (Inl f)
    with kept live have "session_wf c2" by (simp add: kept_or_ended_def live_def retired_wf)
    with live Inl show ?thesis
      by (simp add: exchange_declined_def c1 c2 live_wf split: prod.splits)
  next
    case (Inr u)
    with kept live have "live c2" by (auto simp: kept_or_ended_def intro: live_same)
    from read_query_result_sound [OF this] c3 have "result_sound (c3, response)" by metis
    then have "result_sound (c4, response)"
      using same_session_fields [OF same]
      by (cases response) (simp_all add: result_sound_def error_sound_def live_def disposition_def)
    with live Inr show ?thesis by (simp add: exchange_declined_def c1 c2 c3 c4 live_wf)
  qed
qed

end

text \<open>A simple execution describes no parameters, so its resolver is never called.\<close>

interpretation no_parameters: type_resolver "\<lambda>ids deadline c. (c, Value Map.empty unreported)"
  by unfold_locales simp_all

lemma execute_query_settled: "session_wf c \<Longrightarrow> settled c (execute_query d sql deadline c)"
  by (simp add: execute_query_def execute_query_impl_def reject_settled perform_settled no_parameters.read_query_result_sound)

lemma execute_cleanup_query_settled: "session_wf c \<Longrightarrow> settled c (execute_cleanup_query d sql expected deadline c)"
  by (simp add: execute_cleanup_query_def execute_query_impl_def reject_settled perform_settled no_parameters.read_query_result_sound)

end
