(* ===== verification/PgSession.thy ===== *)
theory PgSession
  imports PgConnection
begin

section \<open>The PostgreSQL session\<close>

text \<open>
  What \<^verbatim>\<open>PgDatabaseConnection\<close> adds to the connection: the types of parameters and the origins of columns, looked up with
  queries of their own (\<^verbatim>\<open>resolve_types\<close> and \<^verbatim>\<open>resolve_column_origins_impl\<close> in \<^verbatim>\<open>pg_database_connection.cpp\<close>),
  transactions (\<^verbatim>\<open>pg_transactions.cpp\<close>) and the SQLSTATE of errors (\<^verbatim>\<open>pg_error.cpp\<close>).
\<close>

subsection \<open>Types of parameters\<close>

definition describe_parameter :: "pg_catalog_profile \<Rightarrow> 32 word \<Rightarrow> int \<Rightarrow> native_type_info" where
  "describe_parameter pf oid modifier =
     (if pf = Redshift \<and> (oid = 3000 \<or> oid = 3001 \<or> oid = 3999) then parser_describe_type oid (- 1) modifier
      else describe_type pf oid (- 1) modifier)"

definition oid_list :: "32 word list \<Rightarrow> string" where
  "oid_list oids = concat (map (\<lambda>(i, oid). (if i \<noteq> 0 then '','' else []) @ to_string (unat oid)) (enumerate 0 oids))"

definition type_query :: "32 word list \<Rightarrow> string" where
  "type_query unresolved =
     ''WITH RECURSIVE type_chain(original_oid, type_oid, base_oid, type_modifier) AS ('' @
     ''SELECT oid, oid, typbasetype, typtypmod FROM pg_catalog.pg_type WHERE oid IN ('' @ oid_list unresolved @
     '') UNION ALL SELECT chain.original_oid, base.oid, base.typbasetype, '' @
     ''CASE WHEN chain.type_modifier >= 0 THEN chain.type_modifier ELSE base.typtypmod END '' @
     ''FROM type_chain AS chain JOIN pg_catalog.pg_type AS base ON base.oid = chain.base_oid) '' @
     ''SELECT original_oid::text, type_oid::text, type_modifier::text FROM type_chain WHERE base_oid = 0''"

definition whole_number :: "int \<Rightarrow> int \<Rightarrow> string \<Rightarrow> int option" where
  "whole_number lo hi v = (case from_chars lo hi v of
       (e, Fc_parsed x) \<Rightarrow> if e = length v then Some x else None
     | _ \<Rightarrow> None)"

text \<open>A row of the answer: the type asked for, its base type and its modifier.\<close>

definition type_row :: "string option list \<Rightarrow> (32 word \<times> 32 word \<times> int) option" where
  "type_row row = (case row of
       [Some a, Some b, Some m] \<Rightarrow>
         (case (whole_number 0 (2 ^ 32 - 1) a, whole_number 0 (2 ^ 32 - 1) b, whole_number (- (2 ^ 31)) (2 ^ 31 - 1) m) of
            (Some original, Some base, Some modifier) \<Rightarrow>
              if base = 0 then None else Some (word_of_int original, word_of_int base, modifier)
          | _ \<Rightarrow> None)
     | _ \<Rightarrow> None)"

fun resolve_rows ::
  "pg_catalog_profile \<Rightarrow> 32 word list \<Rightarrow> 32 word list \<Rightarrow> type_map \<Rightarrow> string option list list \<Rightarrow> type_map option" where
  "resolve_rows pf unresolved seen resolved [] = Some resolved"
| "resolve_rows pf unresolved seen resolved (row # rows) =
     (case type_row row of
        None \<Rightarrow> None
      | Some (original, base, modifier) \<Rightarrow>
          if original \<notin> set unresolved \<or> original \<in> set seen then None
          else resolve_rows pf unresolved (original # seen) (resolved(original \<mapsto> describe_parameter pf base modifier)) rows)"

definition resolve_types :: "'w driver \<Rightarrow> 'w resolver" where
  "resolve_types d ids deadline c =
     (let resolved = (\<lambda>oid. if oid \<in> set ids then Some (describe_parameter (profile d) oid (- 1)) else None);
          unresolved = sort (remdups (filter (\<lambda>oid. oid \<noteq> 0 \<and> \<not> known (describe_parameter (profile d) oid (- 1))) ids))
      in if unresolved = [] then (c, Value resolved unreported)
         else case execute_query d (type_query unresolved) deadline c of
             (c, Failed e) \<Rightarrow> (c, Failed (e\<lparr>err_operation := Op_ResolveTypes\<rparr>))
           | (c, Value types _) \<Rightarrow>
               (case resolve_rows (profile d) unresolved [] resolved (q_rows (fst types)) of
                  Some resolved \<Rightarrow> (c, Value resolved unreported)
                | None \<Rightarrow>
                    (c, Failed ((invalid_metadata ''Data source returned invalid parameter type metadata'')
                      \<lparr>err_operation := Op_ResolveTypes, err_state := conn_state c,
                       err_disposition := (if conn_state c = Disconnected then Retire
                                           else if conn_state c = Idle then Reusable else ResetRequired)\<rparr>))))"

lemma settledD:
  assumes "settled c0 (c, r)"
  shows "session_wf c" "r = Value v s \<Longrightarrow> live c \<and> s = conn_snapshot c"
    "r = Failed e \<Longrightarrow> err_state e = conn_state c \<and> err_disposition e = disposition c"
  using assms by (auto simp: settled_def live_def result_snapshot_def conn_snapshot_def)

lemma state_disposition:
  assumes "session_wf c"
  shows "(if conn_state c = Disconnected then Retire else if conn_state c = Idle then Reusable else ResetRequired) = disposition c"
  using assms by (simp add: session_wf_def disposition_def)

lemma resolve_types_sound:
  assumes live: "live c" and r: "resolve_types d ids deadline c = (c', r)"
  shows "case r of
      Value types snapshot \<Rightarrow> live c'
    | Failed e \<Rightarrow> session_wf c' \<and> err_state e = conn_state c' \<and> err_disposition e = disposition c'"
proof -
  define resolved where "resolved = (\<lambda>oid. if oid \<in> set ids then Some (describe_parameter (profile d) oid (- 1)) else None)"
  define unresolved where
    "unresolved = sort (remdups (filter (\<lambda>oid. oid \<noteq> 0 \<and> \<not> known (describe_parameter (profile d) oid (- 1))) ids))"
  note eq = resolve_types_def [of d ids deadline c, unfolded Let_def, folded resolved_def unresolved_def]
  obtain c1 x where q: "execute_query d (type_query unresolved) deadline c = (c1, x)" by fastforce
  with execute_query_settled [OF live_wf [OF live], of d "type_query unresolved" deadline] have settled: "settled c (c1, x)" by simp
  show ?thesis
  proof (cases "unresolved = []")
    case True
    with live r show ?thesis unfolding eq by auto
  next
    case False
    show ?thesis
    proof (cases x)
      case (Value types s)
      with settledD(2) [OF settled] have "live c1" by simp
      with r False Value show ?thesis unfolding eq q
        by (cases "resolve_rows (profile d) unresolved [] resolved (q_rows (fst types))")
          (auto simp: live_wf state_disposition)
    next
      case (Failed e)
      with settledD(1,3) [OF settled] r False show ?thesis unfolding eq q by auto
    qed
  qed
qed

interpretation pg_types: type_resolver "resolve_types d" for d
proof
  show "live c'" if "live c" "resolve_types d ids deadline c = (c', Value types snapshot)" for c c' ids deadline types snapshot
    using resolve_types_sound [OF that] by simp
  show "session_wf c' \<and> err_state e = conn_state c' \<and> err_disposition e = disposition c'"
    if "live c" "resolve_types d ids deadline c = (c', Failed e)" for c c' ids deadline e
    using resolve_types_sound [OF that] by simp
qed

subsection \<open>Origins of columns\<close>

record column_origin =
  catalog_name :: string
  schema_name :: string
  table_name :: string
  base_table_name :: string
  base_column_name :: string

definition no_origin :: column_origin where
  "no_origin = \<lparr>catalog_name = [], schema_name = [], table_name = [], base_table_name = [], base_column_name = []\<rparr>"

type_synonym origin_maps = "(32 word \<rightharpoonup> column_origin) \<times> (32 word \<times> 16 word \<rightharpoonup> column_origin)"

definition put_new :: "'k \<Rightarrow> 'v \<Rightarrow> ('k \<rightharpoonup> 'v) \<Rightarrow> ('k \<rightharpoonup> 'v)" where
  "put_new k v m = (case m k of None \<Rightarrow> m(k \<mapsto> v) | Some _ \<Rightarrow> m)"

text \<open>One row of the catalog's answer: rows that cannot be read are skipped.\<close>

definition origin_row :: "origin_maps \<Rightarrow> string option list \<Rightarrow> origin_maps" where
  "origin_row maps row = (case row of
       Some a # Some db # Some schema # Some table # columns \<Rightarrow>
         (case whole_number 0 (2 ^ 32 - 1) a of
            None \<Rightarrow> maps
          | Some n \<Rightarrow>
              let oid = word_of_int n;
                  origin = \<lparr>catalog_name = db, schema_name = schema, table_name = table, base_table_name = table, base_column_name = []\<rparr>;
                  tables = put_new oid origin (fst maps)
              in (case columns of
                    Some attnum # Some name # _ \<Rightarrow>
                      (case whole_number (- (2 ^ 15)) (2 ^ 15 - 1) attnum of
                         None \<Rightarrow> (tables, snd maps)
                       | Some k \<Rightarrow> (tables, put_new (oid, word_of_int k) (origin\<lparr>base_column_name := name\<rparr>) (snd maps)))
                  | _ \<Rightarrow> (tables, snd maps)))
     | _ \<Rightarrow> maps)"

definition column_origin_of :: "origin_maps \<Rightarrow> column_provenance \<Rightarrow> column_origin" where
  "column_origin_of maps item =
     (if fst item = 0 then no_origin
      else case snd maps item of
          Some origin \<Rightarrow> origin
        | None \<Rightarrow> (case fst maps (fst item) of Some origin \<Rightarrow> origin | None \<Rightarrow> no_origin))"

definition origin_query :: "32 word list \<Rightarrow> string" where
  "origin_query oids =
     ''SELECT c.oid, current_database()::text, n.nspname::text, c.relname::text, a.attnum, a.attname::text '' @
     ''FROM pg_catalog.pg_class c JOIN pg_catalog.pg_namespace n ON n.oid = c.relnamespace '' @
     ''LEFT JOIN pg_catalog.pg_attribute a ON a.attrelid = c.oid AND a.attnum > 0 AND NOT a.attisdropped '' @
     ''WHERE c.oid IN ('' @ oid_list oids @ '') ORDER BY c.oid, a.attnum''"

definition state_snapshot :: "'w connection \<Rightarrow> session_snapshot" where
  "state_snapshot c =
     \<lparr>snapshot_state = conn_state c,
      snapshot_disposition = (if conn_state c = Disconnected then Retire else if conn_state c = Idle then Reusable else ResetRequired)\<rparr>"

definition resolve_column_origins_impl ::
  "'w driver \<Rightarrow> column_provenance list \<Rightarrow> int \<Rightarrow> 'w connection \<Rightarrow> 'w connection \<times> column_origin list backend_result" where
  "resolve_column_origins_impl d provenance deadline c =
     (let snapshot = state_snapshot c;
          oids = sort (remdups (filter (\<lambda>oid. oid \<noteq> 0) (map fst provenance)))
      in if oids = [] then (c, Value (map (\<lambda>_. no_origin) provenance) snapshot)
         else case execute_query d (origin_query oids) deadline c of
             (c, Failed e) \<Rightarrow> (c, Failed (e\<lparr>err_operation := Op_Describe\<rparr>))
           | (c, Value catalog _) \<Rightarrow>
               (c, Value (map (column_origin_of (foldl origin_row (Map.empty, Map.empty) (q_rows (fst catalog)))) provenance) snapshot))"

definition resolve_column_origins ::
  "'w driver \<Rightarrow> nat \<Rightarrow> int \<Rightarrow> 'w connection \<Rightarrow> 'w connection \<times> column_origin list backend_result" where
  "resolve_column_origins d result_id deadline c =
     (case map_of (result_provenance c) result_id of
        None \<Rightarrow> (c, Value [] (state_snapshot c))
      | Some provenance \<Rightarrow> resolve_column_origins_impl d provenance deadline c)"

text \<open>Every column of the result has exactly one origin.\<close>

lemma resolve_column_origins_length:
  assumes "resolve_column_origins_impl d provenance deadline c = (c', Value origins snapshot)"
  shows "length origins = length provenance"
  using assms unfolding resolve_column_origins_impl_def Let_def
  by (auto split: if_splits prod.splits backend_result.splits)

subsection \<open>Transactions\<close>

text \<open>
  The actions and the isolation levels are the values of the source's enumerations; an integer outside them, which the source
  refuses, has no counterpart here.
\<close>

datatype transaction_isolation = ReadUncommitted | ReadCommitted | RepeatableRead | Serializable

record transaction_capabilities =
  tc_supported :: bool
  transactional_ddl :: bool
  default_isolation :: transaction_isolation
  isolation_levels :: "transaction_isolation list"
  default_isolation_known :: bool

definition pg_transaction_capabilities :: "pg_catalog_profile \<Rightarrow> transaction_capabilities" where
  "pg_transaction_capabilities pf =
     \<lparr>tc_supported = True, transactional_ddl = True, default_isolation = ReadCommitted,
      isolation_levels = (if pf = Redshift then [] else [ReadUncommitted, ReadCommitted, RepeatableRead, Serializable]),
      default_isolation_known = (pf \<noteq> Redshift)\<rparr>"

definition supports :: "transaction_capabilities \<Rightarrow> transaction_isolation \<Rightarrow> bool" where
  "supports tc level \<longleftrightarrow> tc_supported tc \<and> level \<in> set (isolation_levels tc)"

datatype transaction_action = Begin | Commit | Rollback

definition action_command :: "transaction_action \<Rightarrow> string" where
  "action_command action = (case action of Begin \<Rightarrow> ''BEGIN'' | Commit \<Rightarrow> ''COMMIT'' | Rollback \<Rightarrow> ''ROLLBACK'')"

definition action_operation :: "transaction_action \<Rightarrow> backend_operation" where
  "action_operation action =
     (case action of Begin \<Rightarrow> Op_BeginTransaction | Commit \<Rightarrow> Op_CommitTransaction | Rollback \<Rightarrow> Op_RollbackTransaction)"

definition expected_snapshot :: "transaction_action \<Rightarrow> session_snapshot" where
  "expected_snapshot action =
     (if action = Begin then \<lparr>snapshot_state = In_Transaction, snapshot_disposition = ResetRequired\<rparr>
      else \<lparr>snapshot_state = Idle, snapshot_disposition = Reusable\<rparr>)"

definition transaction :: "'w driver \<Rightarrow> transaction_action \<Rightarrow> int \<Rightarrow> 'w connection \<Rightarrow> 'w connection \<times> unit backend_result" where
  "transaction d action deadline c =
     (case execute_query d (action_command action) deadline c of
        (c, Failed e) \<Rightarrow> (c, Failed (e\<lparr>err_operation := action_operation action\<rparr>))
      | (c, Value _ snapshot) \<Rightarrow>
          if snapshot \<noteq> expected_snapshot action then
            (disconnect (transport_of d) c,
             Failed ((BackendError (Db_code ProtocolError) ''Unexpected transaction completion state'')
               \<lparr>err_operation := action_operation action, err_state := Disconnected, err_disposition := Retire\<rparr>))
          else (c, Value () snapshot))"

definition isolation_name :: "transaction_isolation \<Rightarrow> string" where
  "isolation_name level = (case level of
       ReadUncommitted \<Rightarrow> ''READ UNCOMMITTED'' | ReadCommitted \<Rightarrow> ''READ COMMITTED''
     | RepeatableRead \<Rightarrow> ''REPEATABLE READ'' | Serializable \<Rightarrow> ''SERIALIZABLE'')"

definition set_transaction_isolation ::
  "'w driver \<Rightarrow> transaction_isolation \<Rightarrow> int \<Rightarrow> 'w connection \<Rightarrow> 'w connection \<times> unit backend_result" where
  "set_transaction_isolation d level deadline c =
     (if profile d = Redshift then
        (c, Failed (local_backend_error Local_Unsupported
               ''Database isolation mode cannot be selected with a session isolation alias''
               Op_SetTransactionIsolation (conn_state c)))
      else case execute_query d (''SET SESSION CHARACTERISTICS AS TRANSACTION ISOLATION LEVEL '' @ isolation_name level) deadline c of
          (c, Failed e) \<Rightarrow> (c, Failed (e\<lparr>err_operation := Op_SetTransactionIsolation\<rparr>))
        | (c, Value _ snapshot) \<Rightarrow> (c, Value () snapshot))"

fun run_transactions ::
  "'w driver \<Rightarrow> (transaction_action \<times> int) list \<Rightarrow> 'w connection \<Rightarrow> 'w connection \<times> unit backend_result list" where
  "run_transactions d [] c = (c, [])"
| "run_transactions d ((action, deadline) # rest) c =
     (let (c, r) = transaction d action deadline c; (c, rs) = run_transactions d rest c in (c, r # rs))"

subsection \<open>Transactions refine an abstract session\<close>

text \<open>
  The abstract session is lost, or in a state the server has reported. An action that completes was asked of a session that
  was not lost and brings it to the state of the action; an action that fails says which session it leaves behind.
\<close>

datatype abstract_session = Lost | Session session_state

datatype observation = Completed | Errored abstract_session

fun target_state :: "transaction_action \<Rightarrow> session_state" where
  "target_state Begin = In_Transaction"
| "target_state Commit = Idle"
| "target_state Rollback = Idle"

inductive session_run :: "abstract_session \<Rightarrow> (transaction_action \<times> observation) list \<Rightarrow> abstract_session \<Rightarrow> bool" where
  run_done: "session_run s [] s"
| run_complete: "session_run (Session (target_state action)) rest s' \<Longrightarrow> session_run (Session st) ((action, Completed) # rest) s'"
| run_error: "session_run (Session st') rest s' \<Longrightarrow> session_run (Session st) ((action, Errored (Session st')) # rest) s'"
| run_lost: "session_run Lost rest s' \<Longrightarrow> session_run s ((action, Errored Lost) # rest) s'"

inductive_cases session_run_ConsE: "session_run s ((action, ob) # rest) s'"

definition abs_state :: "session_state \<Rightarrow> abstract_session" where
  "abs_state st = (if st = Disconnected then Lost else Session st)"

definition abs_session :: "'w connection \<Rightarrow> abstract_session" where
  "abs_session c = (if connected c then Session (conn_state c) else Lost)"

definition observe :: "unit backend_result \<Rightarrow> observation" where
  "observe r = (case r of Value _ _ \<Rightarrow> Completed | Failed e \<Rightarrow> Errored (abs_state (err_state e)))"

lemma abs_session_wf: "session_wf c \<Longrightarrow> abs_session c = abs_state (conn_state c)"
  by (simp add: abs_session_def abs_state_def session_wf_def)

lemma execute_query_offline:
  assumes "session_wf c" "\<not> connected c"
  shows "\<exists>e. execute_query d sql deadline c = (c, Failed e) \<and> err_state e = Disconnected"
  using assms
  by (simp add: execute_query_def execute_query_impl_def perform_def exchange_def finish_operation_def fails_def ambiguous_def
      BackendError_def classify_backend_error_def session_wf_def)

lemma transaction_accurate:
  assumes "session_wf c" "transaction d action deadline c = (c', r)"
  shows "session_wf c'" "result_snapshot r = conn_snapshot c'" "r = Value u snapshot \<Longrightarrow> snapshot = expected_snapshot action \<and> connected c'"
proof -
  obtain c1 x where q: "execute_query d (action_command action) deadline c = (c1, x)" by fastforce
  with execute_query_settled [OF assms(1), of d "action_command action" deadline] have settled: "settled c (c1, x)" by simp
  have lost: "conn_snapshot (disconnect tr c1) = \<lparr>snapshot_state = Disconnected, snapshot_disposition = Retire\<rparr>" for tr
    using retired_disconnect [of tr c1] by (simp add: conn_snapshot_def disposition_def retired_def del: retired_disconnect)
  show "session_wf c'" "result_snapshot r = conn_snapshot c'" "r = Value u snapshot \<Longrightarrow> snapshot = expected_snapshot action \<and> connected c'"
    using assms(2) settled lost
    by (cases x; auto simp: transaction_def q settled_def result_snapshot_def split: if_splits)+
qed

lemma transaction_refines:
  assumes wf: "session_wf c" and run: "transaction d action deadline c = (c', r)" and rest: "session_run (abs_session c') rest s'"
  shows "session_run (abs_session c) ((action, observe r) # rest) s'"
proof -
  note wf' = transaction_accurate(1) [OF wf run]
  show ?thesis
  proof (cases "connected c")
    case False
    obtain e where "execute_query d (action_command action) deadline c = (c, Failed e)" "err_state e = Disconnected"
      using execute_query_offline [OF wf False] by blast
    with run have "c' = c" "observe r = Errored Lost" by (auto simp: transaction_def observe_def abs_state_def)
    with rest False show ?thesis by (simp add: abs_session_def run_lost)
  next
    case True
    show ?thesis
    proof (cases r)
      case (Value u snapshot)
      have "snapshot = expected_snapshot action" "connected c'" using transaction_accurate(3) [OF wf run Value] by simp_all
      moreover have "snapshot = conn_snapshot c'" using transaction_accurate(2) [OF wf run] Value by (simp add: result_snapshot_def)
      ultimately have "abs_session c' = Session (target_state action)"
        by (cases action) (simp_all add: abs_session_def conn_snapshot_def expected_snapshot_def)
      with rest Value True show ?thesis by (simp add: observe_def abs_session_def run_complete)
    next
      case (Failed e)
      then have "err_state e = conn_state c'"
        using transaction_accurate(2) [OF wf run] by (simp add: result_snapshot_def conn_snapshot_def)
      then have ob: "observe r = Errored (abs_session c')" using Failed abs_session_wf [OF wf'] by (simp add: observe_def)
      show ?thesis
      proof (cases "abs_session c'")
        case Lost
        with rest ob show ?thesis by (simp add: run_lost)
      next
        case (Session st')
        with rest ob True show ?thesis by (simp add: abs_session_def [of c] run_error)
      qed
    qed
  qed
qed

lemma run_transactions_refine:
  assumes "session_wf c" "run_transactions d actions c = (c', rs)"
  shows "session_wf c' \<and> session_run (abs_session c) (zip (map fst actions) (map observe rs)) (abs_session c')"
  using assms
proof (induction actions arbitrary: c rs)
  case Nil
  then show ?case by (simp add: run_done)
next
  case (Cons a rest)
  obtain action deadline where a: "a = (action, deadline)" by (cases a)
  obtain c1 r where t: "transaction d action deadline c = (c1, r)" by fastforce
  obtain c2 rs2 where more: "run_transactions d rest c1 = (c2, rs2)" by fastforce
  have out: "c' = c2" "rs = r # rs2" using Cons.prems(2) by (simp_all add: a t more)
  from Cons.IH [OF transaction_accurate(1) [OF Cons.prems(1) t] more [folded out(1)]] have
    "session_wf c'" "session_run (abs_session c1) (zip (map fst rest) (map observe rs2)) (abs_session c')" by simp_all
  with transaction_refines [OF Cons.prems(1) t] show ?case by (simp add: a out(2))
qed

text \<open>What the abstract session promises: a session that is lost stays lost, and no action completes on it.\<close>

lemma lost_stays_lost:
  assumes "session_run Lost trace s'"
  shows "s' = Lost \<and> Completed \<notin> snd ` set trace"
  using assms by (induction Lost trace s' rule: session_run.induct) auto

subsection \<open>Transactions complete\<close>

text \<open>A message that arrives, in any number of pieces, is one turn of the response loop.\<close>

lemma read_responses_turn:
  fixes c :: "'w connection"
  assumes "works tr deadline rest" "rest (world c) = frame t b @ later" "acceptable (settings c) (max_wire_bytes (settings c) - wire_bytes rs) t b"
    "t \<notin> framed_tags"
    and x: "on_response (settings c) kind expected (rs\<lparr>wire_bytes := wire_bytes rs + (5 + length b)\<rparr>) \<lparr>tag = t, body = b\<rparr> = x"
  obtains c1 where "same_session c c1" "rest (world c1) = later"
    "\<And>rs'. x = Inr (rs', None) \<Longrightarrow> read_responses tr kind expected deadline rs (Suc allowed) c =
       read_responses tr kind expected deadline rs' allowed (c1\<lparr>parameters := response_parameters rs'\<rparr>)"
    "\<And>rs' st. x = Inr (rs', Some st) \<Longrightarrow> read_responses tr kind expected deadline rs (Suc allowed) c =
       complete_response tr kind rs' (c1\<lparr>parameters := response_parameters rs', conn_state := st\<rparr>)"
proof -
  obtain c1 where c1: "read_message_result tr (kind \<noteq> DeclinedDescription) deadline (max_wire_bytes (settings c) - wire_bytes rs) c =
      (c1, Inr (frame t b))" "same_session c c1" "rest (world c1) = later"
    using read_message_works [OF assms(1,3,2)] by blast
  have limit: "unat (frame_limit t) < 2 ^ 31" by (simp add: frame_limit_def)
  then have "length b + 4 < 2 ^ 32" using assms(3) by (simp add: acceptable_def)
  from parse_message_frame [OF assms(4) this] have parse: "parse_message (frame t b) = Inr \<lparr>tag = t, body = b\<rparr>" .
  show ?thesis
    by (rule that [OF c1(2,3)]) (simp_all add: c1(1) parse caught_def x same_session_fields(5) [OF c1(2)])
qed

definition status_byte :: "transaction_action \<Rightarrow> bytes" where
  "status_byte action = (if action = Begin then ''T'' else ''I'')"

definition completion_answer :: "transaction_action \<Rightarrow> bytes" where
  "completion_answer action = frame (CHR ''C'') (action_command action @ [NUL_byte]) @ frame (CHR ''Z'') (status_byte action)"

text \<open>Limits that admit a transaction command and its answer.\<close>

definition admits_commands :: "session_settings \<Rightarrow> bool" where
  "admits_commands se \<longleftrightarrow>
     8 \<le> max_sql_bytes se \<and> 14 \<le> max_request_wire_bytes se \<and> 2 \<le> max_messages se \<and> 1 \<le> max_results se \<and> 20 \<le> max_wire_bytes se"

definition completed_command :: parsed_query_result where
  "completed_command = empty_result\<lparr>result_statement_kind := Some Unknown, result_shape := Some NoResultSet\<rparr>"

lemma extract_completion:
  "extract_query_result pf [\<lparr>tag = CHR ''C'', body = action_command action @ [NUL_byte]\<rparr>, \<lparr>tag = CHR ''Z'', body = status_byte action\<rparr>] =
     Inr (completed_command, [])"
  by (cases action; cases pf; simp only:; code_simp)

lemma on_completion:
  assumes "result_count rs < max_results se" "query_error rs = None"
  shows "on_response se SimpleExecution [] rs \<lparr>tag = CHR ''C'', body = b\<rparr> =
     Inr (rs\<lparr>result_count := result_count rs + 1, saw_completion := True,
             messages := messages rs @ [\<lparr>tag = CHR ''C'', body = b\<rparr>]\<rparr>, None)"
  using assms
  by (simp add: on_response_def check_admissible_def is_description_def check_execution_def check_expected_def count_message_def
      record_parameter_def record_error_def is_error_response_def retain_message_def is_ready_for_query_def caught_def)

lemma on_ready:
  assumes "b \<in> {''I'', ''T'', ''E''}"
  shows "on_response se SimpleExecution [] rs \<lparr>tag = CHR ''Z'', body = b\<rparr> =
     Inr (rs\<lparr>messages := messages rs @ [\<lparr>tag = CHR ''Z'', body = b\<rparr>]\<rparr>, Some (ready_state b))"
  using assms
  by (simp add: on_response_def check_admissible_def is_description_def check_execution_def check_expected_def count_message_def
      record_parameter_def record_error_def is_error_response_def retain_message_def is_ready_for_query_def caught_def)

lemma publish_completion:
  assumes "works (transport_of d) deadline rest" "live c" "query_error rs = None"
    "messages rs = [\<lparr>tag = CHR ''C'', body = action_command action @ [NUL_byte]\<rparr>, \<lparr>tag = CHR ''Z'', body = status_byte action\<rparr>]"
  shows "\<exists>c' v. publish_result d resolve SimpleExecution deadline 0 rs c = (c', Value v unreported) \<and> live c' \<and>
     conn_state c' = conn_state c \<and> settings c' = settings c \<and> rest (world c') = rest (world c)"
proof -
  define c1 where "c1 = record_result_provenance (next_result_id c) [] (c\<lparr>next_result_id := (next_result_id c + 1) mod 2 ^ 64\<rparr>)"
  have same: "live c1" "conn_state c1 = conn_state c" "settings c1 = settings c" "world c1 = world c"
    using record_result_provenance_live [OF assms(2)] by (simp_all add: c1_def) (simp_all add: record_result_provenance_def Let_def)
  obtain item where item: "normalize_items d resolve SimpleExecution deadline [completed_command] c = (c1, Inr [item])" "q_error item = None"
    by (simp add: normalize_item_def resolve_parameters_def completed_command_def empty_result_def c1_def Let_def)
  obtain c2 where check: "expired (transport_of d) deadline c1 = (c2, False)" "same_session c1 c2" "rest (world c2) = rest (world c1)"
    using works_check [OF assms(1), of True c1] by auto
  have "publish_result d resolve SimpleExecution deadline 0 rs c = (c2, Value (item, []) unreported)"
    using item(2) assms(3)
    by (simp add: publish_result_def assms(4) extract_completion has_binary_columns_def item(1) publish_normalized_def
        valid_execution_structure_def check(1) del: normalize_items.simps)
      (simp add: completed_command_def empty_result_def valid_result_structure_def)
  then show ?thesis using check same same_session_fields [OF check(2)] live_same [OF check(2)] by auto
qed

lemma command_lengths: "length (action_command action) \<le> 8" "length (status_byte action) = 1"
  by (cases action; simp add: action_command_def status_byte_def)+

lemma read_completion:
  assumes works: "works tr deadline rest" and live: "live c" and fits: "admits_commands (settings c)"
    and answer: "rest (world c) = completion_answer action @ later"
  shows "\<exists>c' rs. read_responses tr SimpleExecution [] deadline (start_response (parameters c)) (max_messages (settings c)) c = (c', Inr rs) \<and>
     query_error rs = None \<and>
     messages rs = [\<lparr>tag = CHR ''C'', body = action_command action @ [NUL_byte]\<rparr>, \<lparr>tag = CHR ''Z'', body = status_byte action\<rparr>] \<and>
     live c' \<and> conn_state c' = target_state action \<and> settings c' = settings c \<and> rest (world c') = later"
proof -
  let ?b = "action_command action @ [NUL_byte]" and ?z = "status_byte action" and ?rs = "start_response (parameters c)"
  have z: "?z \<in> {''I'', ''T'', ''E''}" "ready_state ?z = target_state action"
    by (cases action; simp add: status_byte_def ready_state_def)+
  obtain n where n: "max_messages (settings c) = Suc (Suc n)" using fits by (metis admits_commands_def add_2_eq_Suc le_Suc_ex)
  define rs1 where "rs1 = ?rs\<lparr>wire_bytes := 5 + length ?b, result_count := 1, saw_completion := True,
    messages := [\<lparr>tag = CHR ''C'', body = ?b\<rparr>]\<rparr>"
  have x1: "on_response (settings c) SimpleExecution [] (?rs\<lparr>wire_bytes := wire_bytes ?rs + (5 + length ?b)\<rparr>)
      \<lparr>tag = CHR ''C'', body = ?b\<rparr> = Inr (rs1, None)"
    using fits by (subst on_completion) (simp_all add: rs1_def start_response_def admits_commands_def)
  have a1: "acceptable (settings c) (max_wire_bytes (settings c) - wire_bytes ?rs) (CHR ''C'') ?b"
    using fits command_lengths(1) [of action]
    by (simp add: acceptable_def frame_limit_def allows_large_frame_def admits_commands_def start_response_def)
  obtain c1 where c1: "same_session c c1" "rest (world c1) = frame (CHR ''Z'') ?z @ later"
    "read_responses tr SimpleExecution [] deadline ?rs (Suc (Suc n)) c =
     read_responses tr SimpleExecution [] deadline rs1 (Suc n) (c1\<lparr>parameters := response_parameters rs1\<rparr>)"
    by (rule read_responses_turn [OF works _ a1 _ x1, of "frame (CHR ''Z'') ?z @ later" "Suc n"])
      (use answer in \<open>auto simp: completion_answer_def framed_tags_def\<close>)
  let ?c = "c1\<lparr>parameters := response_parameters rs1\<rparr>"
  have set1: "settings ?c = settings c" using same_session_fields(5) [OF c1(1)] by simp
  define rs2 where "rs2 = rs1\<lparr>wire_bytes := wire_bytes rs1 + (5 + length ?z),
    messages := messages rs1 @ [\<lparr>tag = CHR ''Z'', body = ?z\<rparr>]\<rparr>"
  have x2: "on_response (settings ?c) SimpleExecution [] (rs1\<lparr>wire_bytes := wire_bytes rs1 + (5 + length ?z)\<rparr>)
      \<lparr>tag = CHR ''Z'', body = ?z\<rparr> = Inr (rs2, Some (target_state action))"
    using z by (simp add: on_ready rs2_def)
  have room: "6 \<le> max_wire_bytes (settings c) - (6 + length (action_command action))"
    using fits command_lengths(1) [of action] unfolding admits_commands_def by linarith
  have a2: "acceptable (settings ?c) (max_wire_bytes (settings ?c) - wire_bytes rs1) (CHR ''Z'') ?z"
    using room command_lengths(2) [of action] same_session_fields(5) [OF c1(1)]
    by (simp add: acceptable_def frame_limit_def allows_large_frame_def rs1_def)
  obtain c2 where c2: "same_session ?c c2" "rest (world c2) = later"
    "read_responses tr SimpleExecution [] deadline rs1 (Suc n) ?c =
     complete_response tr SimpleExecution rs2 (c2\<lparr>parameters := response_parameters rs2, conn_state := target_state action\<rparr>)"
    by (rule read_responses_turn [OF works _ a2 _ x2, of later n]) (use c1(2) in \<open>auto simp: framed_tags_def\<close>)
  let ?c2 = "c2\<lparr>parameters := response_parameters rs2, conn_state := target_state action\<rparr>"
  have "target_state action \<noteq> Disconnected" by (cases action) simp_all
  with live_same [OF c2(1) live_parameters [OF live_same [OF c1(1) live]]] have "live ?c2"
    by (intro live_state live_parameters)
  moreover have "complete_response tr SimpleExecution rs2 ?c2 = (?c2, Inr rs2)"
    by (simp add: complete_response_def is_description_def rs2_def rs1_def)
  moreover have "settings ?c2 = settings c" using same_session_fields(5) [OF c2(1)] set1 by simp
  ultimately show ?thesis
    using c1(3) c2 by (auto simp: n rs2_def rs1_def start_response_def simp del: read_responses.simps)
qed

lemma transaction_works:
  assumes works: "works (transport_of d) deadline rest" and live: "live c" and fits: "admits_commands (settings c)"
    and answer: "rest (world c) = completion_answer action @ later"
  shows "\<exists>c'. transaction d action deadline c = (c', Value () (expected_snapshot action)) \<and> live c' \<and>
     conn_state c' = target_state action \<and> settings c' = settings c \<and> rest (world c') = later"
proof -
  let ?sql = "action_command action" and ?none = "\<lambda>ids deadline c. (c, Value Map.empty unreported)"
  have no_nul: "NUL_byte \<notin> set ?sql" by (cases action) (simp_all add: action_command_def)
  have "14 \<le> max_request_wire_bytes (settings c)" using fits by (simp add: admits_commands_def)
  then have room: "\<not> (max_request_wire_bytes (settings c) < 6 \<or> min (max_request_wire_bytes (settings c) - 6) (2 ^ 32 - 1 - 5) < length ?sql)"
    using command_lengths(1) [of action] by simp
  have nul: "reject_sql_nul ?sql = Inr ()" using no_nul reject_sql_nul_eq by blast
  obtain q where q: "create_simple_query ?sql (max_request_wire_bytes (settings c)) = Inr q"
    unfolding create_simple_query_def if_not_P [OF room] nul by simp
  obtain c1 where c1: "write_all_loop (transport_of d) True deadline q c = (c1, Inr ())" "same_session c c1"
    "rest (world c1) = rest (world c)" using write_all_works [OF works] by blast
  have live1: "live c1" by (rule live_same [OF c1(2) live])
  obtain c2 rs where c2: "read_responses (transport_of d) SimpleExecution [] deadline (start_response (parameters c1)) (max_messages (settings c1)) c1 = (c2, Inr rs)"
    "query_error rs = None"
    "messages rs = [\<lparr>tag = CHR ''C'', body = ?sql @ [NUL_byte]\<rparr>, \<lparr>tag = CHR ''Z'', body = status_byte action\<rparr>]"
    "live c2" "conn_state c2 = target_state action" "settings c2 = settings c1" "rest (world c2) = later"
    using read_completion [OF works live1, of action later] fits answer c1 same_session_fields(5) [OF c1(2)] by auto
  obtain c3 v where c3: "publish_result d ?none SimpleExecution deadline 0 rs c2 = (c3, Value v unreported)" "live c3"
    "conn_state c3 = target_state action" "settings c3 = settings c2" "rest (world c3) = later"
    using publish_completion [OF works c2(4,2,3), of ?none] c2(5,7) by auto
  obtain item items where v: "v = (item, items)" by (cases v)
  have "execute_query_impl d ?sql [] deadline c = Some (c3, Value v unreported)"
    using live q c1(1) c2(1) c3(1) by (simp add: execute_query_impl_def exchange_def live_def read_query_result_def)
  then have run: "execute_query d ?sql deadline c =
      (c3, Value (annotate Op_ExecuteDirect c3 item, map (annotate Op_ExecuteDirect c3) items) (conn_snapshot c3))"
    using fits command_lengths(1) [of action] by (simp add: execute_query_def perform_def finish_operation_def v admits_commands_def)
  have "conn_snapshot c3 = expected_snapshot action"
    using c3(2,3) by (cases action) (simp_all add: conn_snapshot_def expected_snapshot_def disposition_def live_def)
  with run have "transaction d action deadline c = (c3, Value () (expected_snapshot action))" by (simp add: transaction_def)
  with c3 c2(6) same_session_fields(5) [OF c1(2)] show ?thesis by auto
qed

lemma run_transactions_work:
  assumes "works (transport_of d) deadline rest" "live c" "admits_commands (settings c)"
    "rest (world c) = concat (map completion_answer actions) @ later"
  shows "\<exists>c'. run_transactions d (map (\<lambda>action. (action, deadline)) actions) c =
       (c', map (\<lambda>action. Value () (expected_snapshot action)) actions) \<and> live c' \<and> rest (world c') = later \<and>
     conn_state c' = (if actions = [] then conn_state c else target_state (last actions))"
  using assms(2-4)
proof (induction actions arbitrary: c)
  case Nil
  then show ?case by simp
next
  case (Cons action actions)
  then obtain c1 where c1: "transaction d action deadline c = (c1, Value () (expected_snapshot action))" "live c1"
    "conn_state c1 = target_state action" "settings c1 = settings c" "rest (world c1) = concat (map completion_answer actions) @ later"
    using transaction_works [OF assms(1), of c action "concat (map completion_answer actions) @ later"] by auto
  from Cons.IH [OF c1(2)] c1 Cons.prems(2) show ?case by auto
qed

subsection \<open>Resetting a session\<close>

definition retire_session :: "'w driver \<Rightarrow> backend_error \<Rightarrow> 'w connection \<Rightarrow> 'w connection \<times> unit backend_result" where
  "retire_session d e c =
     (disconnect (transport_of d) c,
      Failed (e\<lparr>err_operation := Op_ResetSession, err_state := Disconnected, err_disposition := Retire, retry_safe := None\<rparr>))"

definition clean_response :: "query_results \<Rightarrow> session_snapshot \<Rightarrow> bool" where
  "clean_response v snapshot \<longleftrightarrow>
     snapshot = \<lparr>snapshot_state = Idle, snapshot_disposition = Reusable\<rparr> \<and> q_rows (fst v) = [] \<and> q_columns (fst v) = [] \<and>
     q_affected_rows (fst v) = 0 \<and> snd v = [] \<and> q_cell_errors (fst v) = [] \<and> q_error (fst v) = None \<and>
     q_parameter_types (fst v) = [] \<and> q_statement_kind (fst v) = Some Unknown"

definition cleanup_session :: "'w driver \<Rightarrow> string \<Rightarrow> int \<Rightarrow> 'w connection \<Rightarrow> 'w connection \<times> unit backend_result" where
  "cleanup_session d sql deadline c =
     (case execute_cleanup_query d sql sql deadline c of
        (c, Failed e) \<Rightarrow> retire_session d e c
      | (c, Value v snapshot) \<Rightarrow>
          if \<not> clean_response v snapshot
          then retire_session d (BackendError (Db_code ProtocolError) ''Unexpected session reset response'') c
          else (c, Value () snapshot))"

text \<open>\<open>reset_profile\<close> is whether the session was given a profile that admits a reset.\<close>

definition reset_session :: "'w driver \<Rightarrow> bool \<Rightarrow> int \<Rightarrow> 'w connection \<Rightarrow> 'w connection \<times> unit backend_result" where
  "reset_session d reset_profile deadline c =
     (if \<not> reset_profile then
        (c, Failed (local_backend_error Local_Unsupported ''Session reset profile is unavailable'' Op_ResetSession (conn_state c)))
      else if conn_state c = Disconnected then retire_session d (BackendError (Db_code NotConnected) ''Not connected'') c
      else if conn_state c = State_Unknown then retire_session d (BackendError (Db_code ProtocolError) ''Unknown reset session state'') c
      else if conn_state c = In_Transaction \<or> conn_state c = FailedTransaction then
        (case cleanup_session d ''ROLLBACK'' deadline c of
           (c, Failed e) \<Rightarrow> (c, Failed e)
         | (c, Value _ _) \<Rightarrow> cleanup_session d ''DISCARD ALL'' deadline c)
      else cleanup_session d ''DISCARD ALL'' deadline c)"

text \<open>A reset gives back an idle session, or ends it.\<close>

lemma cleanup_session_outcome:
  assumes "session_wf c" "cleanup_session d sql deadline c = (c', r)"
  shows "case r of Value _ _ \<Rightarrow> live c' \<and> conn_state c' = Idle | Failed e \<Rightarrow> retired c' \<and> err_disposition e = Retire"
proof -
  obtain c1 x where q: "execute_cleanup_query d sql sql deadline c = (c1, x)" by fastforce
  with execute_cleanup_query_settled [OF assms(1), of d sql sql deadline] have settled: "settled c (c1, x)" by simp
  show ?thesis
  proof (cases x)
    case (Value v snapshot)
    with settledD(2) [OF settled] have "live c1" "snapshot = conn_snapshot c1" by simp_all
    with assms(2) q Value show ?thesis
      by (auto simp: cleanup_session_def retire_session_def clean_response_def conn_snapshot_def split: if_splits)
  next
    case (Failed e)
    with assms(2) q show ?thesis by (auto simp: cleanup_session_def retire_session_def)
  qed
qed

lemma reset_session_outcome:
  assumes "session_wf c" "reset_session d True deadline c = (c', r)"
  shows "case r of Value _ _ \<Rightarrow> live c' \<and> conn_state c' = Idle | Failed e \<Rightarrow> retired c' \<and> err_disposition e = Retire"
proof (cases "conn_state c = In_Transaction \<or> conn_state c = FailedTransaction")
  case True
  obtain c1 x where rolled: "cleanup_session d ''ROLLBACK'' deadline c = (c1, x)" by fastforce
  note first = cleanup_session_outcome [OF assms(1) rolled]
  show ?thesis
  proof (cases x)
    case (Value u snapshot)
    with first have "session_wf c1" by (simp add: live_wf)
    moreover have "cleanup_session d ''DISCARD ALL'' deadline c1 = (c', r)" using assms(2) True rolled Value by (auto simp: reset_session_def)
    ultimately show ?thesis by (rule cleanup_session_outcome)
  next
    case (Failed e)
    with first assms(2) True rolled show ?thesis by (auto simp: reset_session_def)
  qed
next
  case False
  show ?thesis
  proof (cases "conn_state c = Idle")
    case True
    with assms(2) have "cleanup_session d ''DISCARD ALL'' deadline c = (c', r)" by (simp add: reset_session_def)
    with assms(1) show ?thesis by (rule cleanup_session_outcome)
  next
    case other: False
    with False assms(2) show ?thesis by (cases "conn_state c") (auto simp: reset_session_def retire_session_def)
  qed
qed

subsection \<open>The SQLSTATE of errors\<close>

datatype error_context = Ctx_Unknown | Ctx_CreateTable | Ctx_CreateView | Ctx_CreateIndex | Ctx_DropIndex

definition forbidden_code_point :: "nat \<Rightarrow> bool" where
  "forbidden_code_point p \<longleftrightarrow> p < 0x20 \<or> (0x7f \<le> p \<and> p \<le> 0x9f) \<or> p = 0x2028 \<or> p = 0x2029"

function printable_column :: "string \<Rightarrow> nat \<Rightarrow> bool \<Rightarrow> bool" where
  "printable_column column offset nonblank =
     (if offset < length column then
        (case next_utf8_code_point column offset of
           None \<Rightarrow> False
         | Some (p, offset') \<Rightarrow>
             if forbidden_code_point p then False else printable_column column offset' (nonblank \<or> p \<noteq> 0x20))
      else nonblank)"
  by pat_completeness auto
termination
  by (relation "measure (\<lambda>(column, offset, _). length column - offset)") (auto dest: next_utf8_advances intro!: diff_less_mono2)

declare printable_column.simps [simp del]

definition redshift_null_violation_column :: "string \<Rightarrow> bool" where
  "redshift_null_violation_column column \<longleftrightarrow> column \<noteq> [] \<and> length column \<le> 127 \<and> printable_column column 0 False"

definition normalize_sqlstate :: "string \<Rightarrow> error_context \<Rightarrow> string option" where
  "normalize_sqlstate server_state context =
     (if length server_state \<noteq> 5 \<or> \<not> list_all (\<lambda>ch. is_digit ch \<or> is_upper ch) server_state then None
      else if server_state = ''22P02'' then Some ''22018''
      else if take 2 server_state = ''22'' then Some server_state
      else if take 2 server_state = ''23'' then Some ''23000''
      else if server_state = ''25P02'' then Some ''25P02''
      else if server_state = ''3F000'' then Some ''3F000''
      else if server_state = ''42P07'' then
        if context = Ctx_CreateIndex then Some ''42S11''
        else if context = Ctx_CreateTable \<or> context = Ctx_CreateView then Some ''42S01''
        else None
      else if server_state = ''42P01'' then Some ''42S02''
      else if server_state = ''42704'' \<and> context = Ctx_DropIndex then Some ''42S12''
      else if server_state = ''42701'' then Some ''42S21''
      else if server_state = ''42703'' then Some ''42S22''
      else None)"

definition null_violation_prefix :: string where
  "null_violation_prefix = ''Query error: Cannot insert a NULL value into column ''"

definition normalize_error_sqlstate :: "pg_catalog_profile \<Rightarrow> backend_error \<Rightarrow> error_context \<Rightarrow> string option" where
  "normalize_error_sqlstate pf e context =
     (if pf = Redshift \<and> context = Ctx_Unknown \<and> err_code e = Db_code QueryFailed \<and> err_class e = Class_Server \<and>
         native_state e = Some ''XX000'' \<and> starts_with (err_message e) null_violation_prefix \<and>
         redshift_null_violation_column (drop (length null_violation_prefix) (err_message e))
      then Some ''23000''
      else normalize_sqlstate (case native_state e of Some st \<Rightarrow> st | None \<Rightarrow> []) context)"

text \<open>Every state that is handed on is a well-formed SQLSTATE.\<close>

lemma normalize_error_sqlstate_wf:
  assumes "normalize_error_sqlstate pf e context = Some st"
  shows "length st = 5 \<and> list_all (\<lambda>ch. is_digit ch \<or> is_upper ch) st"
proof -
  have base: "length st = 5 \<and> list_all (\<lambda>ch. is_digit ch \<or> is_upper ch) st" if "normalize_sqlstate s context = Some st" for s
    using that unfolding normalize_sqlstate_def by (auto simp: is_digit_def is_upper_def split: if_splits)
  show ?thesis
    using assms base unfolding normalize_error_sqlstate_def by (auto simp: is_digit_def is_upper_def split: if_splits)
qed

subsection \<open>Properties\<close>

text \<open>An example: a peer whose bytes arrive one by one, and an idle session with it.\<close>

definition dripping :: "bytes transport" where
  "dripping =
     \<lparr>t_now = \<lambda>w. (w, 0), t_send = \<lambda>data deadline w. (w, Inr 1),
      t_recv = \<lambda>n deadline w. if w = [] then (w, Inr ([], True)) else (tl w, Inr ([hd w], False)), t_close = \<lambda>w. []\<rparr>"

definition example_driver :: "bytes driver" where
  "example_driver =
     \<lparr>transport_of = dripping,
      floats = \<lparr>c_locale_available = False,
        read_float = \<lambda>single v. \<lparr>fr_consumed = 0, fr_finite = False, fr_zero = False, fr_scientific = None\<rparr>\<rparr>,
      float_environment = \<lparr>ready = False, restored = True,
        strto = \<lambda>_ _. \<lparr>consumed = 0, bits = 0, is_finite = True, is_zero = True, conversion_errno = Errno_zero\<rparr>\<rparr>,
      profile = PostgreSQL\<rparr>"

definition example_session :: "bytes \<Rightarrow> bytes connection" where
  "example_session incoming =
     \<lparr>world = incoming,
      settings = \<lparr>max_messages = 10, max_wire_bytes = 1000, max_columns_per_description = 10, max_metadata_entries = 10,
        max_column_name_bytes = 10, max_metadata_name_bytes = 10, max_rows = 10, max_cells = 10, max_results = 10,
        max_diagnostic_bytes = 100, max_sql_bytes = 100, max_parameters = 10, max_parameter_bytes = 10,
        max_parameter_total_bytes = 10, max_request_wire_bytes = 100,
        character_metadata = \<lparr>varchar_threshold = 0, long_varchar_size = 0, boolean_as_character = False\<rparr>\<rparr>,
      session_password = [], session_token = None,
      protocol_parser = \<lparr>scram_client = None, scram_server_verified = False\<rparr>, connected = True, conn_state = Idle,
      closed_after_failure = False, parameters = Map.empty, peer_verified = False, cancellation_key = None,
      result_provenance = [], next_result_id = 1\<rparr>"

lemma dripping_works: "works dripping 1 (\<lambda>w. w)"
proof -
  have "\<exists>k w'. 0 < k \<and> k \<le> n \<and> k \<le> length w \<and> t_recv dripping n 1 w = (w', Inr (take k w, False)) \<and> w' = drop k w"
    if "0 < n" "w \<noteq> []" for n and w :: bytes
    using that by (intro exI [of _ 1] exI [of _ "tl w"]) (cases w; simp add: dripping_def)
  moreover have "\<exists>k w'. 0 < k \<and> k \<le> length data \<and> t_send dripping data 1 w = (w', Inr k) \<and> w' = w" if "data \<noteq> []" for data w
    using that by (intro exI [of _ 1] exI [of _ w]) (cases data; simp add: dripping_def)
  ultimately show ?thesis unfolding works_def by (simp add: dripping_def)
qed

lemma example_session_live: "live (example_session incoming)"
  by (simp add: live_def session_wf_def example_session_def)



text \<open>
  C7: transactions refine an abstract session that is either lost or in a state the server has reported. Any sequence of begin,
  commit and rollback is a run of it: an action succeeds only on a session that is not lost and leaves it in a transaction
  after begin and idle after commit and rollback; an action that fails reports exactly the session it leaves behind; and
  a lost session stays lost and completes no further action.
\<close>

theorem transactions_refine_session:
  assumes "session_wf c" "run_transactions d actions c = (c', rs)"
  shows "session_run (abs_session c) (zip (map fst actions) (map observe rs)) (abs_session c') \<and> session_wf c' \<and>
    (abs_session c = Lost \<longrightarrow> abs_session c' = Lost \<and> Completed \<notin> snd ` set (zip (map fst actions) (map observe rs)))"
  using run_transactions_refine [OF assms] lost_stays_lost by metis

theorem transactions_refine_session_witness:
  "\<exists>c' rs. run_transactions example_driver [(Begin, 1), (Rollback, 1)] (example_session []) = (c', rs) \<and>
     session_run (Session Idle) (zip [Begin, Rollback] (map observe rs)) (abs_session c')"
proof -
  obtain c' rs where run: "run_transactions example_driver [(Begin, 1), (Rollback, 1)] (example_session []) = (c', rs)" by fastforce
  moreover have "abs_session (example_session []) = Session Idle" by (simp add: abs_session_def example_session_def)
  ultimately show ?thesis
    using transactions_refine_session [OF live_wf [OF example_session_live] run] by auto
qed

text \<open>
  C8: transactions complete. On a transport that works until the deadline, a connected session whose peer answers each
  command with its completion and the matching status carries out any sequence of transaction actions: every one returns
  success with the state the action promises, however the bytes of the answers are cut into reads, and exactly the
  answers are consumed.
\<close>

theorem transactions_complete:
  assumes "works (transport_of d) deadline rest" "live c" "admits_commands (settings c)"
    "rest (world c) = concat (map completion_answer actions) @ later"
  shows "\<exists>c'. run_transactions d (map (\<lambda>action. (action, deadline)) actions) c =
       (c', map (\<lambda>action. Value () (expected_snapshot action)) actions) \<and> live c' \<and> rest (world c') = later \<and>
     conn_state c' = (if actions = [] then conn_state c else target_state (last actions))"
  by (rule run_transactions_work [OF assms])

theorem transactions_complete_witness:
  "\<exists>c'. run_transactions example_driver [(Begin, 1), (Commit, 1)] (example_session (concat (map completion_answer [Begin, Commit]))) =
       (c', [Value () (expected_snapshot Begin), Value () (expected_snapshot Commit)]) \<and> live c' \<and> world c' = [] \<and>
     conn_state c' = Idle"
proof -
  let ?c = "example_session (concat (map completion_answer [Begin, Commit]))"
  have "works (transport_of example_driver) 1 (\<lambda>w. w)" using dripping_works by (simp add: example_driver_def)
  moreover have "admits_commands (settings ?c)" "world ?c = concat (map completion_answer [Begin, Commit]) @ []"
    by (simp_all add: admits_commands_def example_session_def)
  ultimately show ?thesis using transactions_complete [OF _ example_session_live] by fastforce
qed

end
