(* ===== verification/PgConnect.thy ===== *)
theory PgConnect
  imports PgSession
begin

section \<open>Opening a session\<close>

text \<open>
  \<^verbatim>\<open>connect_until\<close> and \<^verbatim>\<open>connect_impl\<close> of \<^verbatim>\<open>core/database/generic_database_connection.cpp\<close>: the checks of the settings, the
  upgrade to TLS, the startup message and the login of \<open>PgAuth\<close> over the transport, with the selection of a trust
  source of \<^verbatim>\<open>sdk/include/odbcpp/database/i_database_connection.h\<close>. Opening and upgrading the transport is the parameter
  \<open>opener\<close>; the connection owns a transport from its construction on.
\<close>

subsection \<open>Settings\<close>

record native_idp_settings =
  idp_token :: string
  idp_type :: string
  provider_name :: string
  token_type :: string
  identity_namespace :: string
  plugin_name :: string

record connection_settings =
  cs_host :: string
  cs_user :: string
  cs_password :: string
  cs_database :: string
  cs_port :: nat
  cs_use_ssl :: bool
  cs_ca_file :: string
  cs_ca_dir :: string
  cs_session :: session_settings
  cs_startup_wire_bytes :: nat
  cs_startup_messages :: nat
  cs_max_field_bytes :: nat
  cs_max_startup_bytes :: nat
  cs_max_auth_bytes :: nat
  cs_application_name :: "string option"
  cs_native_idp :: "native_idp_settings option"

datatype tls_trust_source = Trust_System | Trust_CustomFile | Trust_CustomDirectory

datatype tls_trust_conflict =
    No_conflict | FileAndDirectory | SettingsWithoutTls | SystemWithCustom | CustomWithoutLocation

definition select_tls_trust_source ::
  "bool \<Rightarrow> bool option \<Rightarrow> string \<Rightarrow> string \<Rightarrow> tls_trust_source \<times> tls_trust_conflict" where
  "select_tls_trust_source use_tls use_system ca_file ca_directory =
     (let has_file = (ca_file \<noteq> []); has_directory = (ca_directory \<noteq> [])
      in if \<not> use_tls
         then (Trust_System, if has_file \<or> has_directory \<or> use_system \<noteq> None then SettingsWithoutTls else No_conflict)
         else if has_file \<and> has_directory then (Trust_System, FileAndDirectory)
         else if use_system = Some True \<and> (has_file \<or> has_directory) then (Trust_System, SystemWithCustom)
         else if use_system = Some False \<and> \<not> has_file \<and> \<not> has_directory then (Trust_System, CustomWithoutLocation)
         else if has_file then (Trust_CustomFile, No_conflict)
         else if has_directory then (Trust_CustomDirectory, No_conflict)
         else (Trust_System, No_conflict))"

definition valid_resource_limits :: "connection_settings \<Rightarrow> bool" where
  "valid_resource_limits se \<longleftrightarrow>
     5 \<le> max_wire_bytes (cs_session se) \<and> 0 < max_messages (cs_session se) \<and>
     5 \<le> cs_startup_wire_bytes se \<and> 0 < cs_startup_messages se \<and> 0 < max_results (cs_session se) \<and>
     max_sql_bytes (cs_session se) \<le> 64 * 1024 * 1024 \<and> max_parameters (cs_session se) \<le> 65535 \<and>
     max_parameter_bytes (cs_session se) \<le> 64 * 1024 * 1024 \<and>
     max_parameter_total_bytes (cs_session se) \<le> 256 * 1024 * 1024 \<and> cs_max_field_bytes se \<le> 1024 * 1024 \<and>
     max_request_wire_bytes (cs_session se) \<le> 1024 * 1024 * 1024 \<and> cs_max_startup_bytes se \<le> 1024 * 1024 * 1024 \<and>
     cs_max_auth_bytes se \<le> 1024 * 1024 * 1024"

text \<open>The checks that come before anything is changed, in order.\<close>

definition check_settings :: "connection_settings \<Rightarrow> io_failure option" where
  "check_settings se =
     (let invalid = (\<lambda>m. Some (Db_code InvalidParameter, m));
          limit = Some (Db_code ResourceLimit, ''Database connection input limit exceeded'');
          conflict = snd (select_tls_trust_source (cs_use_ssl se) None (cs_ca_file se) (cs_ca_dir se))
      in if cs_port se = 0 then invalid ''Database connection port is unresolved''
         else if \<not> valid_character_metadata_policy (character_metadata (cs_session se))
         then invalid ''Invalid character metadata sizing''
         else if \<not> valid_resource_limits se then invalid ''Resource limits are outside supported bounds''
         else if list_ex (\<lambda>s. cs_max_field_bytes se < length s)
                   [cs_host se, cs_user se, cs_password se, cs_database se, cs_ca_file se, cs_ca_dir se] then limit
         else if \<exists>a \<in> set_option (cs_application_name se). cs_max_field_bytes se < length a then limit
         else if \<exists>a \<in> set_option (cs_application_name se). NUL_byte \<in> set a
         then invalid ''Application name contains an embedded NUL byte''
         else if NUL_byte \<in> set (cs_password se)
         then invalid ''PostgreSQL authentication credential contains an embedded NUL byte''
         else if \<exists>idp \<in> set_option (cs_native_idp se). \<not> cs_use_ssl se \<or> idp_token idp = [] \<or> cs_password se \<noteq> []
         then invalid ''Native IdP login requires TLS, a token and no password''
         else if conflict = FileAndDirectory then invalid ''TLS CA file and directory cannot both be specified''
         else if conflict \<noteq> No_conflict then invalid ''TLS CA settings require TLS''
         else None)"

text \<open>The run-time parameters in the order of \<^verbatim>\<open>std::map\<close>.\<close>

definition startup_parameters :: "connection_settings \<Rightarrow> (string \<times> string) list" where
  "startup_parameters se =
     [(''DateStyle'', ''ISO, YMD''),
      (''application_name'', case cs_application_name se of Some a \<Rightarrow> a | None \<Rightarrow> ''odbcpp''),
      (''client_encoding'', ''UTF8'')] @
     (case cs_native_idp se of
        None \<Rightarrow> []
      | Some idp \<Rightarrow>
          (if identity_namespace idp \<noteq> [] then [(''identity_namespace'', identity_namespace idp)] else []) @
          [(''idp_type'', idp_type idp)] @
          (if plugin_name idp \<noteq> [] then [(''plugin_name'', plugin_name idp)] else []) @
          [(''provider_name'', provider_name idp), (''token_type'', token_type idp), (''web_identity_token'', idp_token idp)])"

definition startup_request :: "pg_catalog_profile \<Rightarrow> connection_settings \<Rightarrow> io_failure + bytes" where
  "startup_request pf se =
     (case create_startup_message pf (cs_user se) (cs_database se) (startup_parameters se) (cs_max_startup_bytes se) of
        Inr startup \<Rightarrow> Inr startup
      | Inl e \<Rightarrow>
          Inl (if e = Request_wire_limit_exceeded then (Db_code ResourceLimit, ''Database startup request limit exceeded'')
               else (Db_code InvalidParameter, what e)))"

subsection \<open>Opening the transport\<close>

record 'w opener =
  o_start_tls :: bool
  o_configurable :: bool
  o_set_ca :: "string \<Rightarrow> string \<Rightarrow> 'w \<Rightarrow> 'w"
  o_connect :: "string \<Rightarrow> nat \<Rightarrow> int \<Rightarrow> 'w \<Rightarrow> 'w \<times> io_failure option"
  o_connect_plain :: "string \<Rightarrow> nat \<Rightarrow> int \<Rightarrow> 'w \<Rightarrow> 'w \<times> io_failure option"
  o_upgrade :: "string \<Rightarrow> int \<Rightarrow> 'w \<Rightarrow> 'w \<times> io_failure option"
  o_verified :: "'w \<Rightarrow> bool"

definition connect_error_code :: "error_code \<Rightarrow> db_error_code" where
  "connect_error_code code =
     (if code = Db_code Timeout then Timeout else if code = Db_code InvalidParameter then InvalidParameter else ConnectionFailed)"

type_synonym 'w connect_step = "'w connection \<times> (io_failure + unit)"

definition then_step :: "'w connect_step \<Rightarrow> ('w connection \<Rightarrow> 'w connection \<times> ('e + 'a)) \<Rightarrow> (io_failure \<Rightarrow> 'e) \<Rightarrow> 'w connection \<times> ('e + 'a)" where
  "then_step r f g = (case r of (c, Inl e) \<Rightarrow> (c, Inl (g e)) | (c, Inr _) \<Rightarrow> f c)"

definition in_time :: "'w transport \<Rightarrow> int \<Rightarrow> 'w connection \<Rightarrow> 'w connect_step" where
  "in_time tr deadline c = (let (c, late) = expired tr deadline c in (c, if late then Inl deadline_failure else Inr ()))"

definition open_with :: "(int \<Rightarrow> 'w \<Rightarrow> 'w \<times> io_failure option) \<Rightarrow> (error_code \<Rightarrow> error_code) \<Rightarrow> int \<Rightarrow> 'w connection \<Rightarrow> 'w connect_step" where
  "open_with f code deadline c =
     (let (w, r) = f deadline (world c)
      in (c\<lparr>world := w\<rparr>, case r of None \<Rightarrow> Inr () | Some (e, m) \<Rightarrow> Inl (code e, m)))"

definition ssl_response :: "'w transport \<Rightarrow> int \<Rightarrow> 'w connection \<Rightarrow> 'w connect_step" where
  "ssl_response tr deadline c =
     (let (w, r) = t_recv tr 1 deadline (world c)
      in (c\<lparr>world := w\<rparr>,
          case r of
            Inl f \<Rightarrow> Inl f
          | Inr (data, eof) \<Rightarrow>
              if 1 < length data then Inl (Db_code ProtocolError, ''Transport read exceeded requested SSL response bytes'')
              else if eof then Inl (Db_code NetworkError, ''Unexpected EOF during SSL negotiation'')
              else if data = [] then Inl (Db_code NetworkError, ''SSL negotiation read made no progress'')
              else if data = ''N'' then Inl (Db_code TLSError, ''SSL not supported by server'')
              else if data \<noteq> ''S'' then Inl (Db_code ProtocolError, ''Invalid PostgreSQL SSL negotiation response'')
              else Inr ()))"

definition open_tls :: "'w transport \<Rightarrow> 'w opener \<Rightarrow> connection_settings \<Rightarrow> int \<Rightarrow> 'w connection \<Rightarrow> 'w connect_step" where
  "open_tls tr op se deadline c =
     (if \<not> o_start_tls op then (c, Inl (Db_code InvalidParameter, ''selected transport does not support PostgreSQL TLS upgrade''))
      else if \<not> o_configurable op \<and> (cs_ca_file se \<noteq> [] \<or> cs_ca_dir se \<noteq> [])
      then (c, Inl (Db_code InvalidParameter, ''selected TLS transport does not support custom CA settings''))
      else
        let c = (if o_configurable op then c\<lparr>world := o_set_ca op (cs_ca_file se) (cs_ca_dir se) (world c)\<rparr> else c)
        in then_step (in_time tr deadline c) (\<lambda>c.
           then_step (open_with (o_connect_plain op (cs_host se) (cs_port se)) (\<lambda>e. Db_code (connect_error_code e)) deadline c) (\<lambda>c.
           then_step (write_all_loop tr True deadline create_ssl_request c) (\<lambda>c.
           then_step (in_time tr deadline c) (\<lambda>c.
           then_step (ssl_response tr deadline c) (\<lambda>c.
           then_step (in_time tr deadline c) (\<lambda>c.
           then_step (open_with (o_upgrade op (cs_host se)) (\<lambda>e. e) deadline c) (\<lambda>c.
             let c = c\<lparr>peer_verified := o_verified op (world c)\<rparr>
             in (c, if cs_native_idp se \<noteq> None \<and> \<not> peer_verified c
                    then Inl (Db_code TLSError, ''Native IdP login requires a verified TLS peer'') else Inr ()))
             id) id) id) id) id) id) id)"

definition open_transport :: "'w transport \<Rightarrow> 'w opener \<Rightarrow> connection_settings \<Rightarrow> int \<Rightarrow> 'w connection \<Rightarrow> 'w connect_step" where
  "open_transport tr op se deadline c =
     (if cs_use_ssl se then open_tls tr op se deadline c
      else then_step (in_time tr deadline c) (\<lambda>c.
        open_with (o_connect op (cs_host se) (cs_port se)) (\<lambda>e. Db_code (connect_error_code e)) deadline c) id)"

subsection \<open>The login over the transport\<close>

definition login_settings_of :: "connection_settings \<Rightarrow> bool \<Rightarrow> login_settings" where
  "login_settings_of se verified =
     \<lparr>login_user = cs_user se, login_password = cs_password se, native_idp_token = map_option idp_token (cs_native_idp se),
      identity_verified = verified, max_auth_wire_bytes = cs_max_auth_bytes se, max_startup_messages = cs_startup_messages se,
      max_startup_wire_bytes = cs_startup_wire_bytes se\<rparr>"

text \<open>The response a turn of the login hands to the transport, if it does.\<close>

definition login_response :: "auth_crypto \<Rightarrow> login_settings \<Rightarrow> login_state \<Rightarrow> wire_read \<Rightarrow> bytes list" where
  "login_response cr se st rd =
     (case login_turn cr (\<lambda>_. None) se st rd of Proceed st' \<Rightarrow> drop (length (sent st)) (sent st') | Done _ _ \<Rightarrow> [])"

definition write_outcome :: "'w transport \<Rightarrow> int \<Rightarrow> 'w connection \<Rightarrow> bytes \<Rightarrow> io_failure option" where
  "write_outcome tr deadline c response =
     (case snd (write_all_loop tr True deadline response c) of Inl f \<Rightarrow> Some f | Inr _ \<Rightarrow> None)"

text \<open>
  One turn reads a message, lets the login decide and writes its response. The session keeps the first backend key; a second
  one is an exception. The numeric argument counts the messages the limit still allows.
\<close>

fun login_over ::
  "auth_crypto \<Rightarrow> 'w transport \<Rightarrow> login_settings \<Rightarrow> int \<Rightarrow> login_state \<Rightarrow> nat \<Rightarrow> 'w connection \<Rightarrow> 'w connection \<times> (backend_error + session_state)" where
  "login_over cr tr se deadline st 0 c =
     (c, Inl (startup_failure (authenticated st) (Db_code ResourceLimit) ''Database startup message limit exceeded''))"
| "login_over cr tr se deadline st (Suc allowed) c =
     (let (c, r) = read_message_result tr True deadline (max_startup_wire_bytes se - startup_bytes st) c;
          rd = (\<lambda>_. r);
          wr = write_outcome tr deadline c;
          c' = (case login_response cr se st rd of [] \<Rightarrow> c | response # _ \<Rightarrow> fst (write_all_loop tr True deadline response c))
      in case login_turn cr wr se st rd of
          Done st' Login_ready \<Rightarrow> (c'\<lparr>parameters := server_params st'\<rparr>, Inr (login_session_state st'))
        | Done st' (Login_failed e) \<Rightarrow> (c', Inl e)
        | Done st' Login_waiting \<Rightarrow> (c', Inl (startup_failure (authenticated st') (Db_code ProtocolError) []))
        | Proceed st' \<Rightarrow>
            if 1 < length (backend_keys st')
            then (c', Inl (startup_exception (authenticated st') (Runtime_error ''Invalid PostgreSQL backend cancellation key'')))
            else login_over cr tr se deadline st' allowed
              (c'\<lparr>parameters := server_params st', protocol_parser := parser st',
                  cancellation_key := (case backend_keys st' of [] \<Rightarrow> None | key # _ \<Rightarrow> Some key)\<rparr>))"

subsection \<open>Connecting\<close>

definition begin_connect :: "connection_settings \<Rightarrow> 'w connection \<Rightarrow> 'w connection" where
  "begin_connect se c =
     (forget_credentials (forget_backend_key c))
       \<lparr>closed_after_failure := False, settings := cs_session se, session_password := cs_password se,
        session_token := map_option idp_token (cs_native_idp se), parameters := Map.empty, peer_verified := False\<rparr>"

definition establish ::
  "auth_crypto \<Rightarrow> 'w transport \<Rightarrow> 'w opener \<Rightarrow> connection_settings \<Rightarrow> bytes \<Rightarrow> int \<Rightarrow> 'w connection \<Rightarrow> 'w connection \<times> (backend_error + unit)" where
  "establish cr tr op se startup deadline c =
     (let failed = (\<lambda>(code, m). BackendError code m)
      in then_step (open_transport tr op se deadline c) (\<lambda>c.
         then_step (write_all_loop tr True deadline startup c) (\<lambda>c.
           case login_over cr tr (login_settings_of se (peer_verified c)) deadline login_start (cs_startup_messages se) c of
             (c, Inl e) \<Rightarrow> (c, Inl e)
           | (c, Inr st) \<Rightarrow>
               then_step (in_time tr deadline (c\<lparr>conn_state := st\<rparr>)) (\<lambda>c. (c\<lparr>connected := True\<rparr>, Inr ())) failed) failed) failed)"

definition connect_impl ::
  "auth_crypto \<Rightarrow> 'w driver \<Rightarrow> 'w opener \<Rightarrow> connection_settings \<Rightarrow> int \<Rightarrow> 'w connection \<Rightarrow> 'w connection \<times> (backend_error + unit)" where
  "connect_impl cr d op se deadline c =
     (case check_settings se of
        Some (code, m) \<Rightarrow> (c, Inl (BackendError code m))
      | None \<Rightarrow>
          (case startup_request (profile d) se of
             Inl (code, m) \<Rightarrow> (c, Inl (BackendError code m))
           | Inr startup \<Rightarrow>
               (case establish cr (transport_of d) op se startup deadline (begin_connect se c) of
                  (c, Inl e) \<Rightarrow> (disconnect (transport_of d) c, Inl e)
                | (c, Inr _) \<Rightarrow> (c, Inr ()))))"

definition connect_until ::
  "auth_crypto \<Rightarrow> 'w driver \<Rightarrow> 'w opener \<Rightarrow> connection_settings \<Rightarrow> int \<Rightarrow> 'w connection \<Rightarrow> 'w connection \<times> unit backend_result" where
  "connect_until cr d op se deadline c =
     (case connect_impl cr d op se deadline c of
        (c, Inl e) \<Rightarrow>
          (forget_credentials c,
           Failed (e\<lparr>err_operation := if err_operation e = Op_Unknown then Op_Connect else err_operation e,
                     err_state := conn_state c, err_disposition := disposition c\<rparr>))
      | (c, Inr _) \<Rightarrow> (forget_credentials c, Value () (conn_snapshot c)))"

subsection \<open>A session after connecting\<close>

lemma on_authentication_written:
  assumes "on_authentication cr wr se st payload = Proceed st'"
  shows "on_authentication cr (\<lambda>_. None) se st payload = Proceed st' \<and>
    (\<forall>response \<in> set (drop (length (sent st)) (sent st')). wr response = None)"
proof -
  obtain p r where parse: "parse_auth_request (parser st) payload = (p, r)" by fastforce
  obtain req where r: "\<not> authenticated st" "r = Inr req"
    using assms parse by (cases r) (auto simp: on_authentication_def throw_login_def fail_login_def split: if_splits)
  obtain p' r' where create: "create_auth_response cr p req (credential se) (login_user se) (identity_verified se) (max_auth_wire_bytes se) = (p', r')"
    by fastforce
  show ?thesis
  proof (cases "auth_type req = Auth_None")
    case True
    with assms parse r show ?thesis by (auto simp: on_authentication_def)
  next
    case False
    with assms parse r create obtain response where "r' = Inr response"
      by (cases r') (auto simp: on_authentication_def throw_login_def)
    with False assms parse r create show ?thesis
      by (cases "response = []"; cases "wr response") (auto simp: on_authentication_def split: prod.splits)
  qed
qed

lemma login_turn_written:
  assumes "login_turn cr wr se st rd = Proceed st'"
  shows "login_turn cr (\<lambda>_. None) se st rd = Proceed st' \<and>
    (\<forall>response \<in> set (drop (length (sent st)) (sent st')). wr response = None)"
proof -
  obtain data where data: "rd (max_startup_wire_bytes se - startup_bytes st) = Inr data"
    using assms by (cases "rd (max_startup_wire_bytes se - startup_bytes st)") (auto simp: login_turn_def)
  define st1 where "st1 = st\<lparr>startup_bytes := startup_bytes st + length data, startup_messages := startup_messages st + 1\<rparr>"
  obtain msg where msg: "parse_message data = Inr msg"
    using assms data by (cases "parse_message data") (auto simp: login_turn_def throw_login_def Let_def)
  have turn: "login_turn cr w se st rd = on_startup_message cr w se st1 msg" for w
    by (simp add: login_turn_def data msg st1_def Let_def)
  have sent1: "sent st1 = sent st" by (simp add: st1_def)
  show ?thesis
  proof (cases "tag msg = CHR ''R''")
    case True
    then have "on_startup_message cr w se st1 msg = on_authentication cr w se st1 (body msg)" for w
      by (simp add: on_startup_message_def)
    with assms on_authentication_written [of cr wr se st1 "body msg" st'] show ?thesis by (simp add: turn sent1)
  next
    case False
    then have same: "on_startup_message cr w se st1 msg = on_startup_message cr (\<lambda>_. None) se st1 msg" for w
      by (simp add: on_startup_message_def)
    have "sent st' = sent st1"
      using assms False unfolding turn on_startup_message_def
      by (auto simp: on_startup_error_def throw_login_def fail_login_def Let_def split: if_splits option.splits sum.splits bool.splits prod.splits)
    with assms same [of wr] show ?thesis by (simp add: turn sent1)
  qed
qed

lemma ready_turn_unwritten:
  assumes "login_turn cr wr se st rd = Done st' Login_ready"
  shows "login_turn cr (\<lambda>_. None) se st rd = Done st' Login_ready \<and> login_session_state st' \<noteq> Disconnected"
proof -
  obtain data where data: "rd (max_startup_wire_bytes se - startup_bytes st) = Inr data"
    using assms by (cases "rd (max_startup_wire_bytes se - startup_bytes st)") (auto simp: login_turn_def)
  define st1 where "st1 = st\<lparr>startup_bytes := startup_bytes st + length data, startup_messages := startup_messages st + 1\<rparr>"
  obtain msg where msg: "parse_message data = Inr msg"
    using assms data by (cases "parse_message data") (auto simp: login_turn_def throw_login_def Let_def)
  have turn: "login_turn cr w se st rd = on_startup_message cr w se st1 msg" for w
    by (simp add: login_turn_def data msg st1_def Let_def)
  have not_r: "tag msg \<noteq> CHR ''R''"
  proof
    assume "tag msg = CHR ''R''"
    with assms show False unfolding turn
      by (auto simp: on_startup_message_def on_authentication_def fail_login_def throw_login_def Let_def
          split: if_splits prod.splits sum.splits option.splits)
  qed
  then have "on_startup_message cr w se st1 msg = on_startup_message cr (\<lambda>_. None) se st1 msg" for w
    by (simp add: on_startup_message_def)
  moreover have "login_session_state st' \<noteq> Disconnected"
    using assms not_r ready_state_connected unfolding turn on_startup_message_def
    by (auto simp: on_startup_error_def throw_login_def fail_login_def Let_def split: if_splits option.splits sum.splits bool.splits prod.splits)
  ultimately show ?thesis using assms turn by metis
qed

text \<open>What a successful step leaves alone.\<close>

definition undisturbed :: "'w connection \<Rightarrow> 'w connection \<Rightarrow> bool" where
  "undisturbed c c' \<longleftrightarrow> closed_after_failure c' = closed_after_failure c \<and> peer_verified c' = peer_verified c"

lemma same_undisturbed:
  assumes "same_session c c'"
  shows "undisturbed c c'"
proof -
  have c': "c' = c\<lparr>world := world c'\<rparr>" using assms by (simp add: same_session_def)
  have "closed_after_failure c' = closed_after_failure c" "peer_verified c' = peer_verified c" by (subst c', simp)+
  then show ?thesis by (simp add: undisturbed_def)
qed

lemma undisturbed_trans: "undisturbed a b \<Longrightarrow> undisturbed b c \<Longrightarrow> undisturbed a c"
  by (simp add: undisturbed_def)

lemma login_over_ready:
  assumes "login_over cr tr se deadline st allowed c = (c', Inr reported)"
  shows "undisturbed c c' \<and> reported \<noteq> Disconnected"
  using assms
proof (induction allowed arbitrary: st c)
  case 0
  then show ?case by simp
next
  case (Suc allowed)
  obtain c1 r where read: "read_message_result tr True deadline (max_startup_wire_bytes se - startup_bytes st) c = (c1, r)" by fastforce
  define c2 where "c2 = (case login_response cr se st (\<lambda>_. r) of [] \<Rightarrow> c1 | response # _ \<Rightarrow> fst (write_all_loop tr True deadline response c1))"
  let ?wr = "write_outcome tr deadline c1"
  note run = Suc.prems [unfolded login_over.simps Let_def read prod.case c2_def [symmetric]]
  have first: "undisturbed c c1" if "r = Inr data" for data
    using read_message_kept [of c tr True deadline "max_startup_wire_bytes se - startup_bytes st"] read that
    by (simp add: kept_or_ended_def same_undisturbed)
  have r: "\<exists>data. r = Inr data" if "login_turn cr ?wr se st (\<lambda>_. r) = Proceed st' \<or> login_turn cr ?wr se st (\<lambda>_. r) = Done st' Login_ready" for st'
    using that by (cases r) (auto simp: login_turn_def)
  show ?case
  proof (cases "login_turn cr ?wr se st (\<lambda>_. r)")
    case (Done st' outcome)
    with run have outcome: "outcome = Login_ready" by (cases outcome) auto
    with Done ready_turn_unwritten [of cr ?wr se st "\<lambda>_. r" st'] have none: "login_turn cr (\<lambda>_. None) se st (\<lambda>_. r) = Done st' Login_ready"
      and state: "login_session_state st' \<noteq> Disconnected" by simp_all
    from none have "c2 = c1" by (simp add: c2_def login_response_def)
    with run Done outcome state first r show ?thesis by (auto simp: undisturbed_def)
  next
    case (Proceed st')
    with r obtain data where data: "r = Inr data" by blast
    from login_turn_written [OF Proceed] have none: "login_turn cr (\<lambda>_. None) se st (\<lambda>_. r) = Proceed st'"
      and written: "\<forall>response \<in> set (login_response cr se st (\<lambda>_. r)). ?wr response = None"
      by (simp_all add: login_response_def)
    have second: "undisturbed c1 c2"
    proof (cases "login_response cr se st (\<lambda>_. r)")
      case Nil
      then show ?thesis by (simp add: c2_def undisturbed_def)
    next
      case (Cons response xs)
      with written have "?wr response = None" by simp
      then obtain u where "snd (write_all_loop tr True deadline response c1) = Inr u"
        by (cases "snd (write_all_loop tr True deadline response c1)") (simp_all add: write_outcome_def)
      with write_all_kept [of c1 tr True deadline response] Cons show ?thesis
        by (simp add: c2_def kept_or_ended_def same_undisturbed)
    qed
    let ?c = "c2\<lparr>parameters := server_params st', protocol_parser := parser st',
      cancellation_key := (case backend_keys st' of [] \<Rightarrow> None | key # _ \<Rightarrow> Some key)\<rparr>"
    have keys: "\<not> 1 < length (backend_keys st')" using run Proceed by (auto split: if_splits)
    with run Proceed have "login_over cr tr se deadline st' allowed ?c = (c', Inr reported)" by simp
    from Suc.IH [OF this] have "undisturbed ?c c' \<and> reported \<noteq> Disconnected" .
    with first [OF data] second show ?thesis by (simp add: undisturbed_def)
  qed
qed

text \<open>What holds of the session after a step that succeeds.\<close>

definition after :: "('w connection \<Rightarrow> bool) \<Rightarrow> 'w connection \<times> ('e + 'a) \<Rightarrow> bool" where
  "after Q r \<longleftrightarrow> (\<forall>c v. r = (c, Inr v) \<longrightarrow> Q c)"

lemma after_then:
  assumes "after I r" "\<And>c. I c \<Longrightarrow> after Q (f c)"
  shows "after Q (then_step r f g)"
  using assms by (auto simp: after_def then_step_def split: prod.splits sum.splits)

definition untouched :: "bool \<Rightarrow> bool \<Rightarrow> 'w connection \<Rightarrow> bool" where
  "untouched closed verified c \<longleftrightarrow> closed_after_failure c = closed \<and> (verified \<longrightarrow> peer_verified c)"

lemma untouched_same: "untouched k v c \<Longrightarrow> same_session c c' \<Longrightarrow> untouched k v c'"
  by (auto simp: untouched_def undisturbed_def dest: same_undisturbed)

lemma after_in_time: "untouched k v c \<Longrightarrow> after (untouched k v) (in_time tr deadline c)"
  by (auto simp: after_def in_time_def expired_def untouched_def Let_def split: prod.splits)

lemma after_write: "untouched k v c \<Longrightarrow> after (untouched k v) (write_all_loop tr enforce deadline data c)"
  using write_all_kept [of c tr enforce deadline data] by (auto simp: after_def kept_or_ended_def intro: untouched_same)

lemma after_open_with: "untouched k v c \<Longrightarrow> after (untouched k v) (open_with f code deadline c)"
  by (auto simp: after_def open_with_def untouched_def Let_def split: prod.splits)

lemma after_ssl_response: "untouched k v c \<Longrightarrow> after (untouched k v) (ssl_response tr deadline c)"
  by (auto simp: after_def ssl_response_def untouched_def Let_def split: prod.splits)

lemma after_fails: "after Q (c, Inl e)"
  by (simp add: after_def)

lemma after_if: "(P \<Longrightarrow> after Q a) \<Longrightarrow> (\<not> P \<Longrightarrow> after Q b) \<Longrightarrow> after Q (if P then a else b)"
  by simp

lemma open_tls_untouched:
  assumes "untouched k False c"
  shows "after (untouched k (cs_native_idp se \<noteq> None)) (open_tls tr op se deadline c)"
proof -
  have upgraded: "after (untouched k (cs_native_idp se \<noteq> None))
      (let c = c\<lparr>peer_verified := o_verified op (world c)\<rparr>
       in (c, if cs_native_idp se \<noteq> None \<and> \<not> peer_verified c then Inl e else Inr ()))" if "untouched k False c" for c :: "'a connection" and e :: io_failure
    using that by (auto simp: after_def untouched_def Let_def)
  have "untouched k False (if o_configurable op then c\<lparr>world := w\<rparr> else c)" for w
    using assms by (simp add: untouched_def)
  then show ?thesis
    unfolding open_tls_def Let_def [of "if o_configurable op then _ else _"]
    by (intro after_if after_fails after_then [OF after_in_time] after_then [OF after_open_with] after_then [OF after_write]
        after_then [OF after_ssl_response] upgraded)
qed

lemma open_transport_untouched:
  assumes "untouched k False c"
  shows "after (untouched k (cs_use_ssl se \<and> cs_native_idp se \<noteq> None)) (open_transport tr op se deadline c)"
proof (cases "cs_use_ssl se")
  case True
  with open_tls_untouched [OF assms] show ?thesis by (simp add: open_transport_def)
next
  case False
  then show ?thesis unfolding open_transport_def
    by (simp add: after_then [OF after_in_time [OF assms] after_open_with])
qed

lemma establish_ready:
  assumes "untouched False False c" "cs_native_idp se \<noteq> None \<longrightarrow> cs_use_ssl se"
  shows "after (\<lambda>c. untouched False (cs_native_idp se \<noteq> None) c \<and> connected c \<and> conn_state c \<noteq> Disconnected)
    (establish cr tr op se startup deadline c)"
proof -
  have opened: "after (untouched False (cs_native_idp se \<noteq> None)) (open_transport tr op se deadline c)"
    using open_transport_untouched [OF assms(1), of se tr op deadline] assms(2) by (auto simp: after_def untouched_def)
  have login: "after (\<lambda>c. untouched False v c \<and> connected c \<and> conn_state c \<noteq> Disconnected)
      (case login_over cr tr ls deadline login_start n c of
         (c, Inl e) \<Rightarrow> (c, Inl e)
       | (c, Inr st) \<Rightarrow> then_step (in_time tr deadline (c\<lparr>conn_state := st\<rparr>)) (\<lambda>c. (c\<lparr>connected := True\<rparr>, Inr ())) failed)"
    if "untouched False v c" for v ls n failed and c :: "'a connection"
  proof -
    obtain c1 r where run: "login_over cr tr ls deadline login_start n c = (c1, r)" by fastforce
    show ?thesis
    proof (cases r)
      case (Inl e)
      then show ?thesis by (simp add: run after_fails)
    next
      case (Inr st)
      with run login_over_ready have "undisturbed c c1" "st \<noteq> Disconnected" by blast+
      with that have ok: "untouched False v (c1\<lparr>conn_state := st\<rparr>)" by (simp add: untouched_def undisturbed_def)
      have "after (\<lambda>c. untouched False v c \<and> conn_state c = st) (in_time tr deadline (c1\<lparr>conn_state := st\<rparr>))"
        using ok by (auto simp: after_def in_time_def expired_def untouched_def Let_def split: prod.splits)
      then have "after (\<lambda>c. untouched False v c \<and> connected c \<and> conn_state c \<noteq> Disconnected)
          (then_step (in_time tr deadline (c1\<lparr>conn_state := st\<rparr>)) (\<lambda>c. (c\<lparr>connected := True\<rparr>, Inr ())) failed)"
        by (rule after_then) (use \<open>st \<noteq> Disconnected\<close> in \<open>simp add: after_def untouched_def\<close>)
      with run Inr show ?thesis by simp
    qed
  qed
  show ?thesis
    unfolding establish_def Let_def
    by (rule after_then [OF opened], rule after_then [OF after_write], assumption, rule login)
qed

lemma check_settings_native: "check_settings se = None \<Longrightarrow> cs_native_idp se \<noteq> None \<Longrightarrow> cs_use_ssl se"
  by (auto simp: check_settings_def Let_def split: if_splits)

lemma forget_credentials_fields [simp]:
  "session_wf (forget_credentials c) = session_wf c" "conn_snapshot (forget_credentials c) = conn_snapshot c"
  "connected (forget_credentials c) = connected c" "peer_verified (forget_credentials c) = peer_verified c"
  "retired (forget_credentials c) = retired c" "conn_state (forget_credentials c) = conn_state c"
  "disposition (forget_credentials c) = disposition c"
  by (simp_all add: forget_credentials_def session_wf_def conn_snapshot_def disposition_def retired_def)

lemma forget_credentials_empty [simp]:
  "session_password (forget_credentials c) = []" "session_token (forget_credentials c) = None"
  "scram_client (protocol_parser (forget_credentials c)) = None"
  by (simp_all add: forget_credentials_def clear_authentication_state_def)

lemma connect_impl_outcome:
  assumes "session_wf c" "connect_impl cr d op se deadline c = (c', r)"
  shows "session_wf c' \<and>
    (case r of
       Inr _ \<Rightarrow> connected c' \<and> (cs_native_idp se \<noteq> None \<longrightarrow> cs_use_ssl se \<and> peer_verified c')
     | Inl _ \<Rightarrow> c' = c \<or> retired c')"
proof (cases "check_settings se = None \<and> (\<exists>startup. startup_request (profile d) se = Inr startup)")
  case False
  with assms have "c' = c" "\<exists>e. r = Inl e"
    by (auto simp: connect_impl_def split: option.splits sum.splits)
  with assms(1) show ?thesis by auto
next
  case True
  then obtain startup where ok: "check_settings se = None" "startup_request (profile d) se = Inr startup" by blast
  obtain c1 x where run: "establish cr (transport_of d) op se startup deadline (begin_connect se c) = (c1, x)" by fastforce
  have "untouched False False (begin_connect se c)" by (simp add: untouched_def begin_connect_def)
  from establish_ready [OF this, of se cr "transport_of d" op startup deadline] check_settings_native [OF ok(1)]
  have ready: "after (\<lambda>c. untouched False (cs_native_idp se \<noteq> None) c \<and> connected c \<and> conn_state c \<noteq> Disconnected) (c1, x)"
    by (simp add: run)
  show ?thesis
  proof (cases x)
    case (Inl e)
    with assms(2) run ok show ?thesis by (auto simp: connect_impl_def)
  next
    case (Inr u)
    with assms(2) run ok have "c' = c1" "r = Inr ()" by (simp_all add: connect_impl_def)
    with ready Inr check_settings_native [OF ok(1)] show ?thesis by (auto simp: after_def untouched_def session_wf_def)
  qed
qed

text \<open>
  C6: a connection attempt leaves no credential behind. Whatever the settings, the transport and the server do, the session is
  well-formed afterwards, the result reports its state, and password, token and SCRAM state are gone. Success means a
  connected session, over TLS with a verified peer where a token was used; failure means that settings were refused and
  the session is as it was, or that it is retired with its transport closed.
\<close>

theorem connect_forgets_credentials:
  assumes "session_wf c" "connect_until cr d op se deadline c = (c', r)"
  shows "session_wf c' \<and> result_snapshot r = conn_snapshot c' \<and>
    session_password c' = [] \<and> session_token c' = None \<and> scram_client (protocol_parser c') = None \<and>
    (case r of
       Value _ _ \<Rightarrow> connected c' \<and> (cs_native_idp se \<noteq> None \<longrightarrow> cs_use_ssl se \<and> peer_verified c')
     | Failed _ \<Rightarrow> c' = forget_credentials c \<or> retired c')"
proof -
  obtain c1 x where run: "connect_impl cr d op se deadline c = (c1, x)" by fastforce
  note outcome = connect_impl_outcome [OF assms(1) run]
  show ?thesis
  proof (cases x)
    case (Inl e)
    with assms(2) run outcome show ?thesis by (auto simp: connect_until_def result_snapshot_def conn_snapshot_def)
  next
    case (Inr u)
    with assms(2) run outcome show ?thesis by (auto simp: connect_until_def result_snapshot_def)
  qed
qed

text \<open>An example: an opener without TLS, and settings for a login by password.\<close>

definition example_opener :: "bytes opener" where
  "example_opener =
     \<lparr>o_start_tls = False, o_configurable = False, o_set_ca = \<lambda>f d w. w, o_connect = \<lambda>h p t w. (w, None),
      o_connect_plain = \<lambda>h p t w. (w, None), o_upgrade = \<lambda>h t w. (w, None), o_verified = \<lambda>w. False\<rparr>"

definition example_settings :: connection_settings where
  "example_settings =
     \<lparr>cs_host = ''db'', cs_user = ''u'', cs_password = ''secret'', cs_database = ''d'', cs_port = 5432, cs_use_ssl = False,
      cs_ca_file = [], cs_ca_dir = [], cs_session = settings (example_session []), cs_startup_wire_bytes = 1000,
      cs_startup_messages = 10, cs_max_field_bytes = 100, cs_max_startup_bytes = 1000, cs_max_auth_bytes = 1000,
      cs_application_name = None, cs_native_idp = None\<rparr>"

theorem connect_forgets_credentials_witness:
  "\<forall>cr. \<exists>c' r. connect_until cr example_driver example_opener example_settings 1 (example_session (frame (CHR ''R'') (be32 0))) = (c', r) \<and>
     session_wf c' \<and> result_snapshot r = conn_snapshot c' \<and> session_password c' = [] \<and> session_token c' = None"
proof
  fix cr
  obtain c' r where run: "connect_until cr example_driver example_opener example_settings 1 (example_session (frame (CHR ''R'') (be32 0))) = (c', r)"
    by fastforce
  from connect_forgets_credentials [OF live_wf [OF example_session_live] run] run
  show "\<exists>c' r. connect_until cr example_driver example_opener example_settings 1 (example_session (frame (CHR ''R'') (be32 0))) = (c', r) \<and>
     session_wf c' \<and> result_snapshot r = conn_snapshot c' \<and> session_password c' = [] \<and> session_token c' = None" by blast
qed

end
