(* ===== verification/ConnString.thy ===== *)
theory ConnString
  imports Prelude "HOL-Library.AList"
begin

section \<open>Connection strings and data sources\<close>

text \<open>
  \<^verbatim>\<open>odbc/connection_string.cpp\<close> as built for POSIX systems, and \<^verbatim>\<open>odbc/resource_limits.h\<close>. A
  \<^verbatim>\<open>std::map\<close> from strings to strings is an association list with distinct keys; the order of its entries is
  not observable. The environment and the lines of the configuration files are the parameter \<open>system\<close>.
\<close>

type_synonym smap = "(string \<times> string) list"

record system =
  environment_value :: "string \<Rightarrow> string"
  file_lines :: "string \<Rightarrow> string list option"

subsection \<open>Parsing a connection string\<close>

definition trim_chars :: "char set" where
  "trim_chars = {CHR '' '', CHR 0x09, CHR 0x0D, CHR 0x0A}"

definition trim :: "string \<Rightarrow> string" where
  "trim s = rev (dropWhile (\<lambda>c. c \<in> trim_chars) (rev (dropWhile (\<lambda>c. c \<in> trim_chars) s)))"

definition to_upper :: "string \<Rightarrow> string" where
  "to_upper s = map to_upper_char s"

text \<open>The value up to its closing brace and the text after it; \<open>None\<close> if it is not closed.\<close>

fun braced_value :: "string \<Rightarrow> (string \<times> string) option" where
  "braced_value [] = None"
| "braced_value (c # cs) =
     (if c \<noteq> CHR ''}'' then map_option (\<lambda>(v, r). (c # v, r)) (braced_value cs)
      else case cs of
          d # ds \<Rightarrow> if d = CHR ''}'' then map_option (\<lambda>(v, r). (CHR ''}'' # v, r)) (braced_value ds) else Some ([], cs)
        | [] \<Rightarrow> Some ([], []))"

definition read_value :: "string \<Rightarrow> (string \<times> string) result" where
  "read_value s =
     (if s \<noteq> [] \<and> hd s = CHR ''{'' then
        (case braced_value (tl s) of
           None \<Rightarrow> Inl (Invalid_argument ''Unterminated braced connection string value'')
         | Some (v, r) \<Rightarrow>
             let r = dropWhile is_space r
             in if r \<noteq> [] \<and> hd r \<noteq> CHR '';''
                then Inl (Invalid_argument ''Unexpected text after braced connection string value'')
                else Inr (v, r))
      else Inr (trim (takeWhile (\<lambda>c. c \<noteq> CHR '';'') s), dropWhile (\<lambda>c. c \<noteq> CHR '';'') s))"

definition try_emplace :: "string \<Rightarrow> string \<Rightarrow> smap \<Rightarrow> smap" where
  "try_emplace k v m = (if map_of m k = None then AList.update k v m else m)"

lemma braced_value_length: "braced_value s = Some (v, r) \<Longrightarrow> length r \<le> length s"
  by (induction s arbitrary: v r rule: braced_value.induct) (fastforce split: if_splits list.splits)+

lemma read_value_length: "read_value s = Inr (v, r) \<Longrightarrow> length r \<le> length s"
proof (cases "s \<noteq> [] \<and> hd s = CHR ''{''")
  case True
  assume "read_value s = Inr (v, r)"
  with True obtain r' where "braced_value (tl s) = Some (v, r')" "r = dropWhile is_space r'"
    by (auto simp: read_value_def Let_def split: option.splits if_splits)
  with braced_value_length [of "tl s" v r'] length_dropWhile_le [of is_space r'] show ?thesis by simp
next
  case False
  assume "read_value s = Inr (v, r)"
  with False show ?thesis by (auto simp: read_value_def length_dropWhile_le)
qed

text \<open>
  The loop over the entries, on the text that is left. The next special character decides: a separator
  skips the entry, an equals sign ends a key.
\<close>

function parse_entries :: "string \<Rightarrow> smap \<Rightarrow> smap result" where
  "parse_entries rest params =
     (let key = takeWhile (\<lambda>c. c \<noteq> CHR '';'' \<and> c \<noteq> CHR ''='') rest
      in case dropWhile (\<lambda>c. c \<noteq> CHR '';'' \<and> c \<noteq> CHR ''='') rest of
          [] \<Rightarrow> Inr params
        | c # r \<Rightarrow>
            if c = CHR '';'' then parse_entries r params
            else (case read_value (dropWhile is_space r) of
                Inl e \<Rightarrow> Inl e
              | Inr (v, r') \<Rightarrow>
                  parse_entries (drop 1 r') (if trim key \<noteq> [] then try_emplace (to_upper (trim key)) v params else params)))"
  by pat_completeness auto
termination
proof (relation "measure (\<lambda>(rest, _). length rest)")
  show "((r, params), rest, params) \<in> measure (\<lambda>(rest, _). length rest)"
    if "dropWhile (\<lambda>c. c \<noteq> CHR '';'' \<and> c \<noteq> CHR ''='') rest = c # r" for rest c r and params :: smap
    using length_dropWhile_le [of "\<lambda>c. c \<noteq> CHR '';'' \<and> c \<noteq> CHR ''=''" rest] that by simp
  show "((drop 1 r', ps), rest, params) \<in> measure (\<lambda>(rest, _). length rest)"
    if "dropWhile (\<lambda>c. c \<noteq> CHR '';'' \<and> c \<noteq> CHR ''='') rest = c # r" "read_value (dropWhile is_space r) = Inr p" "(v, r') = p"
    for rest c r r' v p and params ps :: smap
    using length_dropWhile_le [of "\<lambda>c. c \<noteq> CHR '';'' \<and> c \<noteq> CHR ''=''" rest] length_dropWhile_le [of is_space r]
      read_value_length [of "dropWhile is_space r" v r'] that by simp
qed simp

declare parse_entries.simps [simp del]

definition parse :: "string \<Rightarrow> smap result" where
  "parse conn_str =
     (if NUL_byte \<in> set conn_str then Inl (Invalid_argument ''Connection string contains an embedded NUL byte'')
      else parse_entries conn_str [])"

subsection \<open>Configuration files\<close>

fun ini_lines :: "string \<Rightarrow> bool \<Rightarrow> smap \<Rightarrow> string list \<Rightarrow> smap" where
  "ini_lines target in_section params [] = params"
| "ini_lines target in_section params (raw # rest) =
     (let line = trim raw
      in if line = [] \<or> hd line = CHR ''#'' \<or> hd line = CHR '';'' then ini_lines target in_section params rest
         else if hd line = CHR ''['' then ini_lines target (to_upper line = to_upper target) params rest
         else if in_section \<and> CHR ''='' \<in> set line then
           ini_lines target in_section
             (AList.update (to_upper (trim (takeWhile (\<lambda>c. c \<noteq> CHR ''='') line)))
                (trim (tl (dropWhile (\<lambda>c. c \<noteq> CHR ''='') line))) params) rest
         else ini_lines target in_section params rest)"

definition parse_ini_section :: "string list \<Rightarrow> string \<Rightarrow> smap" where
  "parse_ini_section ls section_name = ini_lines (''['' @ section_name @ '']'') False [] ls"

definition read_dsn_file :: "system \<Rightarrow> string \<Rightarrow> string \<Rightarrow> smap" where
  "read_dsn_file sy file_path dsn_name =
     (case file_lines sy file_path of None \<Rightarrow> [] | Some ls \<Rightarrow> parse_ini_section ls dsn_name)"

definition get_dsn_file_paths :: "system \<Rightarrow> string list" where
  "get_dsn_file_paths sy =
     (let odbcini = environment_value sy ''ODBCINI'';
          odbcsysini = environment_value sy ''ODBCSYSINI'';
          home = environment_value sy ''HOME''
      in (if odbcini \<noteq> [] then [odbcini] else []) @ (if odbcsysini \<noteq> [] then [odbcsysini @ ''/odbc.ini''] else []) @
         [''/etc/odbc.ini'', ''/usr/local/etc/odbc.ini''] @ (if home \<noteq> [] then [home @ ''/.odbc.ini''] else []))"

text \<open>\<^verbatim>\<open>std::filesystem::path\<close> joins with a slash unless the first path already ends in one.\<close>

definition path_join :: "string \<Rightarrow> string \<Rightarrow> string" where
  "path_join a b = (if a \<noteq> [] \<and> last a \<noteq> CHR ''/'' then a @ ''/'' @ b else a @ b)"

definition get_driver_file_paths :: "system \<Rightarrow> string list" where
  "get_driver_file_paths sy =
     (let odbcsysini = environment_value sy ''ODBCSYSINI'';
          odbcinstini = environment_value sy ''ODBCINSTINI''
      in (if odbcinstini = [] then []
          else if hd odbcinstini = CHR ''/'' \<or> odbcsysini = [] then [odbcinstini]
          else [path_join odbcsysini odbcinstini]) @
         (if odbcsysini \<noteq> [] then [odbcsysini @ ''/odbcinst.ini''] else []) @
         [''/etc/odbcinst.ini'', ''/usr/local/etc/odbcinst.ini''])"

text \<open>The parameters of the first file that has any.\<close>

fun first_nonempty :: "(string \<Rightarrow> smap) \<Rightarrow> string list \<Rightarrow> smap" where
  "first_nonempty f [] = []"
| "first_nonempty f (path # paths) = (if f path \<noteq> [] then f path else first_nonempty f paths)"

definition load_dsn :: "system \<Rightarrow> string \<Rightarrow> smap" where
  "load_dsn sy dsn_name = first_nonempty (\<lambda>path. read_dsn_file sy path dsn_name) (get_dsn_file_paths sy)"

definition read_driver_config :: "system \<Rightarrow> string \<Rightarrow> smap" where
  "read_driver_config sy driver_name =
     first_nonempty (\<lambda>path. case file_lines sy path of None \<Rightarrow> [] | Some ls \<Rightarrow> parse_ini_section ls driver_name)
       (get_driver_file_paths sy)"

definition dsn_exists :: "system \<Rightarrow> string \<Rightarrow> bool" where
  "dsn_exists sy dsn_name \<longleftrightarrow> load_dsn sy dsn_name \<noteq> []"

definition driver_exists :: "system \<Rightarrow> string \<Rightarrow> bool" where
  "driver_exists sy driver_name \<longleftrightarrow> read_driver_config sy driver_name \<noteq> []"

subsection \<open>Precedence of the layers\<close>

definition aliases :: "(string \<times> string) list" where
  "aliases = [(''SERVER'', ''HOST''), (''DATABASE'', ''DB''), (''UID'', ''USER''), (''PWD'', ''PASSWORD''),
              (''LOGINTIMEOUT'', ''LT''), (''QUERYTIMEOUT'', ''QT'')]"

definition overlay_alias :: "smap \<Rightarrow> smap \<Rightarrow> string \<times> string \<Rightarrow> smap" where
  "overlay_alias source target = (\<lambda>(primary, alias).
     case map_of source primary of
       Some v \<Rightarrow> AList.update primary v target
     | None \<Rightarrow> (case map_of source alias of Some v \<Rightarrow> AList.update primary v target | None \<Rightarrow> target))"

definition overlay :: "smap \<Rightarrow> smap \<Rightarrow> smap" where
  "overlay target source =
     foldl (overlay_alias source) (foldl (\<lambda>t (k, v). AList.update k v t) target source) aliases"

record resolved_parameters =
  driver_parameters :: smap
  dsn_parameters :: smap
  connection_parameters :: smap
  effective_parameters :: smap
  dsn_name :: string
  driver_name :: string

definition resolve_driver :: "system \<Rightarrow> string \<Rightarrow> smap \<Rightarrow> string \<times> smap" where
  "resolve_driver sy default_driver_name effective =
     (let driver = (case map_of effective ''DRIVER'' of None \<Rightarrow> default_driver_name | Some d \<Rightarrow> d);
          config = (if driver \<noteq> [] then read_driver_config sy driver else []);
          config = (if config = [] \<and> driver \<noteq> ''ODBCPP'' then read_driver_config sy ''ODBCPP'' else config)
      in (driver, config))"

definition resolve :: "system \<Rightarrow> string \<Rightarrow> string \<Rightarrow> resolved_parameters result" where
  "resolve sy dsn_or_connection_string default_driver_name =
     bind_result
       (if CHR ''='' \<in> set dsn_or_connection_string
        then bind_result (parse dsn_or_connection_string) (\<lambda>connection.
          case map_of connection ''DSN'' of
            Some dsn \<Rightarrow> Inr (connection, dsn, load_dsn sy dsn)
          | None \<Rightarrow> Inr (connection, [], []))
        else Inr ([], dsn_or_connection_string, load_dsn sy dsn_or_connection_string))
       (\<lambda>(connection, name, dsn).
          let (driver, config) = resolve_driver sy default_driver_name (overlay (overlay [] dsn) connection)
          in Inr \<lparr>driver_parameters = config, dsn_parameters = dsn, connection_parameters = connection,
                  effective_parameters = overlay (overlay (overlay [] config) dsn) connection,
                  dsn_name = name, driver_name = driver\<rparr>)"

subsection \<open>Resource limits\<close>

datatype limit_field =
    Response_wire_bytes | Response_messages | Startup_wire_bytes | Startup_messages | Max_rows | Max_cells | Max_columns
  | Max_results | Metadata_entries | Column_name_bytes | Metadata_name_bytes | Diagnostic_bytes | Sql_bytes
  | Max_parameters | Parameter_bytes | Parameter_total_bytes | Connection_field_bytes | Request_wire_bytes
  | Startup_request_wire_bytes | Auth_wire_bytes

definition limits :: "(string \<times> limit_field) list" where
  "limits =
     [(''MAXRESPONSEBYTES'', Response_wire_bytes), (''MAXRESPONSEMESSAGES'', Response_messages),
      (''MAXSTARTUPRESPONSEBYTES'', Startup_wire_bytes), (''MAXSTARTUPRESPONSEMESSAGES'', Startup_messages),
      (''MAXROWS'', Max_rows), (''MAXCELLS'', Max_cells), (''MAXCOLUMNS'', Max_columns), (''MAXRESULTS'', Max_results),
      (''MAXMETADATAENTRIES'', Metadata_entries), (''MAXCOLUMNNAMEBYTES'', Column_name_bytes),
      (''MAXMETADATANAMEBYTES'', Metadata_name_bytes), (''MAXDIAGNOSTICBYTES'', Diagnostic_bytes),
      (''MAXSQLBYTES'', Sql_bytes), (''MAXPARAMETERS'', Max_parameters), (''MAXPARAMETERBYTES'', Parameter_bytes),
      (''MAXPARAMETERTOTALBYTES'', Parameter_total_bytes), (''MAXCONNECTIONFIELDBYTES'', Connection_field_bytes),
      (''MAXREQUESTWIREBYTES'', Request_wire_bytes), (''MAXSTARTUPWIREBYTES'', Startup_request_wire_bytes),
      (''MAXAUTHWIREBYTES'', Auth_wire_bytes)]"

definition parse_limit :: "string \<Rightarrow> string \<Rightarrow> nat result" where
  "parse_limit name t =
     (case from_chars 0 (2 ^ 64 - 1) t of
        (e, Fc_parsed n) \<Rightarrow>
          if t = [] \<or> e \<noteq> length t then Inl (Invalid_argument (name @ '' must be an unsigned decimal integer'')) else Inr (nat n)
      | _ \<Rightarrow> Inl (Invalid_argument (name @ '' must be an unsigned decimal integer'')))"

definition apply_limit :: "smap \<Rightarrow> (limit_field \<Rightarrow> nat) \<Rightarrow> string \<times> limit_field \<Rightarrow> (limit_field \<Rightarrow> nat) result" where
  "apply_limit parameters options = (\<lambda>(name, field).
     case map_of parameters name of
       None \<Rightarrow> Inr options
     | Some t \<Rightarrow> bind_result (parse_limit name t) (\<lambda>n. Inr (options(field := n))))"

definition parse_resource_limits :: "smap \<Rightarrow> (limit_field \<Rightarrow> nat) \<Rightarrow> (limit_field \<Rightarrow> nat) result" where
  "parse_resource_limits parameters options = fold_result (apply_limit parameters) options limits"

subsection \<open>Layers first_some each other by key and alias\<close>

definition layer_value :: "smap \<Rightarrow> string \<Rightarrow> string option" where
  "layer_value m k = (case map_of m k of
       Some v \<Rightarrow> Some v
     | None \<Rightarrow> (case map_of aliases k of Some alias \<Rightarrow> map_of m alias | None \<Rightarrow> None))"

definition first_some :: "'a option \<Rightarrow> 'a option \<Rightarrow> 'a option" where
  "first_some x y = (case x of Some v \<Rightarrow> Some v | None \<Rightarrow> y)"

lemma first_some_simps [simp]: "first_some (Some v) y = Some v" "first_some None y = y" "first_some x None = x"
  by (simp_all add: first_some_def split: option.split)

lemma overlay_alias_lookup:
  "map_of (overlay_alias source t (primary, alias)) k =
     (if k = primary then first_some (first_some (map_of source primary) (map_of source alias)) (map_of t k) else map_of t k)"
  by (auto simp: overlay_alias_def update_conv split: option.split)

lemma overlay_aliases_lookup:
  "distinct (map fst as) \<Longrightarrow>
    map_of (foldl (overlay_alias source) t as) k =
      (case map_of as k of
         Some alias \<Rightarrow> first_some (first_some (map_of source k) (map_of source alias)) (map_of t k)
       | None \<Rightarrow> map_of t k)"
proof (induction as arbitrary: t)
  case (Cons a as)
  obtain primary al where a: "a = (primary, al)" by (cases a)
  show ?case
  proof (cases "k = primary")
    case True
    with Cons.prems a have "map_of as k = None" by (auto simp: map_of_eq_None_iff)
    with Cons a True show ?thesis by (simp add: overlay_alias_lookup)
  next
    case False
    with Cons a show ?thesis by (simp add: overlay_alias_lookup split: option.split)
  qed
qed simp

lemma updates_lookup:
  "distinct (map fst source) \<Longrightarrow>
    map_of (foldl (\<lambda>t (k, v). AList.update k v t) t source) k = first_some (map_of source k) (map_of t k)"
proof (induction source arbitrary: t)
  case (Cons a source)
  obtain k' v where a: "a = (k', v)" by (cases a)
  show ?case
  proof (cases "k = k'")
    case True
    with Cons.prems a have "map_of source k = None" by (auto simp: map_of_eq_None_iff)
    with Cons a True show ?thesis by (simp add: update_conv)
  next
    case False
    with Cons a show ?thesis by (simp add: update_conv)
  qed
qed simp

lemma overlay_lookup:
  assumes "distinct (map fst source)"
  shows "map_of (overlay t source) k = first_some (layer_value source k) (map_of t k)"
proof -
  have "distinct (map fst aliases)" by (simp add: aliases_def)
  then show ?thesis
    by (simp add: overlay_def overlay_aliases_lookup updates_lookup [OF assms] layer_value_def first_some_def split: option.split)
qed

lemma parse_entries_cases:
  "dropWhile (\<lambda>c. c \<noteq> CHR '';'' \<and> c \<noteq> CHR ''='') rest = [] \<Longrightarrow> parse_entries rest params = Inr params"
  "dropWhile (\<lambda>c. c \<noteq> CHR '';'' \<and> c \<noteq> CHR ''='') rest = CHR '';'' # r \<Longrightarrow> parse_entries rest params = parse_entries r params"
  "dropWhile (\<lambda>c. c \<noteq> CHR '';'' \<and> c \<noteq> CHR ''='') rest = c # r \<Longrightarrow> c \<noteq> CHR '';'' \<Longrightarrow>
     parse_entries rest params =
       bind_result (read_value (dropWhile is_space r)) (\<lambda>(v, r').
         parse_entries (drop 1 r')
           (let key = trim (takeWhile (\<lambda>c. c \<noteq> CHR '';'' \<and> c \<noteq> CHR ''='') rest)
            in if key \<noteq> [] then try_emplace (to_upper key) v params else params))"
proof -
  show "dropWhile (\<lambda>c. c \<noteq> CHR '';'' \<and> c \<noteq> CHR ''='') rest = [] \<Longrightarrow> parse_entries rest params = Inr params"
    "dropWhile (\<lambda>c. c \<noteq> CHR '';'' \<and> c \<noteq> CHR ''='') rest = CHR '';'' # r \<Longrightarrow> parse_entries rest params = parse_entries r params"
    by (subst parse_entries.simps, simp only: Let_def list.case if_True simp_thms)+
next
  assume "dropWhile (\<lambda>c. c \<noteq> CHR '';'' \<and> c \<noteq> CHR ''='') rest = c # r" "c \<noteq> CHR '';''"
  then show "parse_entries rest params =
       bind_result (read_value (dropWhile is_space r)) (\<lambda>(v, r').
         parse_entries (drop 1 r')
           (let key = trim (takeWhile (\<lambda>c. c \<noteq> CHR '';'' \<and> c \<noteq> CHR ''='') rest)
            in if key \<noteq> [] then try_emplace (to_upper key) v params else params))"
    by (subst parse_entries.simps, simp only: Let_def list.case if_False simp_thms bind_result_def)
qed

lemma distinct_parse_entries:
  "parse_entries rest params = Inr m \<Longrightarrow> distinct (map fst params) \<Longrightarrow> distinct (map fst m)"
proof (induction rest params rule: parse_entries.induct)
  case (1 rest params)
  show ?case
  proof (cases "dropWhile (\<lambda>c. c \<noteq> CHR '';'' \<and> c \<noteq> CHR ''='') rest")
    case Nil
    then show ?thesis using "1.prems" by (simp add: parse_entries_cases(1))
  next
    case (Cons c r)
    show ?thesis
    proof (cases "c = CHR '';''")
      case True
      then have "parse_entries r params = Inr m" using "1.prems"(1) Cons by (simp add: parse_entries_cases(2))
      then show ?thesis using "1.IH"(1) [OF refl Cons True] "1.prems"(2) by simp
    next
      case False
      let ?key = "takeWhile (\<lambda>c. c \<noteq> CHR '';'' \<and> c \<noteq> CHR ''='') rest"
      obtain v r' where v: "read_value (dropWhile is_space r) = Inr (v, r')" and
        rec: "parse_entries (drop 1 r') (if trim ?key \<noteq> [] then try_emplace (to_upper (trim ?key)) v params else params) = Inr m"
        using "1.prems"(1) unfolding parse_entries_cases(3) [OF Cons False] by (auto simp: Let_def)
      have "distinct (map fst (if trim ?key \<noteq> [] then try_emplace (to_upper (trim ?key)) v params else params))"
        using "1.prems"(2) by (simp add: try_emplace_def distinct_update)
      then show ?thesis using "1.IH"(2) [OF refl Cons False v refl rec] by simp
    qed
  qed
qed

lemma distinct_ini_lines: "distinct (map fst params) \<Longrightarrow> distinct (map fst (ini_lines target b params ls))"
  by (induction target b params ls rule: ini_lines.induct) (simp_all add: Let_def distinct_update)

lemma distinct_first_nonempty: "(\<And>p. distinct (map fst (f p))) \<Longrightarrow> distinct (map fst (first_nonempty f paths))"
  by (induction paths) simp_all

lemma distinct_configurations: "distinct (map fst (load_dsn sy d))" "distinct (map fst (read_driver_config sy d))"
  unfolding load_dsn_def read_driver_config_def
  by (rule distinct_first_nonempty,
      simp add: read_dsn_file_def parse_ini_section_def distinct_ini_lines split: option.split)+

lemma resolve_driver_config:
  "resolve_driver sy d e = (n, c) \<Longrightarrow> c = [] \<or> (\<exists>n. c = read_driver_config sy n)"
  unfolding resolve_driver_def Let_def prod.inject by (elim conjE) (metis (full_types))

lemma resolve_layers:
  assumes "resolve sy s d = Inr r"
  shows "effective_parameters r = overlay (overlay (overlay [] (driver_parameters r)) (dsn_parameters r)) (connection_parameters r)"
    "connection_parameters r = [] \<or> parse s = Inr (connection_parameters r)"
    "dsn_parameters r = [] \<or> (\<exists>n. dsn_parameters r = load_dsn sy n)"
    "driver_parameters r = [] \<or> (\<exists>n. driver_parameters r = read_driver_config sy n)"
proof -
  define layers :: "(smap \<times> string \<times> smap) result" where "layers = (if CHR ''='' \<in> set s
        then bind_result (parse s) (\<lambda>connection.
          case map_of connection ''DSN'' of
            Some dsn \<Rightarrow> Inr (connection, dsn, load_dsn sy dsn)
          | None \<Rightarrow> Inr (connection, [], []))
        else Inr ([], s, load_dsn sy s))"
  obtain connection name dsn where l: "layers = Inr (connection, name, dsn)"
    and r0: "r = (let (driver, config) = resolve_driver sy d (overlay (overlay [] dsn) connection)
      in \<lparr>driver_parameters = config, dsn_parameters = dsn, connection_parameters = connection,
          effective_parameters = overlay (overlay (overlay [] config) dsn) connection, dsn_name = name, driver_name = driver\<rparr>)"
    using assms unfolding resolve_def layers_def [symmetric] by (auto simp: Let_def case_prod_unfold)
  obtain driver config where rd: "resolve_driver sy d (overlay (overlay [] dsn) connection) = (driver, config)" by fastforce
  have r: "connection_parameters r = connection" "dsn_parameters r = dsn"
      "effective_parameters r = overlay (overlay (overlay [] (driver_parameters r)) dsn) connection"
    and dr: "driver_parameters r = [] \<or> (\<exists>n. driver_parameters r = read_driver_config sy n)"
    using resolve_driver_config [OF rd] by (simp_all add: r0 rd)
  show "effective_parameters r = overlay (overlay (overlay [] (driver_parameters r)) (dsn_parameters r)) (connection_parameters r)"
    "driver_parameters r = [] \<or> (\<exists>n. driver_parameters r = read_driver_config sy n)"
    using r dr by simp_all
  have "(connection = [] \<or> parse s = Inr connection) \<and> (dsn = [] \<or> (\<exists>n. dsn = load_dsn sy n))"
  proof (cases "CHR ''='' \<in> set s")
    case True
    then obtain c where "parse s = Inr c" "(case map_of c ''DSN'' of
            Some dsn \<Rightarrow> Inr (c, dsn, load_dsn sy dsn) | None \<Rightarrow> Inr (c, [], [])) = (Inr (connection, name, dsn) :: (smap \<times> string \<times> smap) result)"
      using l by (auto simp: layers_def)
    then show ?thesis by (cases "map_of c ''DSN''") auto
  next
    case False
    then show ?thesis using l by (auto simp: layers_def)
  qed
  then show "connection_parameters r = [] \<or> parse s = Inr (connection_parameters r)"
    "dsn_parameters r = [] \<or> (\<exists>n. dsn_parameters r = load_dsn sy n)"
    using r by simp_all
qed

lemma distinct_parse: "parse s = Inr m \<Longrightarrow> distinct (map fst m)"
  by (auto simp: parse_def intro: distinct_parse_entries split: if_splits)

lemma resolve_effective:
  assumes "resolve sy s d = Inr r"
  shows "map_of (effective_parameters r) k =
    first_some (layer_value (connection_parameters r) k)
      (first_some (layer_value (dsn_parameters r) k) (layer_value (driver_parameters r) k))"
proof -
  have "distinct (map fst (connection_parameters r))" "distinct (map fst (dsn_parameters r))" "distinct (map fst (driver_parameters r))"
    using resolve_layers [OF assms] distinct_parse distinct_configurations by fastforce+
  then show ?thesis by (simp add: resolve_layers(1) [OF assms] overlay_lookup)
qed

text \<open>
  C38: the effective value of every connection parameter comes from the most specific layer that defines
  it: the connection string before the data source before the driver's defaults. A layer defines a
  parameter by its name or, if the name is missing in that layer, by its alias (SERVER and HOST,
  DATABASE and DB, and so on), so an alias in a stronger layer beats the name in a weaker one.
\<close>

theorem connection_parameter_precedence:
  assumes "resolve sy s d = Inr r"
  shows "map_of (effective_parameters r) k =
    first_some (layer_value (connection_parameters r) k)
      (first_some (layer_value (dsn_parameters r) k) (layer_value (driver_parameters r) k))"
  by (rule resolve_effective [OF assms])

theorem connection_parameter_precedence_witness:
  "\<exists>r. resolve \<lparr>environment_value = \<lambda>_. [], file_lines = \<lambda>_. None\<rparr> ''SERVER=a'' ''X'' = Inr r \<and>
    map_of (effective_parameters r) ''SERVER'' = Some ''a''"
proof -
  let ?sy = "\<lparr>environment_value = \<lambda>_. [], file_lines = \<lambda>_. None\<rparr> :: system"
  have "read_driver_config ?sy n = []" for n
    by (simp add: read_driver_config_def get_driver_file_paths_def Let_def)
  moreover have "parse ''SERVER=a'' = Inr [(''SERVER'', ''a'')]" by code_simp
  ultimately obtain r where r: "resolve ?sy ''SERVER=a'' ''X'' = Inr r" and c: "connection_parameters r = [(''SERVER'', ''a'')]"
    by (simp add: resolve_def resolve_driver_def Let_def)
  from connection_parameter_precedence [OF r, of "''SERVER''"] c r show ?thesis
    by (auto simp: layer_value_def)
qed

subsection \<open>Any value can be written\<close>

definition escape_braces :: "string \<Rightarrow> string" where
  "escape_braces v = concat (map (\<lambda>c. if c = CHR ''}'' then ''}}'' else [c]) v)"

definition put_entry :: "string \<times> string \<Rightarrow> string" where
  "put_entry = (\<lambda>(k, v). k @ ''={'' @ escape_braces v @ ''};'')"

definition wf_entry :: "string \<times> string \<Rightarrow> bool" where
  "wf_entry = (\<lambda>(k, v). k \<noteq> [] \<and> trim k = k \<and> CHR '';'' \<notin> set k \<and> CHR ''='' \<notin> set k \<and> NUL_byte \<notin> set k \<and> NUL_byte \<notin> set v)"

lemma braced_value_escape:
  "r = [] \<or> hd r \<noteq> CHR ''}'' \<Longrightarrow> braced_value (escape_braces v @ CHR ''}'' # r) = Some (v, r)"
proof (induction v)
  case Nil
  then show ?case by (cases r) (simp_all add: escape_braces_def)
next
  case (Cons c v)
  then show ?case by (simp add: escape_braces_def)
qed

lemma read_value_escape: "read_value (CHR ''{'' # escape_braces v @ ''};'' @ r) = Inr (v, CHR '';'' # r)"
  using braced_value_escape [of "CHR '';'' # r" v] by (simp add: read_value_def is_space_def)

lemma parse_entries_entry:
  assumes "wf_entry (k, v)"
  shows "parse_entries (put_entry (k, v) @ rest) params = parse_entries rest (try_emplace (to_upper k) v params)"
proof -
  let ?P = "\<lambda>c. c \<noteq> CHR '';'' \<and> c \<noteq> CHR ''=''"
  let ?v = "CHR ''{'' # escape_braces v @ ''};'' @ rest"
  have eqn: "put_entry (k, v) @ rest = k @ CHR ''='' # ?v" by (simp add: put_entry_def)
  have k: "\<forall>c \<in> set k. ?P c" using assms by (auto simp: wf_entry_def)
  have d: "dropWhile ?P (put_entry (k, v) @ rest) = CHR ''='' # ?v"
    unfolding eqn using k by (subst dropWhile_append2) auto
  have t: "takeWhile ?P (put_entry (k, v) @ rest) = k"
    unfolding eqn using k by (subst takeWhile_append2) auto
  have sp: "dropWhile is_space ?v = ?v" by (simp add: is_space_def)
  have ne: "CHR ''='' \<noteq> CHR '';''" by simp
  show ?thesis
    unfolding parse_entries_cases(3) [OF d ne] t sp read_value_escape bind_result_Inr
    using assms by (simp add: wf_entry_def)
qed

lemma parse_entries_entries:
  "list_all wf_entry kvs \<Longrightarrow>
    parse_entries (concat (map put_entry kvs)) params =
      Inr (foldl (\<lambda>m (k, v). try_emplace (to_upper k) v m) params kvs)"
proof (induction kvs arbitrary: params)
  case Nil
  show ?case by (simp add: parse_entries_cases(1))
next
  case (Cons kv kvs)
  obtain k v where kv: "kv = (k, v)" by (cases kv)
  from Cons kv parse_entries_entry [of k v "concat (map put_entry kvs)" params] show ?case by simp
qed

lemma try_emplace_lookup:
  "map_of (foldl (\<lambda>m (k, v). try_emplace (to_upper k) v m) params kvs) K =
    first_some (map_of params K) (map_of (map (\<lambda>(k, v). (to_upper k, v)) kvs) K)"
  by (induction kvs arbitrary: params)
    (auto simp: try_emplace_def update_conv first_some_def split: option.splits)

lemma put_entries_no_nul:
  assumes "list_all wf_entry kvs"
  shows "NUL_byte \<notin> set (concat (map put_entry kvs))"
  using assms by (fastforce simp: wf_entry_def put_entry_def escape_braces_def list_all_iff split: if_splits)



subsection \<open>Limits are read exactly\<close>

definition decimal_text :: "string \<Rightarrow> bool" where
  "decimal_text t \<longleftrightarrow> t \<noteq> [] \<and> list_all is_digit t"

lemma from_chars_complete:
  "from_chars 0 hi t = (length t, Fc_parsed n) \<and> t \<noteq> [] \<longleftrightarrow>
     decimal_text t \<and> int (decimal_value t) \<le> hi \<and> n = int (decimal_value t)"
proof (cases "list_all is_digit t")
  case True
  then have tw: "takeWhile is_digit t = t" by (simp add: takeWhile_eq_all_conv list_all_iff)
  show ?thesis using True by (auto simp: tw from_chars_def decimal_text_def Let_def)
next
  case False
  then have "takeWhile is_digit t \<noteq> t" by (auto simp: takeWhile_eq_all_conv list_all_iff)
  then have "length (takeWhile is_digit t) \<noteq> length t"
    using takeWhile_dropWhile_id [of is_digit t] by (metis append_Nil2 append_eq_append_conv)
  with False show ?thesis by (auto simp: from_chars_def decimal_text_def Let_def)
qed

lemma parse_limit_iff:
  "parse_limit name t = Inr n \<longleftrightarrow> decimal_text t \<and> decimal_value t < 2 ^ 64 \<and> n = decimal_value t"
proof -
  have "parse_limit name t = Inr n \<longleftrightarrow> (\<exists>v. (from_chars 0 (2 ^ 64 - 1) t = (length t, Fc_parsed v) \<and> t \<noteq> []) \<and> n = nat v)"
    by (auto simp: parse_limit_def split: prod.splits from_chars_result.splits if_splits)
  also have "\<dots> \<longleftrightarrow> decimal_text t \<and> int (decimal_value t) \<le> 2 ^ 64 - 1 \<and> n = decimal_value t"
    unfolding from_chars_complete by auto
  also have "int (decimal_value t) \<le> 2 ^ 64 - 1 \<longleftrightarrow> decimal_value t < 2 ^ 64" by auto
  finally show ?thesis .
qed

definition limit_ok :: "smap \<Rightarrow> (limit_field \<Rightarrow> nat) \<Rightarrow> (limit_field \<Rightarrow> nat) \<Rightarrow> string \<times> limit_field \<Rightarrow> bool" where
  "limit_ok ps options options' = (\<lambda>(name, field). case map_of ps name of
       None \<Rightarrow> options' field = options field
     | Some t \<Rightarrow> decimal_text t \<and> decimal_value t < 2 ^ 64 \<and> options' field = decimal_value t)"

lemma fold_limits:
  "distinct (map snd ls) \<Longrightarrow>
    fold_result (apply_limit ps) options ls = Inr options' \<longleftrightarrow>
      list_all (limit_ok ps options options') ls \<and> (\<forall>f. f \<notin> snd ` set ls \<longrightarrow> options' f = options f)"
proof (induction ls arbitrary: options)
  case (Cons l ls)
  obtain name field where l: "l = (name, field)" by (cases l)
  have d: "distinct (map snd ls)" "field \<notin> snd ` set ls" using Cons.prems l by auto
  have fresh: "\<forall>a. (a, field) \<notin> set ls" using d(2) by force
  show ?case
  proof (cases "map_of ps name")
    case None
    have "list_all (limit_ok ps options options') ls \<and> (\<forall>f. f \<notin> snd ` set ls \<longrightarrow> options' f = options f) \<longleftrightarrow>
        list_all (limit_ok ps options options') ls \<and> options' field = options field \<and>
        (\<forall>f. f \<notin> insert field (snd ` set ls) \<longrightarrow> options' f = options f)" using d(2) by auto
    then show ?thesis using Cons.IH [OF d(1), of options] None l by (auto simp: apply_limit_def limit_ok_def)
  next
    case (Some t)
    have upd: "list_all (limit_ok ps (options(field := n)) options') ls = list_all (limit_ok ps options options') ls" for n
      unfolding list_all_iff limit_ok_def using fresh by (intro ball_cong refl) (auto split: option.split)
    have f: "(\<forall>f. f \<notin> snd ` set ls \<longrightarrow> options' f = (options(field := n)) f) \<longleftrightarrow>
        options' field = n \<and> (\<forall>f. f \<notin> insert field (snd ` set ls) \<longrightarrow> options' f = options f)" for n
      using d(2) by auto
    have "fold_result (apply_limit ps) options (l # ls) = Inr options' \<longleftrightarrow>
        (\<exists>n. parse_limit name t = Inr n \<and> fold_result (apply_limit ps) (options(field := n)) ls = Inr options')"
      using Some l by (auto simp: apply_limit_def)
    also have "\<dots> \<longleftrightarrow> (\<exists>n. (decimal_text t \<and> decimal_value t < 2 ^ 64 \<and> n = decimal_value t) \<and>
        list_all (limit_ok ps options options') ls \<and> options' field = n \<and>
        (\<forall>f. f \<notin> insert field (snd ` set ls) \<longrightarrow> options' f = options f))"
      unfolding parse_limit_iff Cons.IH [OF d(1)] upd f ..
    also have "\<dots> \<longleftrightarrow> list_all (limit_ok ps options options') (l # ls) \<and>
        (\<forall>f. f \<notin> snd ` set (l # ls) \<longrightarrow> options' f = options f)"
      using Some l by (auto simp: limit_ok_def)
    finally show ?thesis .
  qed
qed auto

text \<open>
  C39: resource limits. The limits are accepted exactly if every configured one is a non-empty string of
  digits whose number fits in 64 bits; then a configured limit has that number and every other limit
  keeps its value.
\<close>

theorem parse_resource_limits_exact:
  "parse_resource_limits ps options = Inr options' \<longleftrightarrow> list_all (limit_ok ps options options') limits"
proof -
  have "distinct (map snd limits)" by (simp add: limits_def)
  moreover have "snd ` set limits = UNIV"
    by (rule set_eqI, rule iffI, simp, rename_tac x, case_tac x) (simp_all add: limits_def)
  ultimately show ?thesis using fold_limits [of limits ps options options'] by (simp add: parse_resource_limits_def)
qed

end
