(* ===== verification/OdbcTypes.thy ===== *)
theory OdbcTypes
  imports Prelude
begin

section \<open>ODBC types\<close>

text \<open>
  \<^verbatim>\<open>odbc/result_types.cpp\<close>: which C type a value of an SQL type may be converted to. The ODBC constants
  are constructors; a number that is none of them is \<open>C_other\<close> or \<open>Sql_other\<close>.
\<close>

datatype c_type =
    SQL_C_DEFAULT | SQL_C_CHAR | SQL_C_WCHAR | SQL_C_TINYINT | SQL_C_STINYINT | SQL_C_UTINYINT | SQL_C_SHORT | SQL_C_SSHORT
  | SQL_C_USHORT | SQL_C_LONG | SQL_C_SLONG | SQL_C_ULONG | SQL_C_SBIGINT | SQL_C_UBIGINT | SQL_C_NUMERIC | SQL_C_FLOAT
  | SQL_C_DOUBLE | SQL_C_BIT | SQL_C_DATE | SQL_C_TIME | SQL_C_TIMESTAMP | SQL_C_TYPE_DATE | SQL_C_TYPE_TIME
  | SQL_C_TYPE_TIMESTAMP | SQL_C_BINARY | SQL_C_GUID | SQL_C_INTERVAL_YEAR | SQL_C_INTERVAL_MONTH | SQL_C_INTERVAL_DAY
  | SQL_C_INTERVAL_HOUR | SQL_C_INTERVAL_MINUTE | SQL_C_INTERVAL_SECOND | SQL_C_INTERVAL_YEAR_TO_MONTH
  | SQL_C_INTERVAL_DAY_TO_HOUR | SQL_C_INTERVAL_DAY_TO_MINUTE | SQL_C_INTERVAL_DAY_TO_SECOND
  | SQL_C_INTERVAL_HOUR_TO_MINUTE | SQL_C_INTERVAL_HOUR_TO_SECOND | SQL_C_INTERVAL_MINUTE_TO_SECOND | C_other int

datatype sql_type =
    SQL_CHAR | SQL_VARCHAR | SQL_LONGVARCHAR | SQL_WCHAR | SQL_WVARCHAR | SQL_WLONGVARCHAR | SQL_TINYINT | SQL_SMALLINT
  | SQL_INTEGER | SQL_BIGINT | SQL_REAL | SQL_FLOAT | SQL_DOUBLE | SQL_DECIMAL | SQL_NUMERIC | SQL_BIT | SQL_BINARY
  | SQL_VARBINARY | SQL_LONGVARBINARY | SQL_DATE | SQL_TIME | SQL_TIMESTAMP | SQL_TYPE_DATE | SQL_TYPE_TIME
  | SQL_TYPE_TIMESTAMP | SQL_GUID | SQL_INTERVAL_YEAR | SQL_INTERVAL_MONTH | SQL_INTERVAL_DAY | SQL_INTERVAL_HOUR
  | SQL_INTERVAL_MINUTE | SQL_INTERVAL_SECOND | SQL_INTERVAL_YEAR_TO_MONTH | SQL_INTERVAL_DAY_TO_HOUR
  | SQL_INTERVAL_DAY_TO_MINUTE | SQL_INTERVAL_DAY_TO_SECOND | SQL_INTERVAL_HOUR_TO_MINUTE | SQL_INTERVAL_HOUR_TO_SECOND
  | SQL_INTERVAL_MINUTE_TO_SECOND | Sql_other int

definition canonical_c_type :: "c_type \<Rightarrow> c_type" where
  "canonical_c_type c = (case c of
       SQL_C_LONG \<Rightarrow> SQL_C_SLONG | SQL_C_SHORT \<Rightarrow> SQL_C_SSHORT | SQL_C_TINYINT \<Rightarrow> SQL_C_STINYINT | _ \<Rightarrow> c)"

definition default_c_type :: "sql_type \<Rightarrow> c_type" where
  "default_c_type s = (case s of
       SQL_TINYINT \<Rightarrow> SQL_C_STINYINT | SQL_SMALLINT \<Rightarrow> SQL_C_SSHORT | SQL_INTEGER \<Rightarrow> SQL_C_SLONG
     | SQL_BIGINT \<Rightarrow> SQL_C_SBIGINT | SQL_REAL \<Rightarrow> SQL_C_FLOAT | SQL_FLOAT \<Rightarrow> SQL_C_DOUBLE | SQL_DOUBLE \<Rightarrow> SQL_C_DOUBLE
     | SQL_BIT \<Rightarrow> SQL_C_BIT | SQL_TYPE_DATE \<Rightarrow> SQL_C_DATE | SQL_TYPE_TIME \<Rightarrow> SQL_C_TIME
     | SQL_TYPE_TIMESTAMP \<Rightarrow> SQL_C_TIMESTAMP | SQL_WCHAR \<Rightarrow> SQL_C_WCHAR | SQL_WVARCHAR \<Rightarrow> SQL_C_WCHAR
     | SQL_WLONGVARCHAR \<Rightarrow> SQL_C_WCHAR | SQL_BINARY \<Rightarrow> SQL_C_BINARY | SQL_VARBINARY \<Rightarrow> SQL_C_BINARY
     | SQL_LONGVARBINARY \<Rightarrow> SQL_C_BINARY | _ \<Rightarrow> SQL_C_CHAR)"

definition is_supported_c_type :: "c_type \<Rightarrow> bool" where
  "is_supported_c_type c \<longleftrightarrow>
     canonical_c_type c \<in>
       {SQL_C_DEFAULT, SQL_C_CHAR, SQL_C_WCHAR, SQL_C_STINYINT, SQL_C_UTINYINT, SQL_C_USHORT, SQL_C_ULONG, SQL_C_UBIGINT,
        SQL_C_SSHORT, SQL_C_SLONG, SQL_C_SBIGINT, SQL_C_NUMERIC, SQL_C_FLOAT, SQL_C_DOUBLE, SQL_C_BIT, SQL_C_DATE,
        SQL_C_TIME, SQL_C_TIMESTAMP, SQL_C_TYPE_DATE, SQL_C_TYPE_TIME, SQL_C_TYPE_TIMESTAMP, SQL_C_BINARY}"

definition is_valid_c_type :: "c_type \<Rightarrow> bool" where
  "is_valid_c_type c \<longleftrightarrow>
     is_supported_c_type c \<or>
     c \<in> {SQL_C_NUMERIC, SQL_C_INTERVAL_YEAR, SQL_C_INTERVAL_MONTH, SQL_C_INTERVAL_DAY, SQL_C_INTERVAL_HOUR,
          SQL_C_INTERVAL_MINUTE, SQL_C_INTERVAL_SECOND, SQL_C_INTERVAL_YEAR_TO_MONTH, SQL_C_INTERVAL_DAY_TO_HOUR,
          SQL_C_INTERVAL_DAY_TO_MINUTE, SQL_C_INTERVAL_DAY_TO_SECOND, SQL_C_INTERVAL_HOUR_TO_MINUTE,
          SQL_C_INTERVAL_HOUR_TO_SECOND, SQL_C_INTERVAL_MINUTE_TO_SECOND} \<or>
     c = SQL_C_GUID"

definition is_supported_parameter_c_type :: "c_type \<Rightarrow> bool" where
  "is_supported_parameter_c_type c \<longleftrightarrow>
     canonical_c_type c \<in>
       {SQL_C_DEFAULT, SQL_C_CHAR, SQL_C_WCHAR, SQL_C_STINYINT, SQL_C_SSHORT, SQL_C_SLONG, SQL_C_SBIGINT, SQL_C_UTINYINT,
        SQL_C_USHORT, SQL_C_ULONG, SQL_C_UBIGINT, SQL_C_NUMERIC, SQL_C_FLOAT, SQL_C_DOUBLE, SQL_C_BIT, SQL_C_BINARY,
        SQL_C_DATE, SQL_C_TYPE_DATE, SQL_C_TIME, SQL_C_TYPE_TIME, SQL_C_TIMESTAMP, SQL_C_TYPE_TIMESTAMP}"

definition is_supported_parameter_sql_type :: "sql_type \<Rightarrow> bool" where
  "is_supported_parameter_sql_type s \<longleftrightarrow>
     s \<in> {SQL_CHAR, SQL_VARCHAR, SQL_LONGVARCHAR, SQL_WCHAR, SQL_WVARCHAR, SQL_WLONGVARCHAR, SQL_TINYINT, SQL_SMALLINT,
          SQL_INTEGER, SQL_BIGINT, SQL_REAL, SQL_FLOAT, SQL_DOUBLE, SQL_DECIMAL, SQL_NUMERIC, SQL_BIT, SQL_BINARY,
          SQL_VARBINARY, SQL_LONGVARBINARY, SQL_TYPE_DATE, SQL_TYPE_TIME, SQL_TYPE_TIMESTAMP}"

definition is_valid_sql_type :: "sql_type \<Rightarrow> bool" where
  "is_valid_sql_type s \<longleftrightarrow>
     is_supported_parameter_sql_type s \<or>
     s \<in> {SQL_DATE, SQL_TIME, SQL_TIMESTAMP, SQL_TYPE_DATE, SQL_TYPE_TIME, SQL_TYPE_TIMESTAMP, SQL_INTERVAL_YEAR,
          SQL_INTERVAL_MONTH, SQL_INTERVAL_DAY, SQL_INTERVAL_HOUR, SQL_INTERVAL_MINUTE, SQL_INTERVAL_SECOND,
          SQL_INTERVAL_YEAR_TO_MONTH, SQL_INTERVAL_DAY_TO_HOUR, SQL_INTERVAL_DAY_TO_MINUTE, SQL_INTERVAL_DAY_TO_SECOND,
          SQL_INTERVAL_HOUR_TO_MINUTE, SQL_INTERVAL_HOUR_TO_SECOND, SQL_INTERVAL_MINUTE_TO_SECOND} \<or>
     s = SQL_GUID"

definition is_conversion_supported :: "sql_type \<Rightarrow> c_type \<Rightarrow> bool" where
  "is_conversion_supported s c0 \<longleftrightarrow>
     (let c = canonical_c_type c0;
          temporal = s \<in> {SQL_TYPE_DATE, SQL_TYPE_TIME, SQL_TYPE_TIMESTAMP, SQL_DATE, SQL_TIME, SQL_TIMESTAMP}
      in if s \<in> {SQL_BINARY, SQL_VARBINARY, SQL_LONGVARBINARY} then c \<in> {SQL_C_CHAR, SQL_C_WCHAR, SQL_C_BINARY}
         else if temporal \<and>
           c \<in> {SQL_C_BIT, SQL_C_STINYINT, SQL_C_UTINYINT, SQL_C_USHORT, SQL_C_ULONG, SQL_C_UBIGINT, SQL_C_SSHORT,
                SQL_C_SLONG, SQL_C_SBIGINT, SQL_C_FLOAT, SQL_C_DOUBLE} then False
         else if s \<in> {SQL_TYPE_DATE, SQL_DATE} \<and> c \<in> {SQL_C_TIME, SQL_C_TYPE_TIME} \<or>
                 s \<in> {SQL_TYPE_TIME, SQL_TIME} \<and> c \<in> {SQL_C_DATE, SQL_C_TYPE_DATE} then False
         else if c \<in> {SQL_C_CHAR, SQL_C_WCHAR, SQL_C_STINYINT, SQL_C_UTINYINT, SQL_C_USHORT, SQL_C_ULONG, SQL_C_UBIGINT,
                      SQL_C_SSHORT, SQL_C_SLONG, SQL_C_SBIGINT, SQL_C_FLOAT, SQL_C_DOUBLE, SQL_C_BIT} then True
         else if c = SQL_C_NUMERIC then
           s \<in> {SQL_CHAR, SQL_VARCHAR, SQL_LONGVARCHAR, SQL_WCHAR, SQL_WVARCHAR, SQL_WLONGVARCHAR, SQL_BIT, SQL_TINYINT,
                SQL_SMALLINT, SQL_INTEGER, SQL_BIGINT, SQL_DECIMAL, SQL_NUMERIC, SQL_REAL, SQL_FLOAT, SQL_DOUBLE}
         else if c \<in> {SQL_C_DATE, SQL_C_TYPE_DATE, SQL_C_TIME, SQL_C_TYPE_TIME, SQL_C_TIMESTAMP, SQL_C_TYPE_TIMESTAMP} then
           s \<notin> {SQL_BIT, SQL_TINYINT, SQL_SMALLINT, SQL_INTEGER, SQL_BIGINT, SQL_DECIMAL, SQL_NUMERIC, SQL_REAL,
                SQL_FLOAT, SQL_DOUBLE}
         else c = SQL_C_BINARY \<and>
           s \<in> {SQL_NUMERIC, SQL_DECIMAL, SQL_TYPE_DATE, SQL_DATE, SQL_TYPE_TIME, SQL_TIME, SQL_TYPE_TIMESTAMP,
                SQL_TIMESTAMP, SQL_TINYINT, SQL_SMALLINT, SQL_INTEGER, SQL_BIGINT, SQL_REAL, SQL_FLOAT, SQL_DOUBLE, SQL_BIT,
                SQL_CHAR, SQL_VARCHAR, SQL_LONGVARCHAR, SQL_WCHAR, SQL_WVARCHAR, SQL_WLONGVARCHAR})"

end
