(* ===== verification/TextConv.thy ===== *)
theory TextConv
  imports Decimal Unicode OdbcTypes
begin

section \<open>Conversion of result text to C values\<close>

text \<open>
  \<^verbatim>\<open>odbc/text_data_converter.cpp\<close>. A conversion's effect is a record: the return code, what is written at
  the start of the caller's buffer, the indicator (where the caller asks for it) and the issue. The C library's \<^verbatim>\<open>strtold\<close>, \<^verbatim>\<open>strtof\<close> and
  \<^verbatim>\<open>strtod\<close> in the C locale and the local date are the parameter \<open>c_library\<close>; \<open>wsz\<close> is the size of
  \<^verbatim>\<open>SQLWCHAR\<close>.
\<close>

datatype sqlreturn = SQL_SUCCESS | SQL_SUCCESS_WITH_INFO | SQL_ERROR

datatype conversion_issue =
  No_issue | Fractional_truncation | Numeric_value_out_of_range | Invalid_character_value | Invalid_datetime_format

record sql_numeric =
  num_precision :: nat
  num_scale :: int
  num_sign :: nat
  num_val :: "nat list"

datatype c_value =
    C_char bytes | C_wchar "nat list" | C_integer int | C_numeric sql_numeric | C_floating "64 word" | C_bit nat
  | C_date int nat nat | C_time nat nat nat | C_timestamp int nat nat nat nat nat nat | C_binary bytes

record conversion =
  ret :: sqlreturn
  stored :: "c_value option"
  indicator :: "nat option"
  issue :: conversion_issue

definition conversion_error :: "conversion_issue \<Rightarrow> conversion" where
  "conversion_error i = \<lparr>ret = SQL_ERROR, stored = None, indicator = None, issue = i\<rparr>"

text \<open>A complete value with its size; a truncated fraction is reported.\<close>

definition finish_value :: "c_value \<Rightarrow> nat \<Rightarrow> bool \<Rightarrow> conversion" where
  "finish_value v n truncated =
     (if truncated then \<lparr>ret = SQL_SUCCESS_WITH_INFO, stored = Some v, indicator = Some n, issue = Fractional_truncation\<rparr>
      else \<lparr>ret = SQL_SUCCESS, stored = Some v, indicator = Some n, issue = No_issue\<rparr>)"

record long_double_result =
  ld_consumed :: nat
  ld_erange :: bool
  ld_value :: "real option"

record float_result =
  float_consumed :: nat
  float_erange :: bool
  float_finite :: bool
  float_zero :: bool
  float_bits :: "64 word"

record c_library =
  has_locale :: bool
  strtold :: "string \<Rightarrow> long_double_result"
  strtofd :: "nat \<Rightarrow> string \<Rightarrow> float_result"
  special_float :: "nat \<Rightarrow> string \<Rightarrow> 64 word"
  local_date :: "(nat \<times> nat \<times> nat) option"

definition trim_space :: "string \<Rightarrow> string" where
  "trim_space s = rev (dropWhile is_space (rev (dropWhile is_space s)))"

subsection \<open>Numbers\<close>

definition parse_number :: "c_library \<Rightarrow> string \<Rightarrow> conversion_issue + real" where
  "parse_number lib s =
     (if \<not> has_locale lib \<or> s = [] then Inl Invalid_character_value
      else
        let r = strtold lib s
        in if ld_consumed r = 0 then Inl Invalid_character_value
           else if dropWhile is_space (drop (ld_consumed r) s) \<noteq> [] then Inl Invalid_character_value
           else case ld_value r of
               None \<Rightarrow> Inl Numeric_value_out_of_range
             | Some v \<Rightarrow> if ld_erange r \<and> v = 0 then Inl Numeric_value_out_of_range else Inr v)"

definition parse_floating_number :: "c_library \<Rightarrow> nat \<Rightarrow> string \<Rightarrow> conversion_issue + 64 word" where
  "parse_floating_number lib sz s =
     (if \<not> has_locale lib \<or> s = [] then Inl Invalid_character_value
      else
        let r = strtofd lib sz s
        in if float_consumed r = 0 then Inl Invalid_character_value
           else if dropWhile is_space (drop (float_consumed r) s) \<noteq> [] then Inl Invalid_character_value
           else if \<not> float_finite r \<or> float_erange r \<and> float_zero r then Inl Numeric_value_out_of_range
           else Inr (float_bits r))"

definition parse_floating_value :: "c_library \<Rightarrow> nat \<Rightarrow> string \<Rightarrow> conversion_issue + 64 word" where
  "parse_floating_value lib sz s =
     (if trim_space s \<in> {''NaN'', ''Infinity'', ''-Infinity''} then Inr (special_float lib sz (trim_space s))
      else parse_floating_number lib sz s)"

record int_type =
  is_signed :: bool
  int_size :: nat
  digits10 :: nat

text \<open>The integer types of the C interface.\<close>

definition schar :: int_type where
  "schar = \<lparr>is_signed = True, int_size = 1, digits10 = 2\<rparr>"

definition uchar :: int_type where
  "uchar = \<lparr>is_signed = False, int_size = 1, digits10 = 2\<rparr>"

definition smallint :: int_type where
  "smallint = \<lparr>is_signed = True, int_size = 2, digits10 = 4\<rparr>"

definition usmallint :: int_type where
  "usmallint = \<lparr>is_signed = False, int_size = 2, digits10 = 4\<rparr>"

definition integer_type :: int_type where
  "integer_type = \<lparr>is_signed = True, int_size = 4, digits10 = 9\<rparr>"

definition uinteger :: int_type where
  "uinteger = \<lparr>is_signed = False, int_size = 4, digits10 = 9\<rparr>"

definition bigint :: int_type where
  "bigint = \<lparr>is_signed = True, int_size = 8, digits10 = 18\<rparr>"

definition ubigint :: int_type where
  "ubigint = \<lparr>is_signed = False, int_size = 8, digits10 = 19\<rparr>"

definition int_max :: "int_type \<Rightarrow> int" where
  "int_max ty = 2 ^ (8 * int_size ty - (if is_signed ty then 1 else 0)) - 1"

definition int_min :: "int_type \<Rightarrow> int" where
  "int_min ty = (if is_signed ty then - (2 ^ (8 * int_size ty - 1)) else 0)"

text \<open>The exponent of the text, saturating at the largest \<^verbatim>\<open>std::size_t\<close>.\<close>

definition saturate_exponent :: "string \<Rightarrow> nat" where
  "saturate_exponent ds =
     foldl (\<lambda>e c. let digit = digit_value c in if (max_size_t - digit) div 10 < e then max_size_t else e * 10 + digit) 0 ds"

record number_text =
  number_negative :: bool
  number_digits :: string
  whole_digits :: nat
  negative_exponent :: bool
  exponent :: nat
  number_complete :: bool

text \<open>The digit scanner of \<^verbatim>\<open>convert_integral\<close>; \<open>number_complete\<close> is the condition under which its digits are used.\<close>

definition scan_number :: "string \<Rightarrow> number_text" where
  "scan_number t =
     (let neg = (t \<noteq> [] \<and> hd t = CHR ''-'');
          r = (if t \<noteq> [] \<and> (hd t = CHR ''-'' \<or> hd t = CHR ''+'') then tl t else t);
          whole = takeWhile is_digit r;
          r = dropWhile is_digit r;
          point = (r \<noteq> [] \<and> hd r = CHR ''.'');
          fraction = (if point then takeWhile is_digit (tl r) else []);
          r = (if point then dropWhile is_digit (tl r) else r);
          marker = (r \<noteq> [] \<and> (hd r = CHR ''e'' \<or> hd r = CHR ''E''));
          r = (if marker then tl r else r);
          sign = (marker \<and> r \<noteq> [] \<and> (hd r = CHR ''-'' \<or> hd r = CHR ''+''));
          negexp = (sign \<and> hd r = CHR ''-'');
          r = (if sign then tl r else r);
          es = (if marker then takeWhile is_digit r else []);
          r = (if marker then dropWhile is_digit r else r)
      in \<lparr>number_negative = neg, number_digits = whole @ fraction, whole_digits = length whole, negative_exponent = negexp,
          exponent = saturate_exponent es,
          number_complete = (whole @ fraction \<noteq> [] \<and> (marker \<longrightarrow> es \<noteq> []) \<and> r = [])\<rparr>)"

definition integral_digits :: "number_text \<Rightarrow> nat" where
  "integral_digits n =
     (if negative_exponent n then (if whole_digits n \<le> exponent n then 0 else whole_digits n - exponent n)
      else if max_size_t - whole_digits n < exponent n then max_size_t else whole_digits n + exponent n)"

text \<open>The loop that builds the magnitude; \<open>None\<close> is the overflow.\<close>

fun magnitude_loop :: "nat \<Rightarrow> nat \<Rightarrow> nat list \<Rightarrow> nat option" where
  "magnitude_loop limit magnitude [] = Some magnitude"
| "magnitude_loop limit magnitude (digit # ds) =
     (if (limit - digit) div 10 < magnitude then None else magnitude_loop limit (magnitude * 10 + digit) ds)"

definition convert_digits :: "int_type \<Rightarrow> number_text \<Rightarrow> conversion" where
  "convert_digits ty n =
     (let ds = number_digits n;
          first = length (takeWhile (\<lambda>c. c = CHR ''0'') ds);
          k = integral_digits n
      in if first = length ds then finish_value (C_integer 0) (int_size ty) False
         else if k \<le> first then finish_value (C_integer 0) (int_size ty) True
         else if digits10 ty + 1 < k - first then conversion_error Numeric_value_out_of_range
         else
           let limit = nat (int_max ty) + (if number_negative n \<and> is_signed ty then 1 else 0)
           in case magnitude_loop limit 0 (map (\<lambda>i. if i < length ds then digit_value (ds ! i) else 0) [first..<k]) of
               None \<Rightarrow> conversion_error Numeric_value_out_of_range
             | Some magnitude \<Rightarrow>
                 if \<not> is_signed ty \<and> number_negative n then conversion_error Numeric_value_out_of_range
                 else finish_value (C_integer (if number_negative n then - int magnitude else int magnitude)) (int_size ty)
                        (list_ex (\<lambda>c. c \<noteq> CHR ''0'') (drop (min k (length ds)) ds)))"

definition trunc :: "real \<Rightarrow> int" where
  "trunc x = (if x < 0 then \<lceil>x\<rceil> else \<lfloor>x\<rfloor>)"

text \<open>Truncation to an integer type with the range check of the fallback.\<close>

definition truncate_to :: "int_type \<Rightarrow> real \<Rightarrow> conversion" where
  "truncate_to ty v =
     (let t = trunc v
      in if t < int_min ty \<or> int_max ty < t then conversion_error Numeric_value_out_of_range
         else finish_value (C_integer t) (int_size ty) (real_of_int t \<noteq> v))"

definition convert_fallback :: "c_library \<Rightarrow> int_type \<Rightarrow> string \<Rightarrow> conversion" where
  "convert_fallback lib ty s =
     (case parse_number lib s of
        Inl i \<Rightarrow> conversion_error i
      | Inr v \<Rightarrow> truncate_to ty v)"

definition convert_integral :: "c_library \<Rightarrow> int_type \<Rightarrow> string \<Rightarrow> conversion" where
  "convert_integral lib ty s =
     (let t = trim_space s;
          it = (if starts_with t ''+'' then tl t else t);
          n = scan_number t;
          (e, r) = from_chars (int_min ty) (int_max ty) it
      in if e = length it \<and> r \<noteq> Fc_invalid then
           (case r of
              Fc_parsed v \<Rightarrow> finish_value (C_integer v) (int_size ty) False
            | _ \<Rightarrow> conversion_error Numeric_value_out_of_range)
         else if number_complete n then convert_digits ty n
         else convert_fallback lib ty s)"

definition convert_floating :: "c_library \<Rightarrow> bool \<Rightarrow> string \<Rightarrow> conversion" where
  "convert_floating lib single s =
     (let sz = (if single then 4 else 8)
      in case parse_floating_value lib sz s of
          Inl i \<Rightarrow> conversion_error i
        | Inr b \<Rightarrow> finish_value (C_floating b) sz False)"

definition convert_boolean :: "c_library \<Rightarrow> string \<Rightarrow> conversion" where
  "convert_boolean lib s =
     (if s \<in> {''t'', ''true'', ''1''} then finish_value (C_bit 1) 1 False
      else if s \<in> {''f'', ''false'', ''0''} then finish_value (C_bit 0) 1 False
      else
        let r = convert_integral lib smallint s
        in case stored r of
            Some (C_integer v) \<Rightarrow>
              if v < 0 \<or> 1 < v \<or> starts_with (trim_space s) ''-'' \<and> ret r = SQL_SUCCESS_WITH_INFO \<and> v = 0
              then conversion_error Numeric_value_out_of_range
              else finish_value (C_bit (nat v)) 1 (ret r = SQL_SUCCESS_WITH_INFO)
          | _ \<Rightarrow> conversion_error (issue r))"

subsection \<open>Dates and times\<close>

definition parse_digits :: "string \<Rightarrow> nat \<Rightarrow> nat \<Rightarrow> nat option" where
  "parse_digits s offset count =
     (if length s < offset + count then None
      else let ds = take count (drop offset s) in if list_all is_digit ds then Some (decimal_value ds) else None)"

definition leap_year :: "nat \<Rightarrow> bool" where
  "leap_year year \<longleftrightarrow> year mod 4 = 0 \<and> (year mod 100 \<noteq> 0 \<or> year mod 400 = 0)"

definition days_per_month :: "nat list" where
  "days_per_month = [31, 28, 31, 30, 31, 30, 31, 31, 30, 31, 30, 31]"

definition valid_date :: "nat \<Rightarrow> nat \<Rightarrow> nat \<Rightarrow> bool" where
  "valid_date year month day \<longleftrightarrow>
     \<not> (32767 < year \<or> month < 1 \<or> 12 < month \<or> day < 1) \<and>
     day \<le> days_per_month ! (month - 1) + (if month = 2 \<and> leap_year year then 1 else 0)"

definition parse_date :: "string \<Rightarrow> (nat \<times> nat \<times> nat) option" where
  "parse_date s =
     (if length s = 10 \<and> s ! 4 = CHR ''-'' \<and> s ! 7 = CHR ''-'' then
        (case (parse_digits s 0 4, parse_digits s 5 2, parse_digits s 8 2) of
           (Some year, Some month, Some day) \<Rightarrow> if valid_date year month day then Some (year, month, day) else None
         | _ \<Rightarrow> None)
      else None)"

definition valid_zone :: "string \<Rightarrow> bool" where
  "valid_zone z \<longleftrightarrow>
     z = [] \<or>
     (hd z = CHR ''+'' \<or> hd z = CHR ''-'') \<and>
     (let remaining = length z - 1
      in if remaining = 2 then (case parse_digits z 1 2 of None \<Rightarrow> False | Some hours \<Rightarrow> hours \<le> 15)
         else if remaining = 5 \<and> z ! 3 = CHR '':'' then
           (case (parse_digits z 1 2, parse_digits z 4 2) of
              (Some hours, Some minutes) \<Rightarrow> hours \<le> 15 \<and> minutes \<le> 59 | _ \<Rightarrow> False)
         else False)"

definition valid_time_suffix :: "string \<Rightarrow> bool" where
  "valid_time_suffix s \<longleftrightarrow>
     (if s = [] then True
      else if hd s = CHR ''.'' then takeWhile is_digit (tl s) \<noteq> [] \<and> valid_zone (dropWhile is_digit (tl s))
      else valid_zone s)"

text \<open>The first nine digits of a fraction as nanoseconds, and whether a nonzero digit was dropped.\<close>

definition fraction_nanos :: "string \<Rightarrow> nat \<times> bool" where
  "fraction_nanos ds =
     (decimal_value (take 9 ds) * 10 ^ (9 - length (take 9 ds)), list_ex (\<lambda>c. c \<noteq> CHR ''0'') (drop 9 ds))"

record clock_time =
  hour :: nat
  minute :: nat
  second :: nat
  fraction :: nat
  discarded_fraction :: bool

definition parse_time :: "string \<Rightarrow> clock_time option" where
  "parse_time s =
     (if length s < 8 \<or> s ! 2 \<noteq> CHR '':'' \<or> s ! 5 \<noteq> CHR '':'' then None
      else case (parse_digits s 0 2, parse_digits s 3 2, parse_digits s 6 2) of
          (Some h, Some m, Some sec) \<Rightarrow>
            if 23 < h \<or> 59 < m \<or> 60 < sec \<or> \<not> valid_time_suffix (drop 8 s) then None
            else
              let (f, d) = (if 8 < length s \<and> s ! 8 = CHR ''.'' then fraction_nanos (takeWhile is_digit (drop 9 s)) else (0, False))
              in Some \<lparr>hour = h, minute = m, second = sec, fraction = f, discarded_fraction = d\<rparr>
        | _ \<Rightarrow> None)"

definition has_timestamp_form :: "string \<Rightarrow> bool" where
  "has_timestamp_form t \<longleftrightarrow> 19 \<le> length t \<and> (t ! 10 = CHR '' '' \<or> t ! 10 = CHR ''T'')"

definition convert_date :: "string \<Rightarrow> conversion" where
  "convert_date s =
     (let t = trim_space s; timestamp = has_timestamp_form t
      in case parse_date (if timestamp then take 10 t else t) of
          None \<Rightarrow> conversion_error Invalid_datetime_format
        | Some (year, month, day) \<Rightarrow>
            if timestamp then
              (case parse_time (drop 11 t) of
                 None \<Rightarrow> conversion_error Invalid_datetime_format
               | Some c \<Rightarrow> finish_value (C_date (int year) month day) 6
                   (hour c \<noteq> 0 \<or> minute c \<noteq> 0 \<or> second c \<noteq> 0 \<or> fraction c \<noteq> 0 \<or> discarded_fraction c))
            else finish_value (C_date (int year) month day) 6 False)"

definition convert_time :: "string \<Rightarrow> conversion" where
  "convert_time s =
     (let t = trim_space s
      in if has_timestamp_form t \<and> parse_date (take 10 t) = None then conversion_error Invalid_datetime_format
         else case parse_time (if has_timestamp_form t then drop 11 t else t) of
             None \<Rightarrow> conversion_error Invalid_datetime_format
           | Some c \<Rightarrow> finish_value (C_time (hour c) (minute c) (second c)) 6 (fraction c \<noteq> 0 \<or> discarded_fraction c))"

definition stamp :: "nat \<Rightarrow> nat \<Rightarrow> nat \<Rightarrow> clock_time \<Rightarrow> conversion" where
  "stamp year month day c =
     finish_value (C_timestamp year month day (hour c) (minute c) (second c) (fraction c)) 16 (discarded_fraction c)"

definition midnight :: clock_time where
  "midnight = \<lparr>hour = 0, minute = 0, second = 0, fraction = 0, discarded_fraction = False\<rparr>"

definition convert_timestamp :: "c_library \<Rightarrow> string \<Rightarrow> conversion" where
  "convert_timestamp lib s =
     (let t = trim_space s;
          date_only = (length t = 10);
          time_only = (8 \<le> length t \<and> t ! 2 = CHR '':'' \<and> t ! 5 = CHR '':'')
      in if \<not> date_only \<and> \<not> time_only \<and> \<not> has_timestamp_form t then conversion_error Invalid_datetime_format
         else if time_only then
           (case (parse_time t, local_date lib) of
              (Some c, Some (year, month, day)) \<Rightarrow>
                if 32767 < year then conversion_error Invalid_datetime_format else stamp year month day c
            | _ \<Rightarrow> conversion_error Invalid_datetime_format)
         else case parse_date (take 10 t) of
             None \<Rightarrow> conversion_error Invalid_datetime_format
           | Some (year, month, day) \<Rightarrow>
               if date_only then stamp year month day midnight
               else (case parse_time (drop 11 t) of
                   None \<Rightarrow> conversion_error Invalid_datetime_format
                 | Some c \<Rightarrow> stamp year month day c))"

subsection \<open>Scaled numbers in the C layout\<close>

text \<open>Multiply the little-endian bytes by ten and add a digit; the second component is the carry out.\<close>

fun times_ten :: "nat \<Rightarrow> nat list \<Rightarrow> nat list \<times> nat" where
  "times_ten carry [] = ([], carry)"
| "times_ten carry (b # bs) =
     (let product = b * 10 + carry; (bs', c) = times_ten (product div 256) bs in (product mod 256 # bs', c))"

fun pack_digits :: "nat list \<Rightarrow> string \<Rightarrow> nat list option" where
  "pack_digits val [] = Some val"
| "pack_digits val (d # ds) =
     (let (val', carry) = times_ten (digit_value d) val in if carry \<noteq> 0 then None else pack_digits val' ds)"

definition convert_numeric :: "string \<Rightarrow> int \<Rightarrow> int \<Rightarrow> conversion" where
  "convert_numeric s precision sc =
     (if precision < 1 \<or> 38 < precision \<or> sc < -128 \<or> precision < sc then conversion_error Numeric_value_out_of_range
      else case rescale_decimal s (nat precision) sc of
          (None, InvalidCharacter) \<Rightarrow> conversion_error Invalid_character_value
        | (None, _) \<Rightarrow> conversion_error Numeric_value_out_of_range
        | (Some scaled, di) \<Rightarrow>
            (case pack_digits (replicate 16 0) (coefficient scaled) of
               None \<Rightarrow> conversion_error Numeric_value_out_of_range
             | Some val \<Rightarrow>
                 finish_value (C_numeric \<lparr>num_precision = nat precision, num_scale = sc,
                   num_sign = if negative scaled then 0 else 1, num_val = val\<rparr>) 19 (di = FractionalTruncation)))"

text \<open>Divide the bytes by ten from the most significant one down; the remainder is the next digit.\<close>

fun div_ten :: "nat list \<Rightarrow> nat list \<times> nat" where
  "div_ten [] = ([], 0)"
| "div_ten (b # bs) =
     (let (bs', r) = div_ten bs; dividend = r * 256 + b in (dividend div 10 # bs', dividend mod 10))"

text \<open>The digits in the order the loop produces them, least significant first; \<open>None\<close> is too many.\<close>

function numeric_digits :: "nat \<Rightarrow> nat list \<Rightarrow> string \<Rightarrow> string option" where
  "numeric_digits precision magnitude digits =
     (if list_all (\<lambda>b. b = 0) magnitude then Some digits
      else
        let (m, r) = div_ten magnitude; digits = digits @ [digit_char r]
        in if precision < length digits then None else numeric_digits precision m digits)"
  by pat_completeness auto
termination
  by (relation "measure (\<lambda>(precision, magnitude, digits). Suc precision - length digits)") auto

declare numeric_digits.simps [simp del]

definition format_numeric :: "sql_numeric \<Rightarrow> int \<Rightarrow> int \<Rightarrow> string option \<times> conversion_issue" where
  "format_numeric num precision sc =
     (if precision < 1 \<or> 38 < precision \<or> sc < -128 \<or> precision < sc \<or> 1 < num_sign num
      then (None, Numeric_value_out_of_range)
      else case numeric_digits (nat precision) (num_val num) [] of
          None \<Rightarrow> (None, Numeric_value_out_of_range)
        | Some ds \<Rightarrow>
            (format_scaled_decimal
               \<lparr>coefficient = if ds = [] then ''0'' else rev ds, scale = sc, negative = (num_sign num = 0)\<rparr>
               (nat precision + nat (- sc) + 3), No_issue))"

subsection \<open>Strings and dispatch\<close>

definition convert_string :: "string \<Rightarrow> int \<Rightarrow> conversion" where
  "convert_string s buffer_length =
     (if buffer_length < 0 then conversion_error No_issue
      else if buffer_length = 0
      then \<lparr>ret = SQL_SUCCESS_WITH_INFO, stored = None, indicator = Some (length s), issue = No_issue\<rparr>
      else
        let n = min (nat buffer_length - 1) (length s)
        in \<lparr>ret = if n < length s then SQL_SUCCESS_WITH_INFO else SQL_SUCCESS, stored = Some (C_char (take n s @ [NUL_byte])),
            indicator = Some (length s), issue = No_issue\<rparr>)"

definition wide_copy_length :: "nat \<Rightarrow> nat list \<Rightarrow> nat \<Rightarrow> nat" where
  "wide_copy_length wsz wide capacity =
     (let n = min capacity (length wide)
      in if wsz = 2 \<and> n < length wide \<and> 0 < n \<and> 0xd800 \<le> wide ! (n - 1) \<and> wide ! (n - 1) \<le> 0xdbff then n - 1 else n)"

definition convert_wide_string :: "nat \<Rightarrow> string \<Rightarrow> int \<Rightarrow> conversion" where
  "convert_wide_string wsz s buffer_length =
     (if buffer_length < 0 then conversion_error No_issue
      else case utf8_to_wide wsz s of
          None \<Rightarrow> conversion_error Invalid_character_value
        | Some wide \<Rightarrow>
            let units = nat buffer_length div wsz
            in if units = 0
               then \<lparr>ret = SQL_SUCCESS_WITH_INFO, stored = None, indicator = Some (length wide * wsz), issue = No_issue\<rparr>
               else
                 let n = wide_copy_length wsz wide (units - 1)
                 in \<lparr>ret = if n < length wide then SQL_SUCCESS_WITH_INFO else SQL_SUCCESS,
                     stored = Some (C_wchar (take n wide @ [0])), indicator = Some (length wide * wsz), issue = No_issue\<rparr>)"

definition convert_binary :: "string \<Rightarrow> int \<Rightarrow> conversion" where
  "convert_binary s buffer_length =
     (if buffer_length < 0 then conversion_error Invalid_character_value
      else
        let n = min (nat buffer_length) (length s)
        in \<lparr>ret = if n < length s then SQL_SUCCESS_WITH_INFO else SQL_SUCCESS,
            stored = (if 0 < n then Some (C_binary (take n s)) else None), indicator = Some (length s), issue = No_issue\<rparr>)"

definition convert_data :: "c_library \<Rightarrow> nat \<Rightarrow> string \<Rightarrow> c_type \<Rightarrow> bool \<Rightarrow> int \<Rightarrow> int \<Rightarrow> int \<Rightarrow> conversion" where
  "convert_data lib wsz s target buffer buffer_length numeric_precision numeric_scale =
     (if \<not> buffer then conversion_error No_issue
      else case canonical_c_type target of
        SQL_C_CHAR \<Rightarrow> convert_string s buffer_length
      | SQL_C_WCHAR \<Rightarrow> convert_wide_string wsz s buffer_length
      | SQL_C_STINYINT \<Rightarrow> convert_integral lib schar s
      | SQL_C_UTINYINT \<Rightarrow> convert_integral lib uchar s
      | SQL_C_USHORT \<Rightarrow> convert_integral lib usmallint s
      | SQL_C_ULONG \<Rightarrow> convert_integral lib uinteger s
      | SQL_C_UBIGINT \<Rightarrow> convert_integral lib ubigint s
      | SQL_C_SSHORT \<Rightarrow> convert_integral lib smallint s
      | SQL_C_SLONG \<Rightarrow> convert_integral lib integer_type s
      | SQL_C_SBIGINT \<Rightarrow> convert_integral lib bigint s
      | SQL_C_NUMERIC \<Rightarrow> convert_numeric s numeric_precision numeric_scale
      | SQL_C_FLOAT \<Rightarrow> convert_floating lib True s
      | SQL_C_DOUBLE \<Rightarrow> convert_floating lib False s
      | SQL_C_BIT \<Rightarrow> convert_boolean lib s
      | SQL_C_DATE \<Rightarrow> convert_date s
      | SQL_C_TYPE_DATE \<Rightarrow> convert_date s
      | SQL_C_TIME \<Rightarrow> convert_time s
      | SQL_C_TYPE_TIME \<Rightarrow> convert_time s
      | SQL_C_TIMESTAMP \<Rightarrow> convert_timestamp lib s
      | SQL_C_TYPE_TIMESTAMP \<Rightarrow> convert_timestamp lib s
      | SQL_C_BINARY \<Rightarrow> convert_binary s buffer_length
      | _ \<Rightarrow> conversion_error No_issue)"

end
