(* ===== verification/TextNumbers.thy ===== *)
theory TextNumbers
  imports TextConv
begin

section \<open>Result text as integers and scaled numbers\<close>

text \<open>
  What \<^verbatim>\<open>convert_integral\<close>, \<^verbatim>\<open>convert_numeric\<close> and \<^verbatim>\<open>format_numeric\<close> of \<^verbatim>\<open>odbc/text_data_converter.cpp\<close> compute, in
  terms of the number a text of the decimal grammar denotes.
\<close>

subsection \<open>Reading the digits\<close>

lemma is_space_whitespace: "is_space = whitespace"
proof
  fix c :: char
  have eq: "c = d \<longleftrightarrow> u8 c = u8 d" for d by (simp only: of_char_eq_iff)
  show "is_space c = whitespace c" unfolding is_space_def whitespace_def eq by auto
qed

lemma trim_space_whitespace: "trim_space = trim_whitespace"
  by (rule ext) (simp add: trim_space_def trim_whitespace_def is_space_whitespace)

lemma saturate_exponent: "list_all is_digit ds \<Longrightarrow> saturate_exponent ds = min max_size_t (decimal_value ds)"
proof (induction ds rule: rev_induct)
  case (snoc c ds)
  let ?d = "digit_value c" and ?e = "min max_size_t (decimal_value ds)"
  have d: "?d < 10" "10 \<le> max_size_t" using snoc.prems by (simp_all add: max_size_t_def)
  have "(max_size_t - ?d) div 10 < ?e \<longleftrightarrow> max_size_t < ?e * 10 + ?d" using d by auto
  then show ?case using snoc d by (auto simp: saturate_exponent_def Let_def min_def)
qed (simp add: saturate_exponent_def)

lemma magnitude_loop_value:
  assumes "\<forall>d \<in> set ds. d < 10" "9 \<le> limit"
  shows "magnitude_loop limit m ds =
    (if foldl (\<lambda>v d. 10 * v + d) m ds \<le> limit \<or> ds = [] then Some (foldl (\<lambda>v d. 10 * v + d) m ds) else None)"
  using assms
proof (induction ds arbitrary: m)
  case (Cons d ds)
  have grow: "m \<le> foldl (\<lambda>v d. 10 * v + d) m ds" for m :: nat and ds
  proof (induction ds arbitrary: m)
    case (Cons d ds)
    show ?case using Cons [of "10 * m + d"] by simp
  qed simp
  have "(limit - d) div 10 < m \<longleftrightarrow> limit < 10 * m + d" using Cons.prems by auto
  then show ?case using Cons grow [of "10 * m + d" ds] by (auto simp: mult.commute)
qed simp

lemma foldl_digit_values: "foldl (\<lambda>v d. 10 * v + d) 0 (map digit_value s) = decimal_value s"
  by (simp add: decimal_value_def foldl_map)

lemma digits_from:
  "first \<le> k \<Longrightarrow> map (\<lambda>i. if i < length ds then digit_value (ds ! i) else 0) [first..<k] =
    map digit_value (drop first (padded ds k))"
  by (rule nth_equalityI) (auto simp: padded_nth digit_value_def)

subsection \<open>The scanner on the grammar\<close>

text \<open>What is left of the scanner behind the sign: the digits, then the exponent.\<close>

lemma scan_digits:
  assumes "number_syntax t whole part e"
  obtains dot ex where "t = whole @ dot @ ex" "exponent_syntax ex e"
    "takeWhile is_digit t = whole" "dropWhile is_digit t = dot @ ex"
    "(dot @ ex \<noteq> [] \<and> hd (dot @ ex) = CHR ''.'') \<longleftrightarrow> dot \<noteq> []"
    "(if dot \<noteq> [] then takeWhile is_digit (tl (dot @ ex)) else []) = part"
    "(if dot \<noteq> [] then dropWhile is_digit (tl (dot @ ex)) else dot @ ex) = ex"
proof -
  obtain dot ex where t: "t = whole @ dot @ ex" and dot: "dot = [] \<and> part = [] \<or> dot = CHR ''.'' # part"
    and ex: "exponent_syntax ex e" and digits: "list_all is_digit whole" "list_all is_digit part"
    using assms by (auto simp: number_syntax_def)
  note head = exponent_head [OF ex]
  have "dot @ ex = [] \<or> \<not> is_digit (hd (dot @ ex))" using dot head by auto
  then have whole: "takeWhile is_digit t = whole" "dropWhile is_digit t = dot @ ex"
    unfolding t using digits takeWhile_digits dropWhile_digits by blast+
  have part: "takeWhile is_digit (part @ ex) = part" "dropWhile is_digit (part @ ex) = ex"
    using digits head takeWhile_digits dropWhile_digits by blast+
  show thesis by (rule that [OF t ex whole]) (use dot head part in auto)
qed

definition scan_tail :: "bool \<Rightarrow> string \<Rightarrow> string \<Rightarrow> string \<Rightarrow> number_text" where
  "scan_tail neg whole part r =
     (let marker = (r \<noteq> [] \<and> (hd r = CHR ''e'' \<or> hd r = CHR ''E''));
          r = (if marker then tl r else r);
          sign = (marker \<and> r \<noteq> [] \<and> (hd r = CHR ''-'' \<or> hd r = CHR ''+''));
          negexp = (sign \<and> hd r = CHR ''-'');
          r = (if sign then tl r else r);
          es = (if marker then takeWhile is_digit r else []);
          r = (if marker then dropWhile is_digit r else r)
      in \<lparr>number_negative = neg, number_digits = whole @ part, whole_digits = length whole, negative_exponent = negexp,
          exponent = saturate_exponent es,
          number_complete = (whole @ part \<noteq> [] \<and> (marker \<longrightarrow> es \<noteq> []) \<and> r = [])\<rparr>)"

lemma scan_number_tail:
  assumes "number_syntax t whole part e" "(sign, neg) \<in> {([], False), (''+'', False), (''-'', True)}"
  obtains ex where "exponent_syntax ex e" "scan_number (sign @ t) = scan_tail neg whole part ex"
    "length whole \<le> length t" "whole @ part \<noteq> []"
proof -
  obtain dot ex where t: "t = whole @ dot @ ex" and ex: "exponent_syntax ex e"
    and run: "takeWhile is_digit t = whole" "dropWhile is_digit t = dot @ ex"
      "(dot @ ex \<noteq> [] \<and> hd (dot @ ex) = CHR ''.'') \<longleftrightarrow> dot \<noteq> []"
      "(if dot \<noteq> [] then takeWhile is_digit (tl (dot @ ex)) else []) = part"
      "(if dot \<noteq> [] then dropWhile is_digit (tl (dot @ ex)) else dot @ ex) = ex"
    by (rule scan_digits [OF assms(1)])
  note chars = number_syntax_chars [OF assms(1)]
  let ?s = "sign @ t"
  have sign: "(?s \<noteq> [] \<and> hd ?s = CHR ''-'') = neg"
    "(if ?s \<noteq> [] \<and> (hd ?s = CHR ''-'' \<or> hd ?s = CHR ''+'') then tl ?s else ?s) = t"
    using assms(2) chars by auto
  have "scan_number ?s = scan_tail neg whole part ex"
    unfolding scan_number_def Let_def sign run
    unfolding scan_tail_def Let_def by (rule refl)
  then show thesis using that [OF ex] t assms(1) by (auto simp: number_syntax_def)
qed

lemma scan_tail_exponent:
  assumes "exponent_syntax ex e" "whole @ part \<noteq> []" "length whole \<le> max_size_t"
  shows "number_complete (scan_tail neg whole part ex)"
    "integral_digits (scan_tail neg whole part ex) = min max_size_t (nat (int (length whole) + e))"
proof -
  have "number_complete (scan_tail neg whole part ex) \<and>
    integral_digits (scan_tail neg whole part ex) = min max_size_t (nat (int (length whole) + e))"
  proof (cases "ex = []")
    case True
    then show ?thesis
      using assms by (auto simp: scan_tail_def exponent_syntax_def integral_digits_def saturate_exponent)
  next
    case False
    then obtain m sg ds where ex: "ex = m # sg @ ds" "m \<in> {CHR ''e'', CHR ''E''}" and ds: "ds \<noteq> []" "list_all is_digit ds"
      and sg: "sg \<in> {[], ''+''} \<and> e = int (decimal_value ds) \<or> sg = ''-'' \<and> e = - int (decimal_value ds)"
      using assms(1) by (auto simp: exponent_syntax_def)
    have hd: "hd ds \<noteq> CHR ''+''" "hd ds \<noteq> CHR ''-''" using digit_head [OF ds] by auto
    have run: "takeWhile is_digit ds = ds" "dropWhile is_digit ds = []"
      using ds takeWhile_digits [of ds "[]"] dropWhile_digits [of ds "[]"] by simp_all
    have tail: "scan_tail neg whole part ex = \<lparr>number_negative = neg, number_digits = whole @ part,
        whole_digits = length whole, negative_exponent = (sg = ''-''), exponent = saturate_exponent ds,
        number_complete = True\<rparr>"
      using sg ex ds hd assms(2)
      by (elim disjE conjE insertE emptyE) (simp_all add: scan_tail_def Let_def run)
    have "min max_size_t (decimal_value ds) \<le> max_size_t" by simp
    then show ?thesis
      using sg assms(3) unfolding tail integral_digits_def number_text.simps saturate_exponent [OF ds(2)]
      by (elim disjE conjE) auto
  qed
  then show "number_complete (scan_tail neg whole part ex)"
    "integral_digits (scan_tail neg whole part ex) = min max_size_t (nat (int (length whole) + e))" by blast+
qed

subsection \<open>Integers are truncated exactly\<close>

definition signed_value :: "bool \<Rightarrow> real \<Rightarrow> real" where
  "signed_value neg x = (if neg then - x else x)"

definition int_type_wf :: "int_type \<Rightarrow> bool" where
  "int_type_wf ty \<longleftrightarrow> 9 \<le> int_max ty \<and> int_max ty + 1 < 10 ^ (digits10 ty + 1) \<and>
     int_min ty = (if is_signed ty then - int_max ty - 1 else 0)"

lemma int_types_wf [simp]:
  "int_type_wf schar" "int_type_wf uchar" "int_type_wf smallint" "int_type_wf usmallint"
  "int_type_wf integer_type" "int_type_wf uinteger" "int_type_wf bigint" "int_type_wf ubigint"
  by (simp_all add: int_type_wf_def int_max_def int_min_def schar_def uchar_def smallint_def usmallint_def
      integer_type_def uinteger_def bigint_def ubigint_def)

lemma int_types_digits [simp]:
  "digits10 schar \<le> 19" "digits10 uchar \<le> 19" "digits10 smallint \<le> 19" "digits10 usmallint \<le> 19"
  "digits10 integer_type \<le> 19" "digits10 uinteger \<le> 19" "digits10 bigint \<le> 19" "digits10 ubigint \<le> 19"
  by (simp_all add: schar_def uchar_def smallint_def usmallint_def integer_type_def uinteger_def bigint_def ubigint_def)

lemma trunc_signed: "0 \<le> x \<Longrightarrow> trunc (signed_value neg x) = (if neg then - \<lfloor>x\<rfloor> else \<lfloor>x\<rfloor>)"
  by (cases "x = 0") (auto simp: trunc_def signed_value_def ceiling_minus)

lemma truncate_to_signed:
  assumes "0 \<le> x" "\<lfloor>x\<rfloor> = int n"
  shows "truncate_to ty (signed_value neg x) =
    (let t = if neg then - int n else int n
     in if t < int_min ty \<or> int_max ty < t then conversion_error Numeric_value_out_of_range
        else finish_value (C_integer t) (int_size ty) (real n \<noteq> x))"
  unfolding truncate_to_def trunc_signed [OF assms(1)] assms(2) by (auto simp: Let_def signed_value_def)

lemma any_nonzero: "list_ex (\<lambda>c. c \<noteq> CHR ''0'') s \<longleftrightarrow> \<not> (\<forall>c \<in> set s. c = CHR ''0'')"
  by (auto simp: list_ex_iff)

lemma convert_digits_exact:
  assumes ty: "int_type_wf ty" and ds: "list_all is_digit (number_digits n)"
    and k: "integral_digits n = min max_size_t (nat d)" and len: "length (number_digits n) + digits10 ty + 1 < max_size_t"
  defines "x \<equiv> real (decimal_value (number_digits n)) * 10 powi (d - int (length (number_digits n)))"
  shows "convert_digits ty n = truncate_to ty (signed_value (number_negative n) x)"
proof -
  let ?ds = "number_digits n" and ?k = "integral_digits n"
  define first where "first = length (takeWhile (\<lambda>c. c = CHR ''0'') ?ds)"
  define v where "v = decimal_value (padded ?ds (nat d))"
  have x0: "0 \<le> x" by (simp add: x_def)
  have floor: "\<lfloor>x\<rfloor> = int v" unfolding x_def v_def by (rule point_shift(1) [OF ds])
  have frac: "real v = x \<longleftrightarrow> (\<forall>c \<in> set (drop (nat d) ?ds). c = CHR ''0'')"
    unfolding x_def v_def eq_commute [of "real _"] by (rule point_shift(2) [OF ds])
  note spec = truncate_to_signed [OF x0 floor, of ty "number_negative n"]
  note ty' = ty [unfolded int_type_wf_def]
  have zero_in: "int_min ty \<le> 0" "0 \<le> int_max ty" using ty' by simp_all
  have first_le: "first \<le> length ?ds" by (simp add: first_def length_takeWhile_le)
  consider (zero) "first = length ?ds" | (small) "first < length ?ds" "?k \<le> first"
    | (large) "first < length ?ds" "first < ?k" "digits10 ty + 1 < ?k - first"
    | (fits) "first < length ?ds" "first < ?k" "?k - first \<le> digits10 ty + 1"
    using first_le by linarith
  then show ?thesis
  proof cases
    case zero
    then have "takeWhile (\<lambda>c. c = CHR ''0'') ?ds = ?ds"
      using takeWhile_eq_take [of "\<lambda>c. c = CHR ''0''" ?ds] by (simp add: first_def)
    then have zeros: "\<forall>c \<in> set ?ds. c = CHR ''0''" by (simp only: takeWhile_eq_all_conv)
    then have "x = 0" by (simp add: x_def decimal_value_zeros)
    moreover from this have "v = 0" using floor by simp
    ultimately show ?thesis
      using zero zero_in unfolding spec convert_digits_def Let_def first_def [symmetric] by simp
  next
    case small
    then have "?k < max_size_t" using len first_le by linarith
    then have nd: "nat d = ?k" using k by linarith
    have "v = 0" unfolding v_def nd by (rule coefficient_digits(1) [OF ds, folded first_def, OF small])
    moreover have "x \<noteq> 0"
    proof -
      have "\<not> (\<forall>c \<in> set ?ds. c = CHR ''0'')"
        using leading_zeros(2) [of ?ds, folded first_def, OF small(1)] small(1) nth_mem by blast
      then show ?thesis using decimal_value_zero [OF ds] by (simp add: x_def)
    qed
    ultimately show ?thesis
      using small zero_in unfolding spec convert_digits_def Let_def first_def [symmetric] by simp
  next
    case large
    have "?k \<le> nat d" using k by simp
    then have "digits10 ty + 1 < nat d - first" "first < nat d" using large by linarith+
    then have "10 ^ (digits10 ty + 1) \<le> v"
      unfolding v_def using coefficient_digits(4) [OF ds, folded first_def] large(1) by blast
    then have "10 ^ (digits10 ty + 1) \<le> int v" by (metis of_nat_le_iff of_nat_numeral of_nat_power)
    then have "int_max ty + 1 < int v" using ty' by linarith
    then have "- int v < int_min ty" "int_max ty < int v" using ty' by (auto split: if_splits)
    then show ?thesis
      using large unfolding spec convert_digits_def Let_def first_def [symmetric] by simp
  next
    case fits
    then have "?k < max_size_t" using len first_le by linarith
    then have nd: "nat d = ?k" using k by linarith
    let ?c = "drop first (padded ?ds ?k)"
    have v: "v = decimal_value ?c" "?c \<noteq> []"
      unfolding v_def nd using coefficient_digits(2) [OF ds, folded first_def] fits by simp_all
    have dig: "list_all is_digit ?c" using padded_digits [OF ds, of ?k] by (auto simp: list_all_iff dest: in_set_dropD)
    have v1: "1 \<le> v"
      unfolding v_def nd using coefficient_digits(4) [OF ds, folded first_def, of ?k 0] fits by simp
    define limit where "limit = nat (int_max ty) + (if number_negative n \<and> is_signed ty then 1 else 0)"
    have "magnitude_loop limit 0 (map (\<lambda>i. if i < length ?ds then digit_value (?ds ! i) else 0) [first..<?k]) =
        (if v \<le> limit then Some v else None)"
      using fits ty' v dig
      by (subst digits_from, simp, subst magnitude_loop_value)
        (auto simp: limit_def foldl_digit_values list_all_iff)
    moreover have "list_ex (\<lambda>c. c \<noteq> CHR ''0'') (drop (min ?k (length ?ds)) ?ds) \<longleftrightarrow> real v \<noteq> x"
      unfolding any_nonzero frac nd by (cases "?k \<le> length ?ds") (simp_all add: min_def)
    moreover have "(if number_negative n then - int v else int v) < int_min ty \<or>
        int_max ty < (if number_negative n then - int v else int v) \<longleftrightarrow>
        \<not> v \<le> limit \<or> \<not> is_signed ty \<and> number_negative n"
      using v1 ty' by (cases "number_negative n"; cases "is_signed ty") (simp_all add: limit_def, linarith+)
    moreover have "\<not> first = length ?ds" "\<not> ?k \<le> first" "\<not> digits10 ty + 1 < ?k - first" using fits by linarith+
    ultimately show ?thesis
      unfolding spec convert_digits_def Let_def first_def [symmetric] limit_def [symmetric]
      by (cases "v \<le> limit") (simp_all only: if_True if_False option.case simp_thms split: if_split)
  qed
qed

text \<open>The fast path agrees: a text that \<^verbatim>\<open>from_chars\<close> reads to its end is an integer.\<close>

lemma from_chars_number:
  assumes "number_syntax t whole part e" "lo \<le> 0"
    and neg: "neg \<Longrightarrow> s = CHR ''-'' # t" "\<not> neg \<Longrightarrow> s = t"
    and "from_chars lo hi s = (length s, r)" "r \<noteq> Fc_invalid"
  shows "decimal_number whole part e = real (decimal_value whole)"
    "r = (let v = if neg then - int (decimal_value whole) else int (decimal_value whole)
          in if lo \<le> v \<and> v \<le> hi then Fc_parsed v else Fc_out_of_range)"
proof -
  obtain dot ex where t: "t = whole @ dot @ ex" and ex: "exponent_syntax ex e" and run: "takeWhile is_digit t = whole"
    and part: "(if dot \<noteq> [] then takeWhile is_digit (tl (dot @ ex)) else []) = part"
    by (rule scan_digits [OF assms(1)])
  have m: "\<not> starts_with t ''-''"
    using number_syntax_chars [OF assms(1)] by (cases t) (simp_all add: starts_with_def)
  have whole: "length whole = length t \<longleftrightarrow> t = whole" using t by auto
  have all: "t = whole \<and> r = (let v = if neg then - int (decimal_value whole) else int (decimal_value whole)
      in if lo \<le> v \<and> v \<le> hi then Fc_parsed v else Fc_out_of_range)"
  proof (cases neg)
    case True
    then show ?thesis
      using assms(5,6) unfolding neg(1) [OF True] from_chars_def starts_with_def
      by (cases "lo < 0") (simp_all add: Let_def run whole split: if_splits)
  next
    case False
    then show ?thesis
      using assms(5,6) unfolding neg(2) [OF False] from_chars_def
      by (simp_all add: Let_def run whole m split: if_splits)
  qed
  then have nil: "dot = []" "ex = []" using t by auto
  then have "part = []" "e = 0" using part ex by (simp_all add: exponent_syntax_def)
  then show "decimal_number whole part e = real (decimal_value whole)" by (simp add: decimal_number_def)
  show "r = (let v = if neg then - int (decimal_value whole) else int (decimal_value whole)
      in if lo \<le> v \<and> v \<le> hi then Fc_parsed v else Fc_out_of_range)" using all by blast
qed

lemma convert_integral_exact:
  assumes ty: "int_type_wf ty" and syn: "decimal_syntax s neg whole part e" and len: "length s + digits10 ty + 1 < max_size_t"
  shows "convert_integral lib ty s = truncate_to ty (signed_value neg (decimal_number whole part e))"
proof -
  obtain ws sign t ws' where s: "s = ws @ sign @ t @ ws'" "list_all whitespace ws" "list_all whitespace ws'"
    and sign: "(sign, neg) \<in> {([], False), (''+'', False), (''-'', True)}" and t: "number_syntax t whole part e"
    using syn unfolding decimal_syntax_def by blast
  note chars = number_syntax_chars [OF t]
  have "trim_whitespace (ws @ (sign @ t) @ ws') = sign @ t"
    using chars sign by (intro trim_whitespace_text s) (auto simp: whitespace_def)
  then have trim: "trim_space s = sign @ t" using s by (simp add: trim_space_whitespace)
  define it where "it = (if starts_with (sign @ t) ''+'' then tl (sign @ t) else sign @ t)"
  have it: "neg \<Longrightarrow> it = CHR ''-'' # t" "\<not> neg \<Longrightarrow> it = t"
    using sign chars by (cases t; auto simp: it_def starts_with_def)+
  obtain k r where fc: "from_chars (int_min ty) (int_max ty) it = (k, r)" by (rule prod.exhaust)
  have lo: "int_min ty \<le> 0" using ty by (simp add: int_type_wf_def)
  obtain ex where ex: "exponent_syntax ex e" and scan: "scan_number (sign @ t) = scan_tail neg whole part ex"
    and wl: "length whole \<le> length t" and ne: "whole @ part \<noteq> []"
    by (rule scan_number_tail [OF t sign])
  have "length t + digits10 ty + 1 < max_size_t" using len s(1) by simp
  then have "length whole \<le> max_size_t" using wl by linarith
  note tail = scan_tail_exponent [OF ex ne this, of neg]
  show ?thesis
  proof (cases "k = length it \<and> r \<noteq> Fc_invalid")
    case True
    then have "from_chars (int_min ty) (int_max ty) it = (length it, r)" "r \<noteq> Fc_invalid" using fc by auto
    note r = from_chars_number [OF t lo it this]
    have "truncate_to ty (signed_value neg (decimal_number whole part e)) =
      (case r of Fc_parsed v \<Rightarrow> finish_value (C_integer v) (int_size ty) False | _ \<Rightarrow> conversion_error Numeric_value_out_of_range)"
      unfolding r(1) by (subst truncate_to_signed [where n = "decimal_value whole"]) (auto simp: r Let_def)
    then show ?thesis
      using True fc unfolding convert_integral_def Let_def trim it_def [symmetric] by simp
  next
    case False
    have dl: "length (whole @ part) \<le> length t" using t by (auto simp: number_syntax_def)
    have "convert_digits ty (scan_number (sign @ t)) = truncate_to ty (signed_value neg (decimal_number whole part e))"
      using convert_digits_exact [OF ty, of "scan_tail neg whole part ex" "int (length whole) + e"] tail(2) t
        \<open>length t + digits10 ty + 1 < max_size_t\<close> dl
      unfolding scan by (simp add: scan_tail_def Let_def number_syntax_def decimal_number_def)
    moreover have "(k = length it \<and> r \<noteq> Fc_invalid) = False" using False by blast
    ultimately show ?thesis
      using tail(1) unfolding convert_integral_def Let_def trim it_def [symmetric] fc prod.case scan by (simp only: if_True if_False)
  qed
qed

definition integer_target :: "c_type \<Rightarrow> int_type option" where
  "integer_target c = (case c of
       SQL_C_STINYINT \<Rightarrow> Some schar | SQL_C_TINYINT \<Rightarrow> Some schar | SQL_C_UTINYINT \<Rightarrow> Some uchar
     | SQL_C_SSHORT \<Rightarrow> Some smallint | SQL_C_SHORT \<Rightarrow> Some smallint | SQL_C_USHORT \<Rightarrow> Some usmallint
     | SQL_C_SLONG \<Rightarrow> Some integer_type | SQL_C_LONG \<Rightarrow> Some integer_type | SQL_C_ULONG \<Rightarrow> Some uinteger
     | SQL_C_SBIGINT \<Rightarrow> Some bigint | SQL_C_UBIGINT \<Rightarrow> Some ubigint | _ \<Rightarrow> None)"

lemma integer_target_dispatch:
  "integer_target c = Some ty \<Longrightarrow>
    convert_data lib wsz s c True buffer_length p sc = convert_integral lib ty s \<and> int_type_wf ty \<and> digits10 ty \<le> 19"
  by (cases c) (auto simp: integer_target_def convert_data_def canonical_c_type_def)

text \<open>
  C13: text is converted to integers exactly. For every decimal text, with blanks, sign, fraction and an exponent
  of any size, and every integer target type, the stored value is the number the text denotes, truncated
  towards zero; the conversion is an error exactly if that integer is outside the type's range, and a
  lost fraction is reported exactly if there was one. In particular no 64-bit value passes through a
  floating-point number, and the exponent's saturation never changes an outcome.
\<close>

theorem convert_data_integer_exact:
  assumes "integer_target c = Some ty" "decimal_syntax s neg whole part e" "length s < 2 ^ 63"
  shows "convert_data lib wsz s c True buffer_length p sc = truncate_to ty (signed_value neg (decimal_number whole part e))"
proof -
  note ty = integer_target_dispatch [OF assms(1), of lib wsz s buffer_length p sc]
  then have "length s + digits10 ty + 1 < max_size_t" using assms(3) by (auto simp: max_size_t_def)
  then show ?thesis using ty convert_integral_exact [OF _ assms(2)] by auto
qed

theorem convert_data_integer_exact_witness:
  "\<forall>lib. convert_data lib 2 '' -12.75e1 '' SQL_C_STINYINT True 1 0 0 =
     \<lparr>ret = SQL_SUCCESS_WITH_INFO, stored = Some (C_integer (- 127)), indicator = Some 1, issue = Fractional_truncation\<rparr>"
proof
  fix lib :: c_library
  have "exponent_syntax ''e1'' 1"
    using exponent_syntaxI [of "CHR ''e''" "''1''" "[]"] by (simp add: is_digit_def decimal_value_Cons digit_value_def)
  then have "number_syntax ''12.75e1'' ''12'' ''75'' 1"
    using number_syntaxI [of "''12''" "''75''" "''.75''" "''e1''" 1] by (simp add: is_digit_def)
  then have syn: "decimal_syntax '' -12.75e1 '' True ''12'' ''75'' 1"
    using decimal_syntaxI [of "'' ''" "'' ''" "''-''" True "''12.75e1''"] by (simp add: whitespace_def)
  have num: "decimal_number ''12'' ''75'' 1 = 1275 / 10"
    by (simp add: decimal_number_def decimal_value_Cons digit_value_def power_int_def)
  have "integer_target SQL_C_STINYINT = Some schar" by (simp add: integer_target_def)
  note exact = convert_data_integer_exact [OF this syn, of lib 2 1 0 0, unfolded num]
  have "truncate_to schar (signed_value True (1275 / 10)) =
    \<lparr>ret = SQL_SUCCESS_WITH_INFO, stored = Some (C_integer (- 127)), indicator = Some 1, issue = Fractional_truncation\<rparr>"
    by (subst truncate_to_signed [where n = 127])
      (simp_all add: Let_def int_min_def int_max_def schar_def finish_value_def floor_eq_iff)
  then show "convert_data lib 2 '' -12.75e1 '' SQL_C_STINYINT True 1 0 0 =
     \<lparr>ret = SQL_SUCCESS_WITH_INFO, stored = Some (C_integer (- 127)), indicator = Some 1, issue = Fractional_truncation\<rparr>"
    using exact by simp
qed


end
