(* ===== verification/NumericStruct.thy ===== *)
theory NumericStruct
  imports TextNumbers
begin

section \<open>Scaled numbers in the C layout\<close>

text \<open>
  \<^verbatim>\<open>SQL_NUMERIC_STRUCT\<close>: \<^verbatim>\<open>convert_numeric\<close> and \<^verbatim>\<open>format_numeric\<close> of \<^verbatim>\<open>odbc/text_data_converter.cpp\<close> are inverse. The
  16 bytes of a magnitude denote a number, least significant byte first; the two loops are shown to
  multiply and to divide that number by ten.
\<close>

fun le_value :: "nat list \<Rightarrow> nat" where
  "le_value [] = 0"
| "le_value (b # bs) = b + 256 * le_value bs"

abbreviation byte_list :: "nat list \<Rightarrow> bool" where
  "byte_list bs \<equiv> list_all (\<lambda>b. b < 256) bs"

lemma le_value_less: "byte_list bs \<Longrightarrow> le_value bs < 256 ^ length bs"
  by (induction bs) auto

lemma le_value_inject:
  "byte_list xs \<Longrightarrow> byte_list ys \<Longrightarrow> length xs = length ys \<Longrightarrow> le_value xs = le_value ys \<Longrightarrow> xs = ys"
proof (induction xs ys rule: list_induct2')
  case (4 x xs y ys)
  have "x = y" using arg_cong [OF 4(5), of "\<lambda>n. n mod 256"] 4(2,3) by simp
  then show ?case using 4 by simp
qed auto

lemma le_value_zero: "list_all (\<lambda>b. b = 0) bs \<longleftrightarrow> le_value bs = 0"
  by (induction bs) auto

lemma le_value_replicate [simp]: "le_value (replicate n 0) = 0"
  by (induction n) auto

lemma times_ten_value:
  "times_ten c bs = (bs', k) \<Longrightarrow>
    le_value bs' + 256 ^ length bs * k = 10 * le_value bs + c \<and> length bs' = length bs \<and> byte_list bs'"
proof (induction bs arbitrary: c bs' k)
  case (Cons b bs)
  define q r where "q = (b * 10 + c) div 256" and "r = (b * 10 + c) mod 256"
  have p: "b * 10 + c = 256 * q + r" "r < 256" by (simp_all add: q_def r_def)
  obtain bs'' where t: "times_ten q bs = (bs'', k)" and bs': "bs' = r # bs''"
    using Cons.prems by (auto simp: Let_def q_def r_def split: prod.splits)
  then show ?case using Cons.IH [OF t] p by (simp add: algebra_simps)
qed simp

lemma pack_digits_value:
  assumes "list_all is_digit ds" "byte_list val" "le_value val * 10 ^ length ds + decimal_value ds < 256 ^ length val"
  shows "\<exists>val'. pack_digits val ds = Some val' \<and> length val' = length val \<and> byte_list val' \<and>
    le_value val' = le_value val * 10 ^ length ds + decimal_value ds"
  using assms
proof (induction ds arbitrary: val)
  case (Cons d ds)
  obtain val' k where t: "times_ten (digit_value d) val = (val', k)" by (rule prod.exhaust)
  note v = times_ten_value [OF t]
  let ?n = "10 * le_value val + digit_value d"
  have total: "le_value val * 10 ^ length (d # ds) + decimal_value (d # ds) = ?n * 10 ^ length ds + decimal_value ds"
    by (simp add: decimal_value_Cons algebra_simps)
  have "?n \<le> ?n * 10 ^ length ds + decimal_value ds" by (rule trans_le_add1) simp
  then have "?n < 256 ^ length val" using Cons.prems(3) unfolding total by (rule order.strict_trans1)
  then have k: "k = 0" using v by (cases k) auto
  with v have "le_value val' = ?n" by simp
  then show ?case using Cons.IH [of val'] Cons.prems t v k unfolding total by simp
qed simp

lemma div_ten_value:
  "byte_list bs \<Longrightarrow> div_ten bs = (bs', r) \<Longrightarrow>
    r < 10 \<and> le_value bs = 10 * le_value bs' + r \<and> length bs' = length bs \<and> byte_list bs'"
proof (induction bs arbitrary: bs' r)
  case (Cons b bs)
  obtain bs'' q where t: "div_ten bs = (bs'', q)" by (rule prod.exhaust)
  define d where "d = (q * 256 + b) div 10"
  have bs': "bs' = d # bs''" and r: "r = (q * 256 + b) mod 10" using Cons.prems t by (auto simp: Let_def d_def)
  have p: "q * 256 + b = 10 * d + r" "r < 10" by (simp_all add: d_def r)
  have ih: "q < 10" "le_value bs = 10 * le_value bs'' + q" "length bs'' = length bs" "byte_list bs''"
    using Cons.IH [OF _ t] Cons.prems by auto
  have "b < 256" using Cons.prems by simp
  then have "d < 256" using p ih(1) by linarith
  then show ?case using ih bs' p by (simp add: algebra_simps)
qed simp

lemma to_string_snoc: "to_string (10 * n + d) = (if n = 0 then [digit_char d] else to_string n @ [digit_char d])" if "d < 10"
  using that by (subst to_string.simps) auto

lemma numeric_digits_value:
  "byte_list m \<Longrightarrow> length ds \<le> p \<Longrightarrow>
    numeric_digits p m ds =
      (if le_value m < 10 ^ (p - length ds) then Some (ds @ (if le_value m = 0 then [] else rev (to_string (le_value m))))
       else None)"
proof (induction p m ds rule: numeric_digits.induct)
  case (1 p m ds)
  show ?case
  proof (cases "le_value m = 0")
    case True
    then show ?thesis by (subst numeric_digits.simps) (simp add: le_value_zero)
  next
    case False
    obtain m' r where t: "div_ten m = (m', r)" by (rule prod.exhaust)
    note v = div_ten_value [OF 1(2) t]
    have nz: "\<not> list_all (\<lambda>b. b = 0) m" using False by (simp add: le_value_zero)
    show ?thesis
    proof (cases "length ds = p")
      case True
      then show ?thesis using False t nz by (subst numeric_digits.simps) simp
    next
      case ne: False
      then obtain k where k: "p - length ds = Suc k" "p - Suc (length ds) = k" using 1(3) by (cases "p - length ds") auto
      have "numeric_digits p m ds = numeric_digits p m' (ds @ [digit_char r])"
        using ne t nz 1(3) by (subst numeric_digits.simps) simp
      also have "\<dots> = (if le_value m' < 10 ^ k
          then Some ((ds @ [digit_char r]) @ (if le_value m' = 0 then [] else rev (to_string (le_value m')))) else None)"
        using 1(1) [OF nz t [symmetric] refl] ne v 1(3) k by simp
      also have "le_value m' < 10 ^ k \<longleftrightarrow> le_value m < 10 ^ (p - length ds)" using v k by auto
      finally show ?thesis using v False to_string_snoc [of r "le_value m'"] by auto
    qed
  qed
qed

subsection \<open>The round trip\<close>

lemma digit_char_0: "digit_char 0 = CHR ''0''"
  using digit_char_digit_value [of "CHR ''0''"] by (simp add: digit_value_def)

lemma to_string_length: "n < 10 ^ p \<Longrightarrow> 1 \<le> p \<Longrightarrow> length (to_string n) \<le> p"
proof (induction p arbitrary: n)
  case (Suc p)
  show ?case
  proof (cases "n < 10")
    case False
    then have "1 \<le> p" using Suc.prems(1) by (cases p) auto
    moreover have "n div 10 < 10 ^ p" using Suc.prems(1) by (simp add: less_mult_imp_div_less mult.commute)
    ultimately show ?thesis using Suc.IH [of "n div 10"] False by (subst to_string.simps) simp
  qed (subst to_string.simps, simp)
qed simp

lemma significant_length: "length (significant_digits (to_string n)) \<le> length (to_string n)"
  using length_dropWhile_le [of "\<lambda>c. c = CHR ''0''" "to_string n"] by (cases "to_string n") (auto simp: significant_digits_def Let_def)

lemma decimal_text_length:
  assumes "n < 10 ^ p" "1 \<le> p" "sc \<le> int p"
  shows "length (decimal_text \<lparr>coefficient = to_string n, scale = sc, negative = neg\<rparr>) \<le> p + nat (- sc) + 3"
proof -
  define ds ps ns where "ds = significant_digits (to_string n)" and "ps = nat sc" and "ns = nat (- sc)"
  have "length ds \<le> p" unfolding ds_def
    using to_string_length [OF assms(1,2)] significant_length [of n] by linarith
  moreover have "ps \<le> p" using assms(3) by (simp add: ps_def)
  ultimately show ?thesis
    unfolding decimal_text_def Let_def scaled_decimal.simps ds_def [symmetric] ps_def [symmetric] ns_def [symmetric]
    by (cases "ps = 0"; cases "length ds \<le> ps") simp_all
qed

definition numeric_bounds :: "sql_numeric \<Rightarrow> int \<Rightarrow> int \<Rightarrow> bool" where
  "numeric_bounds num p sc \<longleftrightarrow>
     1 \<le> p \<and> p \<le> 38 \<and> - 128 \<le> sc \<and> sc \<le> p \<and> num_sign num \<le> 1 \<and> length (num_val num) = 16 \<and> byte_list (num_val num)"

lemma format_numeric_text:
  assumes "numeric_bounds num p sc"
  shows "format_numeric num p sc =
    (if le_value (num_val num) < 10 ^ nat p
     then (Some (decimal_text \<lparr>coefficient = to_string (le_value (num_val num)), scale = sc, negative = (num_sign num = 0)\<rparr>),
           No_issue)
     else (None, Numeric_value_out_of_range))"
proof -
  let ?v = "le_value (num_val num)"
  have b: "\<not> (p < 1 \<or> 38 < p \<or> sc < -128 \<or> p < sc \<or> 1 < num_sign num)" "1 \<le> nat p" "sc \<le> int (nat p)"
    and bytes: "byte_list (num_val num)"
    using assms by (auto simp: numeric_bounds_def)
  have z: "to_string 0 = ''0''" by (subst to_string.simps) (simp add: digit_char_0)
  have coeff: "(if (if ?v = 0 then [] else rev (to_string ?v)) = [] then ''0''
      else rev (if ?v = 0 then [] else rev (to_string ?v))) = to_string ?v" by (simp add: z)
  show ?thesis
    using decimal_text_length [OF _ b(2,3), of ?v "num_sign num = 0"]
    unfolding format_numeric_def numeric_digits_value [OF bytes, of "[]", simplified] if_not_P [OF b(1)]
    by (simp add: coeff format_scaled_decimal_text)
qed

lemma convert_numeric_text:
  assumes "numeric_bounds num p sc" "le_value (num_val num) < 10 ^ nat p"
  shows "convert_numeric (decimal_text \<lparr>coefficient = to_string (le_value (num_val num)), scale = sc, negative = (num_sign num = 0)\<rparr>) p sc =
    finish_value (C_numeric \<lparr>num_precision = nat p, num_scale = sc,
      num_sign = if le_value (num_val num) = 0 then 1 else num_sign num, num_val = num_val num\<rparr>) 19 False"
proof -
  let ?v = "le_value (num_val num)"
  let ?d = "\<lparr>coefficient = to_string ?v, scale = sc, negative = (num_sign num = 0)\<rparr>"
  have b: "\<not> (p < 1 \<or> 38 < p \<or> sc < -128 \<or> p < sc)" "1 \<le> nat p" "sc \<le> int (nat p)" "nat p \<le> safe_size" "\<bar>sc\<bar> \<le> int safe_size"
    and bytes: "byte_list (num_val num)" "length (num_val num) = 16" and sign: "num_sign num \<le> 1"
    using assms(1) by (auto simp: numeric_bounds_def safe_size_def)
  note len = decimal_text_length [OF assms(2) b(2,3), of "num_sign num = 0"]
  moreover have "nat p \<le> 38" "nat (- sc) \<le> 128" using assms(1) by (auto simp: numeric_bounds_def)
  ultimately have "length (decimal_text ?d) \<le> 169" by linarith
  then have safe: "length (decimal_text ?d) \<le> safe_size" by (simp add: safe_size_def)
  have printed: "format_scaled_decimal ?d (nat p + nat (- sc) + 3) = Some (decimal_text ?d)"
    using len by (simp add: format_scaled_decimal_text)
  have read: "rescale_decimal (decimal_text ?d) (nat p) sc =
      (Some \<lparr>coefficient = to_string ?v, scale = sc, negative = (num_sign num = 0) \<and> ?v \<noteq> 0\<rparr>, Issue_None)"
    using rescale_printed [OF printed, of "nat p"] assms(2) safe b by simp
  have zeros: "byte_list (replicate 16 0)" by (simp add: list_all_length)
  have "?v < 256 ^ 16" using le_value_less [OF bytes(1)] bytes(2) by simp
  then obtain val where pack: "pack_digits (replicate 16 0) (to_string ?v) = Some val" "length val = 16" "byte_list val" "le_value val = ?v"
    using pack_digits_value [OF to_string_digits zeros, of ?v] by auto
  then have "val = num_val num" using le_value_inject [of val "num_val num"] bytes by simp
  then show ?thesis
    using pack(1) sign unfolding convert_numeric_def if_not_P [OF b(1)] read by (auto simp: le_Suc_eq)
qed

text \<open>
  C15: scaled numbers in the C layout and their text are inverse. For every sign and 16-byte magnitude, a
  precision of 1 to 38 and a scale from -128 to the precision, printing succeeds exactly if the magnitude has at most
  \<open>p\<close> digits, and reading the text at the same precision and scale gives the same 16 bytes and sign back,
  without an issue; only zero loses its sign.
\<close>

theorem numeric_struct_roundtrip:
  assumes "numeric_bounds num p sc"
  shows "if le_value (num_val num) < 10 ^ nat p
    then \<exists>t. format_numeric num p sc = (Some t, No_issue) \<and>
      convert_numeric t p sc = finish_value (C_numeric \<lparr>num_precision = nat p, num_scale = sc,
        num_sign = if le_value (num_val num) = 0 then 1 else num_sign num, num_val = num_val num\<rparr>) 19 False
    else format_numeric num p sc = (None, Numeric_value_out_of_range)"
  using format_numeric_text [OF assms] convert_numeric_text [OF assms] by simp

theorem numeric_struct_roundtrip_witness:
  "\<exists>t. format_numeric \<lparr>num_precision = 0, num_scale = 0, num_sign = 0, num_val = 57 # 48 # replicate 14 0\<rparr> 5 2 = (Some t, No_issue) \<and>
     convert_numeric t 5 2 = finish_value (C_numeric \<lparr>num_precision = 5, num_scale = 2, num_sign = 0,
       num_val = 57 # 48 # replicate 14 0\<rparr>) 19 False"
  using numeric_struct_roundtrip [of "\<lparr>num_precision = 0, num_scale = 0, num_sign = 0, num_val = 57 # 48 # replicate 14 0\<rparr>" 5 2]
  by (simp add: numeric_bounds_def list_all_iff)

end
