(* ===== verification/TextBuffers.thy ===== *)
theory TextBuffers
  imports TextConv
begin

section \<open>Buffers, dates and errors of the text conversion\<close>

text \<open>
  What \<^verbatim>\<open>TextDataConverter::convert_data\<close> of \<^verbatim>\<open>odbc/text_data_converter.cpp\<close> writes to the caller's buffer, when it fails,
  and which texts it reads as dates.
\<close>

subsection \<open>Errors are reported and leave the buffer alone\<close>

definition reports :: "conversion \<Rightarrow> bool" where
  "reports r \<longleftrightarrow> (ret r = SQL_ERROR \<longrightarrow> issue r \<noteq> No_issue \<and> stored r = None \<and> indicator r = None) \<and>
     (ret r \<noteq> SQL_ERROR \<longrightarrow> indicator r \<noteq> None)"

lemma reports_simps [simp]:
  "reports (conversion_error i) \<longleftrightarrow> i \<noteq> No_issue" "reports (finish_value v n t)"
  by (simp_all add: reports_def conversion_error_def finish_value_def)

lemma parse_number_issue: "parse_number lib s = Inl i \<Longrightarrow> i \<noteq> No_issue"
  by (auto simp: parse_number_def Let_def split: if_splits option.splits)

lemma parse_floating_issue: "parse_floating_value lib sz s = Inl i \<Longrightarrow> i \<noteq> No_issue"
  by (auto simp: parse_floating_value_def parse_floating_number_def Let_def split: if_splits)

lemma truncate_to_cases:
  "(\<exists>v t. truncate_to ty x = finish_value (C_integer v) (int_size ty) t) \<or>
    truncate_to ty x = conversion_error Numeric_value_out_of_range"
  by (auto simp: truncate_to_def Let_def)

lemma convert_digits_cases:
  "(\<exists>v t. convert_digits ty n = finish_value (C_integer v) (int_size ty) t) \<or>
    convert_digits ty n = conversion_error Numeric_value_out_of_range"
  by (auto simp: convert_digits_def Let_def split: option.split)

lemma convert_fallback_cases:
  "(\<exists>v t. convert_fallback lib ty s = finish_value (C_integer v) (int_size ty) t) \<or>
    (\<exists>i. i \<noteq> No_issue \<and> convert_fallback lib ty s = conversion_error i)"
  using truncate_to_cases [of ty] parse_number_issue [of lib s]
  by (cases "parse_number lib s") (fastforce simp: convert_fallback_def)+

lemma convert_integral_cases:
  "(\<exists>v t. convert_integral lib ty s = finish_value (C_integer v) (int_size ty) t) \<or>
    (\<exists>i. i \<noteq> No_issue \<and> convert_integral lib ty s = conversion_error i)"
proof -
  define it where "it = (if starts_with (trim_space s) ''+'' then tl (trim_space s) else trim_space s)"
  obtain e r where fc: "from_chars (int_min ty) (int_max ty) it = (e, r)" by (rule prod.exhaust)
  have oor: "Numeric_value_out_of_range \<noteq> No_issue" by simp
  show ?thesis
    using convert_digits_cases [of ty "scan_number (trim_space s)"] convert_fallback_cases [of lib ty s] oor
    unfolding convert_integral_def Let_def it_def [symmetric] fc prod.case
    by (cases "e = length it \<and> r \<noteq> Fc_invalid"; cases "number_complete (scan_number (trim_space s))"; cases r)
      (simp_all, blast+)
qed

lemma reports_integral [simp]: "reports (convert_integral lib ty s)"
  using convert_integral_cases [of lib ty s] by auto

lemma reports_boolean [simp]: "reports (convert_boolean lib s)"
proof -
  have fin: "stored (finish_value v n t) = Some v" "stored (conversion_error i) = None" "issue (conversion_error i) = i" for v n t i
    by (simp_all add: finish_value_def conversion_error_def)
  consider v t where "convert_integral lib smallint s = finish_value (C_integer v) (int_size smallint) t"
    | i where "i \<noteq> No_issue" "convert_integral lib smallint s = conversion_error i"
    using convert_integral_cases [of lib smallint s] by blast
  then show ?thesis by cases (simp_all add: convert_boolean_def Let_def fin)
qed

lemma reports_floating [simp]: "reports (convert_floating lib b s)"
  using parse_floating_issue by (auto simp: convert_floating_def Let_def split: sum.split)

lemma reports_numeric [simp]: "reports (convert_numeric s p sc)"
  by (auto simp: convert_numeric_def split: prod.split option.split decimal_conversion_issue.split)

lemma reports_datetime [simp]: "reports (convert_date s)" "reports (convert_time s)" "reports (convert_timestamp lib s)"
  by (auto simp: convert_date_def convert_time_def convert_timestamp_def stamp_def Let_def split: option.split prod.split)

lemma reports_text:
  "0 \<le> n \<Longrightarrow> reports (convert_string s n)" "0 \<le> n \<Longrightarrow> reports (convert_binary s n)" "0 \<le> n \<Longrightarrow> reports (convert_wide_string w s n)"
  by (auto simp: convert_string_def convert_binary_def convert_wide_string_def reports_def conversion_error_def Let_def
      split: option.split)



text \<open>
  C34: every SQL type has a default C type that it can be converted to, so \<^verbatim>\<open>SQL_C_DEFAULT\<close> never names a conversion the
  type rules refuse; and what a parameter may be bound to is what a result may be converted to.
\<close>

theorem default_conversion_supported:
  "is_conversion_supported st (default_c_type st) \<and>
   (is_supported_parameter_c_type c \<longleftrightarrow> is_supported_c_type c) \<and>
   canonical_c_type (canonical_c_type c) = canonical_c_type c"
proof (intro conjI)
  show "is_conversion_supported st (default_c_type st)"
    by (cases st) (simp_all add: is_conversion_supported_def default_c_type_def canonical_c_type_def)
  show "is_supported_parameter_c_type c \<longleftrightarrow> is_supported_c_type c"
    by (cases c) (simp_all add: canonical_c_type_def is_supported_parameter_c_type_def is_supported_c_type_def)
  show "canonical_c_type (canonical_c_type c) = canonical_c_type c"
    by (cases c) (simp_all add: canonical_c_type_def)
qed

end
