(* ===== verification/TextDates.thy ===== *)
theory TextDates
  imports TextConv
begin

section \<open>Dates and truncated strings\<close>

text \<open>
  The texts \<^verbatim>\<open>parse_date\<close> of \<^verbatim>\<open>odbc/text_data_converter.cpp\<close> reads, and what its string conversions write to a buffer that is
  too small.
\<close>

subsection \<open>Fixed-width digits\<close>

fun fixed_digits :: "nat \<Rightarrow> nat \<Rightarrow> string" where
  "fixed_digits 0 v = []"
| "fixed_digits (Suc n) v = fixed_digits n (v div 10) @ [digit_char (v mod 10)]"

lemma length_fixed_digits [simp]: "length (fixed_digits n v) = n"
  by (induction n v rule: fixed_digits.induct) simp_all

lemma fixed_digits_iff:
  "length ds = n \<Longrightarrow> list_all is_digit ds \<and> decimal_value ds = v \<longleftrightarrow> v < 10 ^ n \<and> ds = fixed_digits n v"
proof (induction n arbitrary: ds v)
  case (Suc n)
  then obtain c es where ds: "ds = es @ [c]" "length es = n" by (cases ds rule: rev_cases) auto
  have "list_all is_digit ds \<and> decimal_value ds = v \<longleftrightarrow>
      (list_all is_digit es \<and> decimal_value es = v div 10) \<and> c = digit_char (v mod 10)"
  proof
    assume l: "list_all is_digit ds \<and> decimal_value ds = v"
    then have "digit_value c < 10" "v = 10 * decimal_value es + digit_value c" using ds by auto
    then show "(list_all is_digit es \<and> decimal_value es = v div 10) \<and> c = digit_char (v mod 10)"
      using l ds by auto
  next
    assume r: "(list_all is_digit es \<and> decimal_value es = v div 10) \<and> c = digit_char (v mod 10)"
    then show "list_all is_digit ds \<and> decimal_value ds = v" using ds by simp
  qed
  also have "\<dots> \<longleftrightarrow> v div 10 < 10 ^ n \<and> es = fixed_digits n (v div 10) \<and> c = digit_char (v mod 10)"
    using Suc.IH [OF ds(2)] by blast
  also have "v div 10 < 10 ^ n \<longleftrightarrow> v < 10 ^ Suc n" by (simp add: div_less_iff_less_mult mult.commute)
  finally show ?case using ds by auto
qed auto

lemma parse_digits_iff:
  "parse_digits s off n = Some v \<longleftrightarrow> off + n \<le> length s \<and> v < 10 ^ n \<and> take n (drop off s) = fixed_digits n v"
  using fixed_digits_iff [of "take n (drop off s)" n v] by (auto simp: parse_digits_def Let_def)

definition date_text :: "nat \<Rightarrow> nat \<Rightarrow> nat \<Rightarrow> string" where
  "date_text year month day = fixed_digits 4 year @ ''-'' @ fixed_digits 2 month @ ''-'' @ fixed_digits 2 day"

lemma date_layout:
  assumes "length s = 10"
  shows "s = take 4 s @ [s ! 4] @ take 2 (drop 5 s) @ [s ! 7] @ take 2 (drop 8 s)"
proof -
  have "s = take 4 s @ drop 4 s" by simp
  also have "drop 4 s = s ! 4 # drop 5 s" using assms Cons_nth_drop_Suc [of 4 s] by simp
  also have "drop 5 s = take 2 (drop 5 s) @ drop 7 s" using append_take_drop_id [of 2 "drop 5 s"] by simp
  also have "drop 7 s = s ! 7 # drop 8 s" using assms Cons_nth_drop_Suc [of 7 s] by simp
  also have "drop 8 s = take 2 (drop 8 s)" using assms by simp
  finally show ?thesis by simp
qed

lemma date_text_parts:
  "length (date_text y m d) = 10" "take 4 (date_text y m d) = fixed_digits 4 y" "date_text y m d ! 4 = CHR ''-''"
  "take 2 (drop 5 (date_text y m d)) = fixed_digits 2 m" "date_text y m d ! 7 = CHR ''-''"
  "take 2 (drop 8 (date_text y m d)) = fixed_digits 2 d"
  by (simp_all add: date_text_def nth_append)

lemma parse_date_iff:
  "parse_date s = Some (y, m, d) \<longleftrightarrow> valid_date y m d \<and> y < 10000 \<and> s = date_text y m d"
proof
  assume "parse_date s = Some (y, m, d)"
  then have len: "length s = 10" "s ! 4 = CHR ''-''" "s ! 7 = CHR ''-''" and v: "valid_date y m d"
    and ds: "parse_digits s 0 4 = Some y" "parse_digits s 5 2 = Some m" "parse_digits s 8 2 = Some d"
    by (auto simp: parse_date_def split: if_splits option.splits)
  note parts = ds [unfolded parse_digits_iff]
  have "s = date_text y m d"
    using date_layout [OF len(1)] parts len by (simp add: date_text_def)
  then show "valid_date y m d \<and> y < 10000 \<and> s = date_text y m d" using v parts by simp
next
  assume r: "valid_date y m d \<and> y < 10000 \<and> s = date_text y m d"
  have "m \<le> 12" "d \<le> 32"
  proof -
    show "m \<le> 12" using r by (simp add: valid_date_def)
    have "\<forall>x \<in> set days_per_month. x \<le> 31" "length days_per_month = 12" by (simp_all add: days_per_month_def)
    moreover have "m - 1 < 12" using r by (auto simp: valid_date_def)
    ultimately have "days_per_month ! (m - 1) \<le> 31" using nth_mem by metis
    then show "d \<le> 32" using r by (auto simp: valid_date_def split: if_splits)
  qed
  then have "parse_digits s 0 4 = Some y" "parse_digits s 5 2 = Some m" "parse_digits s 8 2 = Some d"
    using r date_text_parts [of y m d] by (simp_all add: parse_digits_iff)
  then show "parse_date s = Some (y, m, d)"
    using r date_text_parts [of y m d] by (simp add: parse_date_def)
qed


subsection \<open>Truncated strings\<close>

definition high_unit :: "nat \<Rightarrow> bool" where
  "high_unit u \<longleftrightarrow> 0xd800 \<le> u \<and> u \<le> 0xdbff"

lemma wide_units_cases:
  assumes "scalar cp"
  obtains u where "wide_units w cp = [u]" "w = 2 \<Longrightarrow> \<not> high_unit u"
    | u v where "w = 2" "wide_units w cp = [u, v]" "high_unit u" "\<not> high_unit v"
proof (cases "w = 2 \<and> 0xffff < cp")
  case True
  have "cp - 0x10000 < 0x100000" using assms True by (auto simp: scalar_def)
  then have "drop_bit 10 (cp - 0x10000) < 1024" by (simp add: drop_bit_eq_div div_less_iff_less_mult)
  then show ?thesis using True
    by (intro that(2) [of "0xd800 + drop_bit 10 (cp - 0x10000)" "0xdc00 + (cp - 0x10000 AND 0x3ff)"])
      (auto simp: wide_units_def high_unit_def)
next
  case False
  then show ?thesis using assms by (intro that(1) [of cp]) (auto simp: wide_units_def high_unit_def scalar_def)
qed

lemma wide_prefix:
  assumes "\<forall>cp \<in> set cps. scalar cp" "0 < n" "n \<le> length (wide_text w cps)"
  shows "if w = 2 \<and> high_unit (wide_text w cps ! (n - 1)) then \<exists>k. take (n - 1) (wide_text w cps) = wide_text w (take k cps)
    else \<exists>k. take n (wide_text w cps) = wide_text w (take k cps)"
  using assms
proof (induction cps arbitrary: n)
  case (Cons cp cps)
  let ?u = "wide_units w cp" and ?r = "wide_text w cps"
  have lift: "\<exists>k. take (m - length ?u) ?r = wide_text w (take k cps) \<Longrightarrow> length ?u \<le> m \<Longrightarrow>
      \<exists>k. take m (?u @ ?r) = wide_text w (take k (cp # cps))" for m
  proof -
    assume "\<exists>k. take (m - length ?u) ?r = wide_text w (take k cps)" and m: "length ?u \<le> m"
    then obtain k where "take (m - length ?u) ?r = wide_text w (take k cps)" by blast
    then show ?thesis using m by (intro exI [of _ "Suc k"]) simp
  qed
  have sc: "scalar cp" using Cons.prems(1) by simp
  have ih: "if w = 2 \<and> high_unit (?r ! (m - 1)) then \<exists>k. take (m - 1) ?r = wide_text w (take k cps)
      else \<exists>k. take m ?r = wide_text w (take k cps)" if "0 < m" "m \<le> length ?r" for m
    by (rule Cons.IH [OF _ that]) (use Cons.prems(1) in simp)
  have nil: "\<exists>k. take 0 xs = wide_text w (take k ys)" for xs ys by (rule exI [of _ 0]) simp
  have step: ?case if "length ?u < n"
  proof -
    let ?m = "n - length ?u"
    have m: "0 < ?m" "?m \<le> length ?r" using that Cons.prems(3) by simp_all
    have nth: "wide_text w (cp # cps) ! (n - 1) = ?r ! (?m - 1)"
    proof -
      have "n - 1 = length ?u + (?m - 1)" using that by linarith
      then show ?thesis by (simp only: list.map concat.simps nth_append_length_plus)
    qed
    show ?thesis
    proof (cases "w = 2 \<and> high_unit (?r ! (?m - 1))")
      case True
      have e: "\<exists>k. take (n - 1 - length ?u) ?r = wide_text w (take k cps)"
        using ih [OF m] unfolding if_P [OF True] diff_commute [of n 1] .
      show ?thesis unfolding nth if_P [OF True] unfolding list.map concat.simps by (rule lift [OF e]) (use that in linarith)
    next
      case False
      have e: "\<exists>k. take (n - length ?u) ?r = wide_text w (take k cps)" using ih [OF m] unfolding if_not_P [OF False] .
      show ?thesis unfolding nth if_not_P [OF False] unfolding list.map concat.simps by (rule lift [OF e]) (use that in linarith)
    qed
  qed
  from sc show ?case
  proof (cases rule: wide_units_cases [where w = w])
    case (1 u)
    then show ?thesis
      using step lift [of 1] nil [of ?r cps] Cons.prems(2) by (cases "n = 1"; cases "w = 2") auto
  next
    case (2 u v)
    consider "n = 1" | "n = 2" | "2 < n" using Cons.prems(2) by linarith
    then show ?thesis
    proof cases
      case 1
      then show ?thesis using 2 nil [of "?u @ ?r" "cp # cps"] by simp
    next
      case n: 2
      then show ?thesis using 2 lift [of 2] nil [of ?r cps] by simp
    next
      case 3
      then show ?thesis using 2 step by simp
    qed
  qed
qed simp

lemma wide_copy_length_inner:
  "0 < cap \<Longrightarrow> cap < length u \<Longrightarrow>
    wide_copy_length w u cap = (if w = 2 \<and> high_unit (u ! (cap - 1)) then cap - 1 else cap)"
  by (simp add: wide_copy_length_def Let_def high_unit_def min_def)

lemma wide_copy_whole:
  assumes "\<forall>cp \<in> set cps. scalar cp"
  shows "\<exists>k. take (wide_copy_length w (wide_text w cps) cap) (wide_text w cps) = wide_text w (take k cps)"
proof -
  let ?u = "wide_text w cps" and ?n = "min cap (length (wide_text w cps))"
  consider "?n = 0" | "?n = length ?u" | "0 < ?n" "?n < length ?u" by linarith
  then show ?thesis
  proof cases
    case 1
    then show ?thesis by (intro exI [of _ 0]) (auto simp: wide_copy_length_def Let_def)
  next
    case 2
    then show ?thesis by (intro exI [of _ "length cps"]) (simp add: wide_copy_length_def Let_def)
  next
    case 3
    then have cap: "0 < cap" "cap < length ?u" by linarith+
    then show ?thesis
      using wide_prefix [OF assms, of cap w] unfolding wide_copy_length_inner [OF cap] by (auto split: if_splits)
  qed
qed

lemma wide_copy_length_le: "wide_copy_length w u cap \<le> cap" "wide_copy_length w u cap \<le> length u"
  by (auto simp: wide_copy_length_def Let_def)

text \<open>
  C20: a wide string is cut only between characters. Whatever the buffer's size, what is stored is the units of the first
  characters of the text and a terminator, within the buffer; a surrogate pair is never split, and the conversion
  succeeds without a notice exactly if all characters are stored.
\<close>

theorem wide_string_whole_characters:
  assumes "w \<in> {2, 4}" "stored (convert_wide_string w s n) = Some (C_wchar us)"
  shows "\<exists>cps k. (\<forall>cp \<in> set cps. scalar cp) \<and> s = utf8_text cps \<and> us = wide_text w (take k cps) @ [0] \<and>
    int (w * length us) \<le> n \<and> (ret (convert_wide_string w s n) = SQL_SUCCESS \<longleftrightarrow> us = wide_text w cps @ [0])"
proof -
  obtain wide where wide: "utf8_to_wide w s = Some wide" and n: "0 \<le> n" "nat n div w \<noteq> 0"
    and us: "us = take (wide_copy_length w wide (nat n div w - 1)) wide @ [0]"
    using assms(2)
    by (auto simp: convert_wide_string_def conversion_error_def Let_def split: if_splits option.splits)
  obtain cps where cps: "\<forall>cp \<in> set cps. scalar cp" "s = utf8_text cps" "wide = wide_text w cps"
    using wide unfolding utf8_to_wide_iff [OF assms(1)] by blast
  obtain k where k: "us = wide_text w (take k cps) @ [0]"
    using wide_copy_whole [OF cps(1), of w "nat n div w - 1"] us cps(3) by metis
  let ?l = "wide_copy_length w wide (nat n div w - 1)"
  have l: "?l \<le> nat n div w - 1" "?l \<le> length wide" by (rule wide_copy_length_le)+
  have "length us = ?l + 1" using us l(2) by simp
  then have "length us \<le> nat n div w" using l(1) n(2) by linarith
  then have "w * length us \<le> w * (nat n div w)" by (rule mult_le_mono2)
  also have "\<dots> \<le> nat n" by simp
  finally have size: "int (w * length us) \<le> n" using n(1) by linarith
  have "ret (convert_wide_string w s n) = SQL_SUCCESS \<longleftrightarrow> \<not> ?l < length wide"
    using wide n by (simp add: convert_wide_string_def Let_def)
  also have "\<dots> \<longleftrightarrow> us = wide @ [0]" using us l(2) by (auto simp: not_less)
  finally show ?thesis using cps k size by blast
qed

theorem wide_string_whole_characters_witness:
  "stored (convert_wide_string 2 (utf8_text [0x41, 0x1F600]) 7) = Some (C_wchar [0x41, 0]) \<and>
   (\<exists>cps k. (\<forall>cp \<in> set cps. scalar cp) \<and> utf8_text [0x41, 0x1F600] = utf8_text cps \<and> [0x41, 0] = wide_text 2 (take k cps) @ [0] \<and>
    int (2 * length [0x41, 0 :: nat]) \<le> 7 \<and>
    (ret (convert_wide_string 2 (utf8_text [0x41, 0x1F600]) 7) = SQL_SUCCESS \<longleftrightarrow> [0x41, 0] = wide_text 2 cps @ [0]))"
proof -
  have "utf8_to_wide 2 (utf8_text [0x41, 0x1F600]) = Some (wide_text 2 [0x41, 0x1F600])"
    by (subst utf8_to_wide_iff, simp, rule exI [of _ "[0x41, 0x1F600]"]) (simp add: scalar_def)
  then have wide: "utf8_to_wide 2 (utf8_text [0x41, 0x1F600]) = Some [0x41, 0xD83D, 0xDE00]"
    by (simp only: grinning_units)
  have "stored (convert_wide_string 2 (utf8_text [0x41, 0x1F600]) 7) = Some (C_wchar [0x41, 0])"
    unfolding convert_wide_string_def wide by (simp add: wide_copy_length_def Let_def)
  with wide_string_whole_characters [OF _ this] show ?thesis by simp
qed

end
