(* ===== verification/MysqlWire.thy ===== *)
theory MysqlWire
  imports PgTypes
begin

section \<open>MySQL wire formats\<close>

text \<open>
  The codecs under \<^verbatim>\<open>core/database/mysql\<close>: the packet decoder and the greeting of the connection phase
  (\<^verbatim>\<open>handshake_wire.h\<close>), error packets (\<^verbatim>\<open>error_wire.h\<close>), and the cells and parameters of dates, times and
  decimals (\<^verbatim>\<open>date_wire.h\<close>, \<^verbatim>\<open>time_wire.h\<close>, \<^verbatim>\<open>datetime_wire.h\<close>, \<^verbatim>\<open>decimal_wire.h\<close>, \<^verbatim>\<open>date_parameter_wire.h\<close>,
  \<^verbatim>\<open>datetime_parameter_wire.h\<close>). A rejected value is an error code.
\<close>

definition little_endian :: "bytes \<Rightarrow> nat" where
  "little_endian bs = foldr (\<lambda>b n. u8 b + 256 * n) bs 0"

fun little_bytes :: "nat \<Rightarrow> nat \<Rightarrow> bytes" where
  "little_bytes 0 n = []"
| "little_bytes (Suc k) n = char_of (n mod 256) # little_bytes k (n div 256)"

lemma little_endian_bytes: "n < 256 ^ k \<Longrightarrow> little_endian (little_bytes k n) = n"
proof (induction k arbitrary: n)
  case (Suc k)
  then have "n div 256 < 256 ^ k" by (simp add: less_mult_imp_div_less mult.commute)
  from Suc.IH [OF this] show ?case by (simp add: little_endian_def)
qed (simp add: little_endian_def)

lemma length_little_bytes [simp]: "length (little_bytes k n) = k"
  by (induction k n rule: little_bytes.induct) simp_all

subsection \<open>Packets\<close>

record packet_decoder =
  pd_header :: bytes
  pd_length :: "nat option"
  pd_payload :: bytes
  pd_sequence :: nat
  pd_limit :: nat
  pd_terminal :: bool

definition packet_failure :: "packet_decoder \<Rightarrow> db_error_code \<Rightarrow> packet_decoder \<times> (db_error_code + nat \<times> bytes option)" where
  "packet_failure d code = (d\<lparr>pd_terminal := True, pd_payload := []\<rparr>, Inl code)"

definition feed_payload :: "packet_decoder \<Rightarrow> nat \<Rightarrow> nat \<Rightarrow> bytes \<Rightarrow> packet_decoder \<times> (db_error_code + nat \<times> bytes option)" where
  "feed_payload d n used input =
     (let amount = min (n - length (pd_payload d)) (length input - used);
          d = d\<lparr>pd_payload := pd_payload d @ take amount (drop used input)\<rparr>
      in if length (pd_payload d) \<noteq> n then (d, Inr (used + amount, None))
         else (d\<lparr>pd_terminal := True, pd_payload := []\<rparr>, Inr (used + amount, Some (pd_payload d))))"

definition feed :: "packet_decoder \<Rightarrow> bytes \<Rightarrow> packet_decoder \<times> (db_error_code + nat \<times> bytes option)" where
  "feed d input =
     (if pd_terminal d then packet_failure d ProtocolError
      else if 65536 < pd_limit d then packet_failure d InvalidParameter
      else
        let used = min (4 - length (pd_header d)) (length input);
            d = d\<lparr>pd_header := pd_header d @ take used input\<rparr>
        in if length (pd_header d) \<noteq> 4 then (d, Inr (used, None))
           else case pd_length d of
               Some n \<Rightarrow> feed_payload d n used input
             | None \<Rightarrow>
                 let n = little_endian (take 3 (pd_header d))
                 in if u8 (pd_header d ! 3) \<noteq> pd_sequence d then packet_failure d ProtocolError
                    else if pd_limit d < n then packet_failure d ResourceLimit
                    else feed_payload (d\<lparr>pd_length := Some n\<rparr>) n used input)"

definition start_packet :: "nat \<Rightarrow> nat \<Rightarrow> packet_decoder" where
  "start_packet expected limit =
     \<lparr>pd_header = [], pd_length = None, pd_payload = [], pd_sequence = expected, pd_limit = limit, pd_terminal = False\<rparr>"

text \<open>A packet is decoded to its payload, and exactly its bytes are used.\<close>

definition packet :: "nat \<Rightarrow> bytes \<Rightarrow> bytes" where
  "packet n payload = little_bytes 3 (length payload) @ [char_of n] @ payload"

lemma feed_packet:
  assumes "length payload \<le> limit" "limit \<le> 65536" "n < 256"
  shows "snd (feed (start_packet n limit) (packet n payload @ later)) = Inr (4 + length payload, Some payload)"
proof -
  let ?l = "little_bytes 3 (length payload)"
  have size: "little_endian ?l = length payload" by (rule little_endian_bytes) (use assms in simp)
  define input where "input = packet n payload @ later"
  have head: "take 4 input = ?l @ [char_of n]" "drop 4 input = payload @ later" "length input = 4 + length payload + length later"
    by (simp_all add: input_def packet_def)
  have len: "min 4 (length input) = 4" using head(3) by simp
  have parts: "take 3 (?l @ [char_of n]) = ?l" "(?l @ [char_of n]) ! 3 = char_of n" "length (?l @ [char_of n]) = 4" "u8 (char_of n) = n"
    using assms(3) by (simp_all add: nth_append)
  have "feed (start_packet n limit) input =
      feed_payload ((start_packet n limit)\<lparr>pd_header := ?l @ [char_of n], pd_length := Some (length payload)\<rparr>) (length payload) 4 input"
    unfolding feed_def using assms
    by (simp add: start_packet_def len head parts size Let_def del: append_assoc length_append)
  then show ?thesis using head(3) by (simp add: feed_payload_def head(2) start_packet_def Let_def input_def [symmetric])
qed

subsection \<open>The greeting\<close>

record server_greeting =
  server_version :: string
  connection_id :: nat
  capabilities :: nat
  character_set :: nat
  greeting_status :: nat
  challenge :: bytes

definition client_required :: "32 word" where
  "client_required = 0x200 OR 0x800 OR 0x8000 OR 0x80000"

text \<open>The fields behind the version: identity, first challenge, filler, flags, and the rest.\<close>

definition greeting_tail :: "string \<Rightarrow> bytes \<Rightarrow> db_error_code + server_greeting" where
  "greeting_tail version d =
     (if length d < 4 \<or> length d - 4 < 8 then Inl ProtocolError
      else if length d < 13 \<or> u8 (d ! 12) \<noteq> 0 \<or> length d < 16 then Inl ProtocolError
      else if length d < 18 then Inl ProtocolError
      else if length d < 20 then Inl ProtocolError
      else
        let flags = little_endian (substr 13 2 d) + 2 ^ 16 * little_endian (substr 18 2 d)
        in if of_nat flags AND client_required \<noteq> client_required then Inl UnsupportedFeature
           else if length d < 21 \<or> u8 (d ! 20) \<noteq> 21 \<or> length d - 21 < 23 then Inl ProtocolError
           else if list_ex (\<lambda>b. b \<noteq> NUL_byte) (substr 21 10 d) then Inl ProtocolError
           else if d ! 43 \<noteq> NUL_byte then Inl ProtocolError
           else if length d - 44 \<noteq> length ''caching_sha2_password'' + 1 \<or> last d \<noteq> NUL_byte then Inl ProtocolError
           else if substr 44 (length ''caching_sha2_password'') d \<noteq> ''caching_sha2_password'' then Inl UnsupportedFeature
           else Inr \<lparr>server_version = version, connection_id = little_endian (take 4 d), capabilities = flags,
                     character_set = u8 (d ! 15), greeting_status = little_endian (substr 16 2 d),
                     challenge = substr 4 8 d @ substr 31 12 d\<rparr>)"

definition decode_server_greeting :: "bytes \<Rightarrow> db_error_code + server_greeting" where
  "decode_server_greeting data =
     (if 65536 < length data then Inl ResourceLimit
      else if data = [] \<or> u8 (hd data) \<noteq> 10 then Inl ProtocolError
      else
        let version = takeWhile (\<lambda>b. b \<noteq> NUL_byte) (tl data)
        in if list_ex (\<lambda>b. u8 b < 32 \<or> 126 < u8 b) version \<or> 128 < length version then Inl ProtocolError
           else if length data = 1 + length version \<or> version = [] then Inl ProtocolError
           else greeting_tail version (drop (length version + 2) data))"

definition valid_protocol41_error_packet :: "bytes \<Rightarrow> bool" where
  "valid_protocol41_error_packet b \<longleftrightarrow>
     9 \<le> length b \<and> u8 (b ! 0) = 255 \<and> b ! 3 = CHR ''#'' \<and> list_all (\<lambda>c. is_digit c \<or> is_upper c) (substr 4 5 b)"

subsection \<open>Dates\<close>

record mysql_cell =
  mc_value :: "string option"
  mc_error :: bool

definition null_cell :: mysql_cell where
  "null_cell = \<lparr>mc_value = None, mc_error = False\<rparr>"

definition invalid_cell :: mysql_cell where
  "invalid_cell = \<lparr>mc_value = Some [], mc_error = True\<rparr>"

definition good_cell :: "string \<Rightarrow> mysql_cell" where
  "good_cell s = \<lparr>mc_value = Some s, mc_error = False\<rparr>"

definition date_valid_components :: "nat \<Rightarrow> nat \<Rightarrow> nat \<Rightarrow> bool" where
  "date_valid_components year month day \<longleftrightarrow>
     1000 \<le> year \<and> year \<le> 9999 \<and> 1 \<le> month \<and> month \<le> 12 \<and> 1 \<le> day \<and>
     (let leap = (year mod 4 = 0 \<and> (year mod 100 \<noteq> 0 \<or> year mod 400 = 0))
      in day \<le> [31, 28, 31, 30, 31, 30, 31, 31, 30, 31, 30, 31] ! (month - 1) + (if month = 2 \<and> leap then 1 else 0))"

definition date_valid_cell :: "string \<Rightarrow> bool" where
  "date_valid_cell v \<longleftrightarrow>
     length v = 10 \<and> v ! 4 = CHR ''-'' \<and> v ! 7 = CHR ''-'' \<and>
     list_all is_digit (take 4 v @ substr 5 2 v @ drop 8 v) \<and>
     date_valid_components (decimal_value (take 4 v)) (decimal_value (substr 5 2 v)) (decimal_value (drop 8 v))"

definition date_text_cell :: "string option \<Rightarrow> mysql_cell" where
  "date_text_cell v = (case v of
       None \<Rightarrow> null_cell
     | Some s \<Rightarrow> if \<not> date_valid_cell s then invalid_cell else good_cell s)"

definition two_digits :: "nat \<Rightarrow> string" where
  "two_digits n = [digit_char (n div 10), digit_char (n mod 10)]"

definition year_digits :: "nat \<Rightarrow> string" where
  "year_digits y = [digit_char (y div 1000 mod 10), digit_char (y div 100 mod 10), digit_char (y div 10 mod 10), digit_char (y mod 10)]"

definition format_date :: "nat \<Rightarrow> nat \<Rightarrow> nat \<Rightarrow> string" where
  "format_date year month day = year_digits year @ ''-'' @ two_digits month @ ''-'' @ two_digits day"

definition date_binary_cell :: "bytes option \<Rightarrow> db_error_code + mysql_cell" where
  "date_binary_cell v = (case v of
       None \<Rightarrow> Inr null_cell
     | Some b \<Rightarrow>
         if b = [] then Inl ProtocolError
         else
           let n = u8 (b ! 0)
           in if n \<noteq> 0 \<and> n \<noteq> 4 \<and> n \<noteq> 7 \<and> n \<noteq> 11 then Inl ProtocolError
              else if length b \<noteq> n + 1 then Inl ProtocolError
              else if n = 7 \<or> n = 11 then Inl UnsupportedFeature
              else if n = 0 then Inr invalid_cell
              else
                let year = u8 (b ! 1) + 256 * u8 (b ! 2); month = u8 (b ! 3); day = u8 (b ! 4)
                in if \<not> date_valid_components year month day then Inr invalid_cell
                   else Inr (good_cell (format_date year month day)))"

definition encode_date_parameter :: "string option \<Rightarrow> db_error_code + bytes option" where
  "encode_date_parameter input = (case input of
       None \<Rightarrow> Inr None
     | Some s \<Rightarrow>
         if \<not> date_valid_cell s then Inl InvalidParameter
         else
           let year = decimal_value (take 4 s); month = decimal_value (substr 5 2 s); day = decimal_value (drop 8 s)
           in Inr (Some [char_of (4 :: nat), char_of (year mod 256), char_of (year div 256), char_of month, char_of day]))"

text \<open>A date that is sent as a parameter comes back as the same text.\<close>

lemma decimal_pair: "decimal_value [a, b] = 10 * digit_value a + digit_value b"
  by (simp add: decimal_value_def)

lemma decimal_four: "decimal_value [a, b, c, d] = 10 * (10 * (10 * digit_value a + digit_value b) + digit_value c) + digit_value d"
  by (simp add: decimal_value_def)

lemma two_digits_value:
  assumes "is_digit a" "is_digit b"
  shows "two_digits (decimal_value [a, b]) = [a, b]"
proof -
  have "digit_value b < 10" using assms by simp
  then show ?thesis using assms by (simp add: two_digits_def decimal_pair)
qed

lemma year_digits_value:
  assumes "is_digit a" "is_digit b" "is_digit c" "is_digit d"
  shows "year_digits (decimal_value [a, b, c, d]) = [a, b, c, d]"
proof -
  let ?a = "digit_value a" and ?b = "digit_value b" and ?c = "digit_value c" and ?d = "digit_value d"
  let ?n = "decimal_value [a, b, c, d]"
  have d: "?a < 10" "?b < 10" "?c < 10" "?d < 10" using assms by simp_all
  have split: "(10 * q + k) mod 10 = k" "(10 * q + k) div 10 = q" if "k < 10" for q k :: nat using that by simp_all
  have "?n mod 10 = ?d" "?n div 10 = 10 * (10 * ?a + ?b) + ?c" unfolding decimal_four by (rule split [OF d(4)])+
  moreover have "?n div 100 = ?n div 10 div 10" "?n div 1000 = ?n div 10 div 10 div 10" by (simp_all only: div_mult2_eq [symmetric], simp_all)
  ultimately have "?n mod 10 = ?d" "?n div 10 mod 10 = ?c" "?n div 100 mod 10 = ?b" "?n div 1000 mod 10 = ?a"
    using d by (simp_all only: split) simp
  then show ?thesis using assms by (simp add: year_digits_def)
qed

lemma date_cell_parts:
  assumes "date_valid_cell s"
  shows "format_date (decimal_value (take 4 s)) (decimal_value (substr 5 2 s)) (decimal_value (drop 8 s)) = s"
proof -
  obtain a b c d e f g h i j where s: "s = [a, b, c, d, e, f, g, h, i, j]"
    using assms by (auto simp: date_valid_cell_def numeral_eq_Suc length_Suc_conv)
  with assms show ?thesis
    by (simp add: date_valid_cell_def format_date_def year_digits_value two_digits_value substr_def)
qed

lemma date_parameter_roundtrip:
  assumes "encode_date_parameter (Some s) = Inr (Some b)"
  shows "date_binary_cell (Some b) = Inr (good_cell s)"
proof -
  let ?y = "decimal_value (take 4 s)" and ?m = "decimal_value (substr 5 2 s)" and ?d = "decimal_value (drop 8 s)"
  have valid: "date_valid_cell s" using assms by (auto simp: encode_date_parameter_def split: if_splits)
  then have comp: "date_valid_components ?y ?m ?d" by (simp add: date_valid_cell_def)
  have dec: "list_all is_digit (drop 8 s)" "length (drop 8 s) = 2" using valid by (simp_all add: date_valid_cell_def)
  have range: "?y < 65536" "?m < 256" "?d < 256"
    using comp decimal_value_less [OF dec(1)] dec(2) by (simp_all add: date_valid_components_def)
  have b: "b = [char_of (4 :: nat), char_of (?y mod 256), char_of (?y div 256), char_of ?m, char_of ?d]"
    using assms valid by (simp add: encode_date_parameter_def Let_def)
  have "?y div 256 < 256" using range(1) by (simp add: less_mult_imp_div_less)
  then show ?thesis
    using comp range date_cell_parts [OF valid] by (simp add: date_binary_cell_def b)
qed

subsection \<open>Durations\<close>

record time_cell =
  tc_cell :: mysql_cell
  time_of_day :: bool

definition invalid_time :: time_cell where
  "invalid_time = \<lparr>tc_cell = invalid_cell, time_of_day = False\<rparr>"

text \<open>The width of the fraction with its point, and the micros one unit of the fraction stands for.\<close>

definition fraction_width :: "nat \<Rightarrow> nat" where
  "fraction_width precision = (if precision \<noteq> 0 then 1 + precision else 0)"

definition unit_micros :: "nat \<Rightarrow> nat" where
  "unit_micros precision = 10 ^ (6 - precision)"

definition time_metadata :: "nat \<Rightarrow> nat \<Rightarrow> db_error_code + nat" where
  "time_metadata len precision =
     (if 6 < precision then Inl UnsupportedFeature
      else if len \<noteq> 10 + fraction_width precision then Inl ProtocolError
      else Inr precision)"

definition time_valid_components :: "bool \<Rightarrow> nat \<Rightarrow> nat \<Rightarrow> nat \<Rightarrow> nat \<Rightarrow> bool" where
  "time_valid_components neg hours minute second micros \<longleftrightarrow>
     \<not> (838 < hours \<or> 59 < minute \<or> 59 < second \<or> 999999 < micros) \<and>
     \<not> (hours = 838 \<and> minute = 59 \<and> second = 59 \<and> micros \<noteq> 0) \<and>
     \<not> (neg \<and> hours = 0 \<and> minute = 0 \<and> second = 0 \<and> micros = 0)"

definition time_text_cell :: "string option \<Rightarrow> nat \<Rightarrow> db_error_code + time_cell" where
  "time_text_cell input precision =
     (if 6 < precision then Inl UnsupportedFeature
      else case input of
          None \<Rightarrow> Inr \<lparr>tc_cell = null_cell, time_of_day = False\<rparr>
        | Some s \<Rightarrow>
            let neg = (s \<noteq> [] \<and> hd s = CHR ''-'');
                v = (if neg then tl s else s)
            in case find_from (\<lambda>c. c = CHR '':'') v 0 of
                None \<Rightarrow> Inr invalid_time
              | Some colon \<Rightarrow>
                  if colon \<noteq> 2 \<and> colon \<noteq> 3 then Inr invalid_time
                  else if length v \<noteq> colon + 6 + fraction_width precision \<or> v ! (colon + 3) \<noteq> CHR '':'' then Inr invalid_time
                  else if colon = 3 \<and> v ! 0 = CHR ''0'' then Inr invalid_time
                  else if precision \<noteq> 0 \<and> v ! (colon + 6) \<noteq> CHR ''.'' then Inr invalid_time
                  else
                    let h = take colon v; mi = substr (colon + 1) 2 v; se = substr (colon + 4) 2 v; fr = drop (colon + 7) v;
                        micros = decimal_value fr * unit_micros precision
                    in if \<not> list_all is_digit (h @ mi @ se @ fr) then Inr invalid_time
                       else if \<not> time_valid_components neg (decimal_value h) (decimal_value mi) (decimal_value se) micros
                       then Inr invalid_time
                       else Inr \<lparr>tc_cell = good_cell s, time_of_day = (\<not> neg \<and> decimal_value h < 24)\<rparr>)"

definition format_fraction :: "nat \<Rightarrow> nat \<Rightarrow> string" where
  "format_fraction micros precision =
     (if precision \<noteq> 0 then ''.'' @ map (\<lambda>i. digit_char (micros div 10 ^ (5 - i) mod 10)) [0..<precision] else [])"

definition format_time :: "bool \<Rightarrow> nat \<Rightarrow> nat \<Rightarrow> nat \<Rightarrow> nat \<Rightarrow> nat \<Rightarrow> string" where
  "format_time neg hours minute second micros precision =
     (if neg then ''-'' else []) @ (if hours < 10 then ''0'' else []) @ to_string hours @ '':'' @ two_digits minute @ '':'' @
     two_digits second @ format_fraction micros precision"

definition time_binary_cell :: "bytes option \<Rightarrow> nat \<Rightarrow> db_error_code + time_cell" where
  "time_binary_cell input precision =
     (if 6 < precision then Inl UnsupportedFeature
      else case input of
          None \<Rightarrow> Inr \<lparr>tc_cell = null_cell, time_of_day = False\<rparr>
        | Some b \<Rightarrow>
            if b = [] then Inl ProtocolError
            else
              let n = u8 (b ! 0)
              in if (n \<noteq> 0 \<and> n \<noteq> 8 \<and> n \<noteq> 12) \<or> length b \<noteq> n + 1 then Inl ProtocolError
                 else if n = 0 then Inr \<lparr>tc_cell = good_cell (format_time False 0 0 0 0 precision), time_of_day = True\<rparr>
                 else
                   let sign = u8 (b ! 1); days = little_endian (substr 2 4 b); hh = u8 (b ! 6); mi = u8 (b ! 7); se = u8 (b ! 8);
                       micros = (if n = 12 then little_endian (substr 9 4 b) else 0);
                       hours = days * 24 + hh
                   in if 1 < sign \<or> 23 < hh \<or> \<not> time_valid_components (sign \<noteq> 0) hours mi se micros \<or>
                         micros mod unit_micros precision \<noteq> 0
                      then Inr invalid_time
                      else Inr \<lparr>tc_cell = good_cell (format_time (sign \<noteq> 0) hours mi se micros precision),
                                time_of_day = (sign = 0 \<and> hours < 24)\<rparr>)"

subsection \<open>Timestamps\<close>

datatype datetime_kind = Datetime_kind | Timestamp_kind

definition datetime_metadata :: "datetime_kind \<Rightarrow> nat \<Rightarrow> nat \<Rightarrow> db_error_code + datetime_kind \<times> nat" where
  "datetime_metadata kind len precision =
     (if 6 < precision then Inl UnsupportedFeature
      else if len \<noteq> 19 + fraction_width precision then Inl ProtocolError
      else Inr (kind, precision))"

definition datetime_valid_components ::
  "nat \<Rightarrow> nat \<Rightarrow> nat \<Rightarrow> nat \<Rightarrow> nat \<Rightarrow> nat \<Rightarrow> nat \<Rightarrow> nat \<Rightarrow> bool" where
  "datetime_valid_components year month day hh mi se micros precision \<longleftrightarrow>
     precision \<le> 6 \<and> date_valid_components year month day \<and> hh \<le> 23 \<and> mi \<le> 59 \<and> se \<le> 59 \<and> micros \<le> 999999 \<and>
     micros mod unit_micros precision = 0"

text \<open>The layout that the reader of cells and the encoder of parameters share, digits apart.\<close>

definition datetime_layout :: "string \<Rightarrow> nat \<Rightarrow> bool" where
  "datetime_layout v precision \<longleftrightarrow>
     length v = 19 + fraction_width precision \<and> date_valid_cell (take 10 v) \<and> v ! 10 = CHR '' '' \<and> v ! 13 = CHR '':'' \<and>
     v ! 16 = CHR '':'' \<and> (precision \<noteq> 0 \<longrightarrow> v ! 19 = CHR ''.'')"

definition datetime_text_cell :: "string option \<Rightarrow> nat \<Rightarrow> db_error_code + mysql_cell" where
  "datetime_text_cell input precision =
     (if 6 < precision then Inl UnsupportedFeature
      else case input of
          None \<Rightarrow> Inr null_cell
        | Some v \<Rightarrow>
            if \<not> datetime_layout v precision then Inr invalid_cell
            else if \<not> list_all is_digit (substr 11 2 v @ substr 14 2 v @ substr 17 2 v @ drop 20 v) then Inr invalid_cell
            else if 23 < decimal_value (substr 11 2 v) \<or> 59 < decimal_value (substr 14 2 v) \<or> 59 < decimal_value (substr 17 2 v)
            then Inr invalid_cell
            else Inr (good_cell v))"

definition format_datetime :: "nat \<Rightarrow> nat \<Rightarrow> nat \<Rightarrow> nat \<Rightarrow> nat \<Rightarrow> nat \<Rightarrow> nat \<Rightarrow> nat \<Rightarrow> string" where
  "format_datetime year month day hh mi se micros precision =
     format_date year month day @ '' '' @ two_digits hh @ '':'' @ two_digits mi @ '':'' @ two_digits se @ format_fraction micros precision"

definition datetime_binary_cell :: "bytes option \<Rightarrow> nat \<Rightarrow> db_error_code + mysql_cell" where
  "datetime_binary_cell input precision =
     (if 6 < precision then Inl UnsupportedFeature
      else case input of
          None \<Rightarrow> Inr null_cell
        | Some b \<Rightarrow>
            if b = [] then Inl ProtocolError
            else
              let n = u8 (b ! 0)
              in if (n \<noteq> 0 \<and> n \<noteq> 4 \<and> n \<noteq> 7 \<and> n \<noteq> 11) \<or> length b \<noteq> n + 1 then Inl ProtocolError
                 else if n = 0 then Inr invalid_cell
                 else
                   let year = u8 (b ! 1) + 256 * u8 (b ! 2); month = u8 (b ! 3); day = u8 (b ! 4);
                       hh = (if 7 \<le> n then u8 (b ! 5) else 0);
                       mi = (if 7 \<le> n then u8 (b ! 6) else 0);
                       se = (if 7 \<le> n then u8 (b ! 7) else 0);
                       micros = (if n = 11 then little_endian (drop 8 b) else 0)
                   in if \<not> datetime_valid_components year month day hh mi se micros precision then Inr invalid_cell
                      else Inr (good_cell (format_datetime year month day hh mi se micros precision)))"

definition encode_datetime_parameter :: "string option \<Rightarrow> nat \<Rightarrow> nat \<Rightarrow> db_error_code + bytes option" where
  "encode_datetime_parameter input precision max_value_bytes =
     (if 6 < precision then Inl UnsupportedFeature
      else case input of
          None \<Rightarrow> Inr None
        | Some v \<Rightarrow>
            if \<not> datetime_layout v precision then Inl InvalidParameter
            else if \<not> list_all is_digit (substr 11 2 v @ substr 14 2 v @ substr 17 2 v @ drop 20 v) then Inl InvalidParameter
            else
              let year = decimal_value (take 4 v); month = decimal_value (substr 5 2 v); day = decimal_value (substr 8 2 v);
                  hh = decimal_value (substr 11 2 v); mi = decimal_value (substr 14 2 v); se = decimal_value (substr 17 2 v);
                  micros = decimal_value (drop 20 v) * unit_micros precision
              in if \<not> datetime_valid_components year month day hh mi se micros precision then Inl InvalidParameter
                 else
                   let n = (if micros \<noteq> 0 then 11 else if hh \<noteq> 0 \<or> mi \<noteq> 0 \<or> se \<noteq> 0 then 7 else 4 :: nat)
                   in if max_value_bytes < n + 1 then Inl ResourceLimit
                      else Inr (Some ([char_of n, char_of (year mod 256), char_of (year div 256), char_of month, char_of day] @
                        (if 7 \<le> n then [char_of hh, char_of mi, char_of se] else []) @
                        (if n = 11 then little_bytes 4 micros else []))))"

subsection \<open>Decimals\<close>

definition decimal_metadata :: "nat \<Rightarrow> nat \<Rightarrow> bool \<Rightarrow> db_error_code + native_type_info" where
  "decimal_metadata len sc unsigned_value =
     (let overhead = (if sc \<noteq> 0 then 1 else 0) + (if unsigned_value then 0 else 1);
          precision = len - overhead
      in if len \<le> overhead then Inl ProtocolError
         else if precision < sc then Inl ProtocolError
         else if 65 < precision \<or> 30 < sc then Inl UnsupportedFeature
         else Inr (native_type ST_Decimal precision (int sc) True))"

definition decimal_valid_cell :: "string \<Rightarrow> native_type_info \<Rightarrow> bool \<Rightarrow> bool" where
  "decimal_valid_cell v info unsigned_value \<longleftrightarrow>
     scalar info = ST_Decimal \<and> known info \<and> column_size info \<noteq> 0 \<and> column_size info \<le> 65 \<and> 0 \<le> decimal_digits info \<and>
     decimal_digits info \<le> 30 \<and> nat (decimal_digits info) \<le> column_size info \<and> v \<noteq> [] \<and>
     \<not> (hd v = CHR ''-'' \<and> unsigned_value) \<and>
     (let t = (if hd v = CHR ''-'' then tl v else v);
          sc = nat (decimal_digits info);
          whole = takeWhile (\<lambda>c. c \<noteq> CHR ''.'') t;
          pointed = (CHR ''.'' \<in> set t);
          rest = drop (length whole + 1) t
      in whole \<noteq> [] \<and> length rest = sc \<and> \<not> (sc = 0 \<and> pointed) \<and> \<not> (sc \<noteq> 0 \<and> \<not> pointed) \<and>
         list_all is_digit whole \<and> list_all is_digit rest \<and>
         length (dropWhile (\<lambda>c. c = CHR ''0'') whole) \<le> column_size info - sc)"

text \<open>The described type admits its own cells: a column described with a precision and a scale has a valid cell.\<close>

lemma decimal_metadata_admits:
  assumes "decimal_metadata len sc unsigned_value = Inr info"
  shows "decimal_valid_cell (''0'' @ (if sc = 0 then [] else ''.'' @ replicate sc (CHR ''0''))) info unsigned_value"
  using assms
  by (auto simp: decimal_metadata_def decimal_valid_cell_def native_type_def Let_def is_digit_def list_all_iff split: if_splits)

end
