(* ===== verification/CredentialTime.thy ===== *)
theory CredentialTime
  imports Prelude
begin

section \<open>Expiry of temporary credentials\<close>

text \<open>
  The timestamps an issuer sends (\<^verbatim>\<open>issuer_timestamp.cpp\<close>) and their conversion into a validity on the
  monotonic clock (\<^verbatim>\<open>temporary_db_validity.cpp\<close>). An instant is a number of microseconds; a point or a
  duration of the clock is a number of ticks, kept in a signed 64-bit representation. The number of ticks in a
  microsecond is the ratio \<^verbatim>\<open>num / den\<close> of the clock, an argument of the definitions.
\<close>

subsection \<open>Timestamps\<close>

datatype timestamp_failure =
  UnsupportedFormat | InvalidSyntax | ResourceLimit | Nonpositive | PrecisionLoss | TimestampOverflow

datatype timestamp_format = JsonSeconds | UtcIso8601

definition maximum64 :: nat where
  "maximum64 = 9223372036854775807"

definition append_digit :: "char \<Rightarrow> nat \<times> nat \<Rightarrow> timestamp_failure + (nat \<times> nat)" where
  "append_digit c m = (let (digits, coefficient) = m in
     if digits + 1 > 19 then Inl ResourceLimit
     else if coefficient > (maximum64 - digit_value c) div 10 then Inl TimestampOverflow
     else Inr (digits + 1, coefficient * 10 + digit_value c))"

fun append_integer :: "string \<Rightarrow> nat \<times> nat \<Rightarrow> timestamp_failure + ((nat \<times> nat) \<times> string)" where
  "append_integer [] m = Inr (m, [])"
| "append_integer (c # cs) m =
     (if is_digit c then bind_result (append_digit c m) (append_integer cs) else Inr (m, c # cs))"

fun append_fraction ::
  "string \<Rightarrow> nat \<Rightarrow> nat \<times> nat \<Rightarrow> timestamp_failure + (nat \<times> (nat \<times> nat) \<times> string)" where
  "append_fraction [] fractional m = Inr (fractional, m, [])"
| "append_fraction (c # cs) fractional m =
     (if is_digit c
      then if fractional + 1 > 18 then Inl ResourceLimit
           else bind_result (append_digit c m) (append_fraction cs (fractional + 1))
      else Inr (fractional, m, c # cs))"

fun exponent_digits :: "string \<Rightarrow> nat \<Rightarrow> nat \<Rightarrow> timestamp_failure + (nat \<times> string)" where
  "exponent_digits [] n e = Inr (e, [])"
| "exponent_digits (c # cs) n e =
     (if is_digit c
      then if n + 1 > 2 then Inl ResourceLimit else exponent_digits cs (n + 1) (e * 10 + digit_value c)
      else Inr (e, c # cs))"

definition starts_digit :: "string \<Rightarrow> bool" where
  "starts_digit s \<longleftrightarrow> s \<noteq> [] \<and> is_digit (hd s)"

definition json_integer :: "string \<Rightarrow> timestamp_failure + ((nat \<times> nat) \<times> string)" where
  "json_integer s =
     (if \<not> starts_digit s then Inl InvalidSyntax
      else if hd s = CHR ''0''
      then bind_result (append_digit (hd s) (0, 0)) (\<lambda>m.
             if starts_digit (tl s) then Inl InvalidSyntax else Inr (m, tl s))
      else append_integer s (0, 0))"

definition json_fraction ::
  "(nat \<times> nat) \<times> string \<Rightarrow> timestamp_failure + (nat \<times> (nat \<times> nat) \<times> string)" where
  "json_fraction p = (let (m, s) = p in
     if s \<noteq> [] \<and> hd s = CHR ''.''
     then if \<not> starts_digit (tl s) then Inl InvalidSyntax else append_fraction (tl s) 0 m
     else Inr (0, m, s))"

definition json_exponent :: "string \<Rightarrow> timestamp_failure + (int \<times> string)" where
  "json_exponent s =
     (if s \<noteq> [] \<and> (hd s = CHR ''e'' \<or> hd s = CHR ''E'')
      then let s1 = tl s;
               signed = s1 \<noteq> [] \<and> (hd s1 = CHR ''+'' \<or> hd s1 = CHR ''-'');
               negative = signed \<and> hd s1 = CHR ''-'';
               s2 = (if signed then tl s1 else s1)
           in if \<not> starts_digit s2 then Inl InvalidSyntax
              else bind_result (exponent_digits s2 0 0) (\<lambda>(e, s3).
                     if e > 18 then Inl ResourceLimit
                     else Inr (if negative then - int e else int e, s3))
      else Inr (0, s))"

primrec scale_up :: "nat \<Rightarrow> nat \<Rightarrow> timestamp_failure + nat" where
  "scale_up 0 coefficient = Inr coefficient"
| "scale_up (Suc n) coefficient =
     (if coefficient > maximum64 div 10 then Inl TimestampOverflow else scale_up n (coefficient * 10))"

primrec scale_down :: "nat \<Rightarrow> nat \<Rightarrow> timestamp_failure + nat" where
  "scale_down 0 coefficient = Inr coefficient"
| "scale_down (Suc n) coefficient =
     (if coefficient mod 10 \<noteq> 0 then Inl PrecisionLoss else scale_down n (coefficient div 10))"

definition scaled :: "int \<Rightarrow> nat \<Rightarrow> timestamp_failure + nat" where
  "scaled scale coefficient =
     bind_result (scale_up (nat scale) coefficient) (scale_down (nat (- scale)))"

definition json_seconds :: "string \<Rightarrow> timestamp_failure + nat" where
  "json_seconds s =
     (let negative = (s \<noteq> [] \<and> hd s = CHR ''-''); s1 = (if negative then tl s else s) in
      if negative \<and> s1 = [] then Inl InvalidSyntax
      else bind_result (json_integer s1) (\<lambda>p.
           bind_result (json_fraction p) (\<lambda>(fractional, (digits, coefficient), s2).
           bind_result (json_exponent s2) (\<lambda>(exponent, s3).
             if s3 \<noteq> [] then Inl InvalidSyntax
             else if negative \<or> coefficient = 0 then Inl Nonpositive
             else scaled (6 + exponent - int fractional) coefficient))))"

fun number_from :: "string \<Rightarrow> int \<Rightarrow> int" where
  "number_from [] acc = acc"
| "number_from (c # cs) acc = (if is_digit c then number_from cs (acc * 10 + int (digit_value c)) else - 1)"

definition number_at :: "string \<Rightarrow> nat \<Rightarrow> nat \<Rightarrow> int" where
  "number_at s start len = number_from (take len (drop start s)) 0"

definition leap :: "int \<Rightarrow> bool" where
  "leap year \<longleftrightarrow> year mod 4 = 0 \<and> (year mod 100 \<noteq> 0 \<or> year mod 400 = 0)"

definition days_before_year :: "int \<Rightarrow> int" where
  "days_before_year year =
     (let previous = year - 1 in previous * 365 + previous div 4 - previous div 100 + previous div 400)"

definition month_length :: "int \<Rightarrow> nat \<Rightarrow> int" where
  "month_length year month =
     [31, 28, 31, 30, 31, 30, 31, 31, 30, 31, 30, 31] ! (month - 1) + (if month = 2 \<and> leap year then 1 else 0)"

definition iso_fraction :: "string \<Rightarrow> timestamp_failure + int" where
  "iso_fraction s =
     (if length s = 20 then Inr 0
      else if s ! 19 \<noteq> CHR ''.'' \<or> length s < 22 then Inl InvalidSyntax
      else let count = length s - 21 in
           if count > 6 then Inl PrecisionLoss
           else let n = number_at s 20 count in
                if n = - 1 then Inl InvalidSyntax else Inr (n * 10 ^ (6 - count)))"

definition days_since_epoch :: "int \<Rightarrow> int \<Rightarrow> int \<Rightarrow> int" where
  "days_since_epoch year month day =
     days_before_year year - days_before_year 1970 + day - 1
     + (\<Sum>i\<leftarrow>[1..<nat month]. month_length year i)"

definition iso_micros :: "int \<Rightarrow> int \<Rightarrow> timestamp_failure + nat" where
  "iso_micros seconds frac =
     (if seconds > (int maximum64 - frac) div 1000000 then Inl TimestampOverflow
      else let micros = seconds * 1000000 + frac in
           if micros \<le> 0 then Inl Nonpositive else Inr (nat micros))"

definition utc_iso :: "string \<Rightarrow> timestamp_failure + nat" where
  "utc_iso s =
     (if length s < 20 \<or> s ! 4 \<noteq> CHR ''-'' \<or> s ! 7 \<noteq> CHR ''-'' \<or> s ! 10 \<noteq> CHR ''T''
         \<or> s ! 13 \<noteq> CHR '':'' \<or> s ! 16 \<noteq> CHR '':'' \<or> last s \<noteq> CHR ''Z''
      then Inl InvalidSyntax
      else let year = number_at s 0 4; month = number_at s 5 2; day = number_at s 8 2;
               hour = number_at s 11 2; minute = number_at s 14 2; second = number_at s 17 2 in
        if year < 1970 \<or> month < 1 \<or> month > 12 \<or> day < 1 \<or> hour < 0 \<or> hour > 23
           \<or> minute < 0 \<or> minute > 59 \<or> second < 0 \<or> second > 59
        then Inl InvalidSyntax
        else if day > month_length year (nat month) then Inl InvalidSyntax
        else bind_result (iso_fraction s)
          (iso_micros (days_since_epoch year month day * 86400 + hour * 3600 + minute * 60 + second)))"

definition parse_issuer_timestamp :: "timestamp_format \<Rightarrow> string \<Rightarrow> timestamp_failure + nat" where
  "parse_issuer_timestamp format s =
     (if s = [] then Inl InvalidSyntax
      else if length s > 64 then Inl ResourceLimit
      else case format of JsonSeconds \<Rightarrow> json_seconds s | UtcIso8601 \<Rightarrow> utc_iso s)"

subsection \<open>Validity on the monotonic clock\<close>

datatype time_failure =
  UnsupportedMethod | InvalidInput | UnknownClockQuality | TimeOverflow
| StaleSample | ClockRollback | Expired | TimeCancelled

record clock_sample =
  sample_utc :: int
  sample_before :: int
  sample_after :: int
  acquisition_completed :: int
  sample_now :: int
  utc_uncertainty :: "int option"
  drift_error :: "int option"
  suspend_error :: "int option"
  previous_monotonic_sample :: "int option"

record time_policy =
  max_age :: int
  max_bracket :: int
  max_total_error :: int
  max_horizon :: int

definition rep_min :: int where
  "rep_min = - 9223372036854775808"

definition rep_max :: int where
  "rep_max = 9223372036854775807"

definition finite_point :: "int \<Rightarrow> bool" where
  "finite_point t \<longleftrightarrow> t \<noteq> rep_min \<and> t \<noteq> rep_max"

definition checked_add :: "int \<Rightarrow> int \<Rightarrow> int option" where
  "checked_add a b =
     (if (b > 0 \<and> a > rep_max - b) \<or> (b < 0 \<and> a < rep_min - b) then None else Some (a + b))"

definition checked_subtract :: "int \<Rightarrow> int \<Rightarrow> int option" where
  "checked_subtract a b =
     (if (b > 0 \<and> a < rep_min + b) \<or> (b < 0 \<and> a > rep_max + b) then None else Some (a - b))"

definition to_ticks :: "int \<Rightarrow> int \<Rightarrow> int \<Rightarrow> int option" where
  "to_ticks num den micros =
     (if micros < 0 \<or> micros > rep_max div num then None
      else let t = (micros * num) div den in if t > rep_max then None else Some t)"

definition policy_limit :: "int \<Rightarrow> bool" where
  "policy_limit v \<longleftrightarrow> 0 \<le> v \<and> v \<le> 86400000000"

fun total_error :: "int \<Rightarrow> int list \<Rightarrow> int \<Rightarrow> time_failure + int" where
  "total_error limit [] acc = Inr acc"
| "total_error limit (b # bs) acc =
     (if b < 0 then Inl InvalidInput
      else if b > limit then Inl UnknownClockQuality
      else case checked_add acc b of None \<Rightarrow> Inl TimeOverflow | Some acc' \<Rightarrow> total_error limit bs acc')"

definition limits_ok :: "int \<Rightarrow> int \<Rightarrow> int \<Rightarrow> int \<Rightarrow> time_policy \<Rightarrow> bool" where
  "limits_ok num den deadline headroom p \<longleftrightarrow>
     policy_limit (max_age p) \<and> policy_limit (max_bracket p) \<and> policy_limit (max_total_error p)
     \<and> policy_limit (max_horizon p) \<and> max_horizon p \<noteq> 0 \<and> finite_point deadline
     \<and> 0 \<le> headroom \<and> headroom * den \<le> 86400000000 * num"

definition sample_finite :: "clock_sample \<Rightarrow> bool" where
  "sample_finite s \<longleftrightarrow>
     finite_point (sample_before s) \<and> finite_point (sample_after s) \<and> finite_point (acquisition_completed s)
     \<and> finite_point (sample_now s) \<and> pred_option finite_point (previous_monotonic_sample s)"

definition sample_ordered :: "clock_sample \<Rightarrow> bool" where
  "sample_ordered s \<longleftrightarrow>
     sample_before s \<le> sample_after s \<and> sample_after s \<le> acquisition_completed s
     \<and> acquisition_completed s \<le> sample_now s
     \<and> pred_option (\<lambda>t. t \<le> sample_before s) (previous_monotonic_sample s)"

definition sample_error :: "clock_sample \<Rightarrow> time_policy \<Rightarrow> time_failure + int" where
  "sample_error s p =
     (case (utc_uncertainty s, drift_error s, suspend_error s) of
        (Some u, Some d, Some e) \<Rightarrow>
          bind_result (total_error (max_total_error p) [u, d, e] 0) (\<lambda>n.
            if n > max_total_error p then Inl UnknownClockQuality else Inr n)
      | _ \<Rightarrow> Inl UnknownClockQuality)"

definition sample_fresh :: "int \<Rightarrow> int \<Rightarrow> clock_sample \<Rightarrow> time_policy \<Rightarrow> time_failure + unit" where
  "sample_fresh num den s p =
     (case (checked_subtract (sample_now s) (sample_before s), checked_subtract (sample_after s) (sample_before s),
            to_ticks num den (max_age p), to_ticks num den (max_bracket p)) of
        (Some a, Some b, Some age_limit, Some bracket_limit) \<Rightarrow>
          if a > age_limit \<or> b > bracket_limit then Inl StaleSample else Inr ()
      | _ \<Rightarrow> Inl TimeOverflow)"

definition remaining_micros :: "int \<Rightarrow> clock_sample \<Rightarrow> time_policy \<Rightarrow> int \<Rightarrow> time_failure + int" where
  "remaining_micros expiry s p err =
     (case Option.bind (checked_subtract expiry (sample_utc s)) (\<lambda>r. checked_subtract r err) of
        None \<Rightarrow> Inl TimeOverflow
      | Some r \<Rightarrow> if r \<le> 0 then Inl Expired else if r > max_horizon p then Inl InvalidInput else Inr r)"

definition admit_until ::
  "int \<Rightarrow> int \<Rightarrow> int \<Rightarrow> int \<Rightarrow> clock_sample \<Rightarrow> bool \<Rightarrow> int \<Rightarrow> time_failure + (int \<times> int)" where
  "admit_until num den deadline headroom s stopped r =
     (case to_ticks num den r of
        None \<Rightarrow> Inl TimeOverflow
      | Some duration \<Rightarrow>
          (case (checked_add (sample_before s) duration, checked_add deadline headroom) of
             (Some until, Some required) \<Rightarrow>
               if \<not> finite_point until \<or> \<not> finite_point required then Inl TimeOverflow
               else if duration = 0 \<or> until \<le> sample_now s \<or> until \<le> acquisition_completed s
                       \<or> sample_now s \<ge> deadline \<or> required \<ge> until
               then Inl Expired
               else if stopped then Inl TimeCancelled
               else Inr (acquisition_completed s, until)
           | _ \<Rightarrow> Inl TimeOverflow))"

definition convert_temporary_validity ::
  "int \<Rightarrow> int \<Rightarrow> int \<Rightarrow> int \<Rightarrow> int \<Rightarrow> clock_sample \<Rightarrow> time_policy \<Rightarrow> bool \<Rightarrow> time_failure + (int \<times> int)" where
  "convert_temporary_validity num den deadline headroom expiry s p stopped =
     (if \<not> limits_ok num den deadline headroom p then Inl InvalidInput
      else if \<not> sample_finite s then Inl InvalidInput
      else if \<not> sample_ordered s then Inl ClockRollback
      else bind_result (sample_error s p) (\<lambda>err.
           bind_result (sample_fresh num den s p) (\<lambda>_.
           bind_result (remaining_micros expiry s p err)
             (admit_until num den deadline headroom s stopped))))"

subsection \<open>Timestamps are exact and in range\<close>

lemma scale_up_exact: "scale_up n c = Inr t \<Longrightarrow> t = c * 10 ^ n"
proof (induction n arbitrary: c)
  case (Suc n)
  then have "scale_up n (c * 10) = Inr t"
    by (simp split: if_splits)
  then have "t = c * 10 * 10 ^ n"
    by (rule Suc.IH)
  then show ?case
    by simp
qed simp

lemma scale_down_exact: "scale_down n c = Inr t \<Longrightarrow> c = t * 10 ^ n"
proof (induction n arbitrary: c)
  case (Suc n)
  then have "c mod 10 = 0" and "c div 10 = t * 10 ^ n"
    by (auto split: if_splits)
  then show ?case
    by (metis add.right_neutral div_mult_mod_eq mult.assoc mult.commute power_Suc)
qed simp

lemma scale_up_bound: "scale_up n c = Inr t \<Longrightarrow> c \<le> maximum64 \<Longrightarrow> t \<le> maximum64"
proof (induction n arbitrary: c)
  case (Suc n)
  then have step: "c \<le> maximum64 div 10" and rest: "scale_up n (c * 10) = Inr t"
    by (auto split: if_splits)
  from step have "c * 10 \<le> maximum64"
    by (simp add: less_eq_div_iff_mult_less_eq)
  with rest show ?case
    by (rule Suc.IH)
qed simp

lemma scale_down_bound: "scale_down n c = Inr t \<Longrightarrow> t \<le> c"
  using scale_down_exact [of n c t] by simp

text \<open>Scaling to microseconds loses nothing: the result stands for exactly the written decimal.\<close>

lemma scaled_exact:
  assumes "scaled scale c = Inr t"
  shows "t * 10 ^ nat (- scale) = c * 10 ^ nat scale"
  using assms scale_up_exact scale_down_exact by (fastforce simp: scaled_def)

lemma scaled_bound:
  assumes "scaled scale c = Inr t" and "c \<le> maximum64"
  shows "t \<le> maximum64"
  using assms scale_up_bound scale_down_bound le_trans by (fastforce simp: scaled_def)

lemma scaled_positive:
  assumes "scaled scale c = Inr t" and "c \<noteq> 0"
  shows "0 < t"
  using scaled_exact [OF assms(1)] assms(2) by (cases t) auto

lemma append_digit_bound:
  assumes "append_digit c m = Inr m'" and "is_digit c"
  shows "snd m' \<le> maximum64"
  using assms(1) digit_value_less [OF assms(2)]
  by (auto simp: append_digit_def maximum64_def split: if_splits prod.splits)

lemma append_integer_bound:
  "append_integer s m = Inr (m', r) \<Longrightarrow> snd m \<le> maximum64 \<Longrightarrow> snd m' \<le> maximum64"
  by (induction s m rule: append_integer.induct) (auto split: if_splits dest: append_digit_bound)

lemma append_fraction_bound:
  "append_fraction s f m = Inr (f', m', r) \<Longrightarrow> snd m \<le> maximum64 \<Longrightarrow> snd m' \<le> maximum64"
  by (induction s f m rule: append_fraction.induct) (auto split: if_splits dest: append_digit_bound)

lemma json_integer_bound: "json_integer s = Inr (m, r) \<Longrightarrow> snd m \<le> maximum64"
  by (auto simp: json_integer_def starts_digit_def split: if_splits
      dest: append_digit_bound append_integer_bound)

lemma json_fraction_bound:
  "json_fraction (m, s) = Inr (f, m', r) \<Longrightarrow> snd m \<le> maximum64 \<Longrightarrow> snd m' \<le> maximum64"
  by (auto simp: json_fraction_def split: if_splits dest: append_fraction_bound)

lemma json_seconds_range:
  assumes "json_seconds s = Inr t"
  shows "0 < t \<and> t \<le> maximum64"
proof -
  obtain m r f digits c s2 e where int_part: "json_integer (if s \<noteq> [] \<and> hd s = CHR ''-'' then tl s else s) = Inr (m, r)"
    and frac: "json_fraction (m, r) = Inr (f, (digits, c), s2)"
    and pos: "c \<noteq> 0" and out: "scaled (6 + e - int f) c = Inr t"
    using assms by (auto simp: json_seconds_def Let_def split: if_splits prod.splits)
  from json_fraction_bound [OF frac json_integer_bound [OF int_part]] have "c \<le> maximum64"
    by simp
  with out pos show ?thesis
    using scaled_bound scaled_positive by blast
qed

lemma iso_micros_range:
  assumes "iso_micros seconds frac = Inr t"
  shows "0 < t \<and> t \<le> maximum64"
proof -
  from assms have fits: "seconds \<le> (int maximum64 - frac) div 1000000"
    and pos: "0 < seconds * 1000000 + frac" and t: "t = nat (seconds * 1000000 + frac)"
    by (auto simp: iso_micros_def Let_def split: if_splits)
  from fits have "seconds * 1000000 + frac \<le> int maximum64"
    by linarith
  with pos t show ?thesis
    by simp
qed

lemma utc_iso_range: "utc_iso s = Inr t \<Longrightarrow> 0 < t \<and> t \<le> maximum64"
  by (auto simp: utc_iso_def Let_def split: if_splits dest: iso_micros_range)

text \<open>Every accepted timestamp is a positive number of microseconds of a signed 64-bit integer.\<close>

lemma issuer_timestamp_range:
  assumes "parse_issuer_timestamp format s = Inr t"
  shows "0 < t \<and> t \<le> maximum64"
  using assms json_seconds_range utc_iso_range
  by (auto simp: parse_issuer_timestamp_def split: if_splits timestamp_format.splits)

subsection \<open>A validity never outlives the credential\<close>

lemma checked_add_value: "checked_add a b = Some c \<Longrightarrow> c = a + b"
  by (simp add: checked_add_def split: if_splits)

lemma checked_subtract_value: "checked_subtract a b = Some c \<Longrightarrow> c = a - b"
  by (simp add: checked_subtract_def split: if_splits)

lemma total_error_value: "total_error limit bs acc = Inr n \<Longrightarrow> n = acc + sum_list bs \<and> (\<forall>b\<in>set bs. 0 \<le> b)"
  by (induction limit bs acc rule: total_error.induct)
    (auto split: if_splits option.splits dest: checked_add_value)

lemma to_ticks_rounds_down:
  assumes "to_ticks num den micros = Some t" and "0 < den"
  shows "t * den \<le> micros * num"
proof -
  from assms(1) have t: "t = micros * num div den"
    by (auto simp: to_ticks_def Let_def split: if_splits)
  have "micros * num = micros * num div den * den + micros * num mod den"
    by simp
  moreover have "0 \<le> micros * num mod den"
    using assms(2) by simp
  ultimately show ?thesis
    unfolding t by linarith
qed

lemma sample_error_value:
  assumes "sample_error s p = Inr err"
  shows "\<exists>u d e. utc_uncertainty s = Some u \<and> drift_error s = Some d \<and> suspend_error s = Some e
           \<and> err = u + d + e \<and> 0 \<le> err \<and> err \<le> max_total_error p"
  using assms
  by (auto simp: sample_error_def simp del: total_error.simps split: option.splits if_splits
      dest!: total_error_value)

lemma remaining_micros_value:
  assumes "remaining_micros expiry s p err = Inr r"
  shows "r = expiry - sample_utc s - err \<and> 0 < r \<and> r \<le> max_horizon p"
  using assms
  by (auto simp: remaining_micros_def bind_eq_Some_conv split: option.splits if_splits
      dest!: checked_subtract_value)

lemma admit_until_value:
  assumes "admit_until num den deadline headroom s stopped r = Inr (issued, until)"
  shows "\<exists>duration. to_ticks num den r = Some duration \<and> until = sample_before s + duration
           \<and> issued = acquisition_completed s \<and> issued < until \<and> sample_now s < deadline
           \<and> deadline + headroom < until \<and> \<not> stopped"
  using assms
  by (auto simp: admit_until_def split: option.splits if_splits dest!: checked_add_value)

text \<open>
  A converted validity ends no later than the expiry less the three clock errors, measured from the moment
  before the sample was taken. It outlasts the deadline with its headroom, and the sample's order is kept.
\<close>

lemma validity_conservative:
  assumes "convert_temporary_validity num den deadline headroom expiry s p stopped = Inr (issued, until)"
    and "0 < den"
  shows "\<exists>err. sample_error s p = Inr err \<and> 0 \<le> err
           \<and> (until - sample_before s) * den \<le> (expiry - sample_utc s - err) * num
           \<and> issued = acquisition_completed s \<and> issued \<le> sample_now s \<and> sample_now s < deadline
           \<and> deadline + headroom < until \<and> \<not> stopped"
proof -
  obtain err r where ordered: "sample_ordered s" and err: "sample_error s p = Inr err"
    and r: "remaining_micros expiry s p err = Inr r"
    and out: "admit_until num den deadline headroom s stopped r = Inr (issued, until)"
    using assms(1) by (auto simp: convert_temporary_validity_def split: if_splits)
  from admit_until_value [OF out] obtain duration where d: "to_ticks num den r = Some duration"
    and rest: "until = sample_before s + duration" "issued = acquisition_completed s" "sample_now s < deadline"
      "deadline + headroom < until" "\<not> stopped"
    by blast
  from to_ticks_rounds_down [OF d assms(2)] have "duration * den \<le> r * num" .
  with err rest ordered sample_error_value [OF err] remaining_micros_value [OF r] show ?thesis
    by (auto simp: sample_ordered_def)
qed

end
