(* ===== verification/Spec2Isabelle.thy ===== *)
theory Spec2Isabelle
  imports Text_Codecs Utf8 Unicode Decimal PgWire PgLexer OdbcSql PgQuery PgMessages Backend PgResults Scram PgLogin PgConnect ConnString NumericStruct TextBuffers TextDates MysqlWire CredentialTime
begin

text \<open>
  Verification of the odbcpp driver, an ODBC driver for PostgreSQL and Redshift.

  The driver takes a connection string and data source files (\<^verbatim>\<open>odbc/connection_string.cpp\<close>), logs in over the
  PostgreSQL protocol (\<^verbatim>\<open>core/database/generic_database_connection.cpp\<close>), sends requests and reads the
  answers (\<^verbatim>\<open>core/database/postgres/pg_protocol_parser.cpp\<close>), and hands the result text to the application as
  C values (\<^verbatim>\<open>odbc/text_data_converter.cpp\<close>). The theories follow these parts.

  \<^descr>[\<open>Prelude\<close>] Result types, bytes, decimal text and the contracts \<open>codec\<close>, \<open>canonical_codec\<close>, \<open>cursor_reader\<close>
  and \<open>cursor_reader_pair\<close>, each interpreted by the components that provide them.
  \<^descr>[\<open>Text_Codecs\<close>, \<open>Utf8\<close>, \<open>Unicode\<close>] Hexadecimal and Base64 text, UTF-8 and \<^verbatim>\<open>SQLWCHAR\<close> strings: the decoders accept
  exactly the encodings and are inverse to the encoders, and bounded conversions keep their bound.
  \<^descr>[\<open>Decimal\<close>] \<^verbatim>\<open>sdk/src/util/scaled_decimal.cpp\<close>: reading a decimal text at a precision and a scale is exact arithmetic on
  the number it denotes; printing is inverse to it.
  \<^descr>[\<open>PgWire\<close>, \<open>PgLexer\<close>, \<open>PgQuery\<close>] Wire primitives, the parameter markers of SQL text and the requests built from
  them: the marker automaton agrees with the region scanners of \<^verbatim>\<open>pg_sql_dialect.cpp\<close>, and requests are
  accepted exactly within their limits and have exactly the bytes of the protocol.
  \<^descr>[\<open>OdbcSql\<close>] The translation of ODBC escapes in \<^verbatim>\<open>pg_sql_dialect.cpp\<close>: text that holds no escape is passed through,
  escapes are translated exactly as their parts say, and a line comment at the end of an escape is shown to
  swallow the text after it.
  \<^descr>[\<open>PgMessages\<close>, \<open>Backend\<close>, \<open>PgResults\<close>] Messages, error classes and the state machine that turns messages into
  results: payloads are accepted exactly if they encode a message, every accepted sequence of results is
  well-formed, and the messages of any sequence of outcomes are decoded to exactly these.
  \<^descr>[\<open>Scram\<close>, \<open>PgAuth\<close>, \<open>PgLogin\<close>] The SCRAM-SHA-256 client and the login loop: a login is ready only if the server has
  authenticated itself where it asked for SCRAM, a credential is hidden from a peer whose identity is
  not verified, and every login ends within the limit on startup messages.
  \<^descr>[\<open>PgTypes\<close>, \<open>QueryResults\<close>] Type tables, text codecs of cells and owning results: binary values survive both output
  formats of the server, presentation of types can be undone, and normalisation keeps the shape of rows.
  \<^descr>[\<open>PgTransport\<close>, \<open>PgConnection\<close>] The connection of \<^verbatim>\<open>generic_database_connection.cpp\<close>: whole messages over a
  transport that reads and writes pieces, the response loop, the publication of results and the operations that
  execute and describe statements. The contract of the virtual \<^verbatim>\<open>resolve_types\<close> is the locale \<open>type_resolver\<close>.
  \<^descr>[\<open>PgSession\<close>] \<^verbatim>\<open>pg_database_connection.cpp\<close>, \<^verbatim>\<open>pg_transactions.cpp\<close> and \<^verbatim>\<open>pg_error.cpp\<close>: lookups of types and origins,
  transactions and SQLSTATEs. Every operation reports the session as it is and retires it after an ambiguous error;
  transactions refine an abstract session, and complete on a transport that works.
  \<^descr>[\<open>PgConnect\<close>] Opening a session: checks of the settings, TLS, startup and the login of \<open>PgAuth\<close> over the transport. Every attempt ends in
  a connected session or one that is as before or retired, without credentials left in it.
  \<^descr>[\<open>ConnString\<close>] Parsing, data source files, precedence of parameters and resource limits.
  \<^descr>[\<open>OdbcTypes\<close>, \<open>TextConv\<close>, \<open>TextNumbers\<close>, \<open>NumericStruct\<close>, \<open>TextBuffers\<close>,
  \<open>TextDates\<close>] Type rules and the conversion of result text: every decimal text is converted
  to an integer type as the number it denotes, truncated, and \<^verbatim>\<open>SQL_NUMERIC_STRUCT\<close> values and their text are
  inverse; every supported conversion is carried out or refused with a reason; dates are read
  exactly, and wide strings are cut only between characters.
  \<^descr>[\<open>MysqlWire\<close>] Codecs under \<^verbatim>\<open>core/database/mysql\<close>: the packet decoder, the greeting, error packets and the cells and
  parameters of dates, times and decimals. A packet fed in one piece is decoded to its payload, and a date
  parameter is read back as the date it encodes.
  \<^descr>[\<open>CredentialTime\<close>] \<^verbatim>\<open>sdk/src/auth/issuer_timestamp.cpp\<close> and \<^verbatim>\<open>temporary_db_validity.cpp\<close>: accepted timestamps are
  positive 64-bit microseconds scaled without loss, and a validity never outlives the expiry less the clock errors.

  State is a record with the source's fields; a function that may throw returns \<open>error + 'a\<close>; a method that may
  throw after it has changed its object returns the object beside the result. Loops are total functions
  with a measure: a scanning loop by what is left of its input, the login loop by the reads the transport has
  returned; that as many reads as the source's own limit on startup messages always bring it to an outcome is proved, so
  no fuel is chosen by the model. The response loop counts down the limit on response messages, and a message is filled
  by what is missing of it. The world of the transport is passed from call to call. Sizes are natural numbers; where
  the source saturates or checks against \<^verbatim>\<open>std::size_t\<close> the bound is written out. The C library's
  floating-point readers, the digests, random bytes, files, environment, clock and the transport are
  parameters.

  Not modelled: the ODBC handles and entry points, which are descriptor, cursor and diagnostic bookkeeping on
  top of the parts above and are not reached yet; the catalog queries of PostgreSQL and Redshift, which assemble and
  check catalog SQL, and the MySQL authentication, query and prepared statement headers, not reached yet; armed
  cancellation and the session owner, which run over live transports and threads; exhaustion of memory, which the
  connection answers by ending the session; the AWS credential providers, which call an SDK outside the sources,
  and the parsers of their responses;
  transports, TLS, trust stores, logging, setup dialogs and the registry, which are input and output.
\<close>

end
